theory Spec2Isabelle
  imports Complex_Main
begin

section \<open>JavaScript strings and the regular-expression fragment used by the parser\<close>

text \<open>
  A JavaScript string is a sequence of UTF-16 code units. All characters that occur in the
  two patterns of the parser lie in the basic multilingual plane, so one code unit each.
  \<open>str\<close> turns an ASCII literal into such a sequence.
\<close>

type_synonym js_string = "nat list"

definition str :: "string \<Rightarrow> js_string" where
  "str cs = map of_char cs"

text \<open>\<open>\s\<close> and \<open>String.prototype.trim\<close>: WhiteSpace and LineTerminator code points.\<close>

definition is_space :: "nat \<Rightarrow> bool" where
  "is_space c = (c = 9 \<or> c = 10 \<or> c = 11 \<or> c = 12 \<or> c = 13 \<or> c = 32 \<or> c = 160 \<or> c = 5760
     \<or> (8192 \<le> c \<and> c \<le> 8202) \<or> c = 8232 \<or> c = 8233 \<or> c = 8239 \<or> c = 8287
     \<or> c = 12288 \<or> c = 65279)"

text \<open>\<open>\d\<close>: the ASCII digits.\<close>

definition is_digit :: "nat \<Rightarrow> bool" where
  "is_digit c = (48 \<le> c \<and> c \<le> 57)"

text \<open>\<open>.\<close> (without the \<open>s\<close> flag) matches everything but the four line terminators.\<close>

definition is_line_terminator :: "nat \<Rightarrow> bool" where
  "is_line_terminator c = (c = 10 \<or> c = 13 \<or> c = 8232 \<or> c = 8233)"

text \<open>
  Canonicalisation under the \<open>i\<close> flag (non-unicode mode). Only ASCII letters are folded:
  a code unit outside ASCII never canonicalises to an ASCII one, and every literal of the
  case-insensitive pattern is ASCII.
\<close>

definition canon :: "bool \<Rightarrow> nat \<Rightarrow> nat" where
  "canon ci c = (if ci \<and> 97 \<le> c \<and> c \<le> 122 then c - 32 else c)"

datatype cls = Ch nat | Digit | Space

datatype atom = C cls | Any | OneOf "cls list"

fun cls_ok :: "bool \<Rightarrow> cls \<Rightarrow> nat \<Rightarrow> bool" where
  "cls_ok ci (Ch l) c = (canon ci c = canon ci l)"
| "cls_ok ci Digit c = is_digit c"
| "cls_ok ci Space c = is_space c"

fun atom_ok :: "bool \<Rightarrow> atom \<Rightarrow> nat \<Rightarrow> bool" where
  "atom_ok ci (C k) c = cls_ok ci k c"
| "atom_ok ci Any c = (\<not> is_line_terminator c)"
| "atom_ok ci (OneOf ks) c = list_ex (\<lambda>k. cls_ok ci k c) ks"

text \<open>
  Quantifiers: none, \<open>?\<close>, \<open>*\<close>, \<open>+\<close> (greedy) and \<open>*?\<close> (lazy). In both patterns every
  quantifier applies to a single character or character class.
\<close>

datatype quant = Once | Opt | Star | Plus | LazyStar

datatype item =
    P atom quant
  | Alt "(atom \<times> quant) list list"
  | Open nat
  | Close nat
  | Bol
  | Eol

type_synonym caps = "(nat \<times> nat \<times> nat) list"

fun weight :: "item \<Rightarrow> nat" where
  "weight (Alt alts) = Suc (sum_list (map (\<lambda>a. Suc (length a)) alts))"
| "weight _ = 1"

definition pieces :: "(atom \<times> quant) list \<Rightarrow> item list" where
  "pieces a = map (\<lambda>(x, q). P x q) a"

lemma weight_pieces: "sum_list (map weight (pieces a)) = length a"
  by (induction a) (auto simp: pieces_def)

text \<open>
  The backtracking matcher. \<open>run ci k i s os cs\<close> matches the remaining pattern \<open>k\<close>
  against the remaining input \<open>s\<close>, which starts at index \<open>i\<close>; \<open>os\<close> holds the start
  index of every group opened so far, \<open>cs\<close> the groups closed so far. The order in which
  the choices are tried is the one ECMAScript prescribes: a greedy quantifier tries one
  more repetition first, a lazy one tries the rest of the pattern first, an alternation
  tries its alternatives left to right.
\<close>

function run :: "bool \<Rightarrow> item list \<Rightarrow> nat \<Rightarrow> js_string \<Rightarrow> (nat \<times> nat) list \<Rightarrow> caps
    \<Rightarrow> (nat \<times> caps) option" where
  "run ci [] i s os cs = Some (i, cs)"
| "run ci (P a Once # k) i [] os cs = None"
| "run ci (P a Once # k) i (c # s) os cs =
     (if atom_ok ci a c then run ci k (Suc i) s os cs else None)"
| "run ci (P a Opt # k) i [] os cs = run ci k i [] os cs"
| "run ci (P a Opt # k) i (c # s) os cs =
     (if atom_ok ci a c
      then (case run ci k (Suc i) s os cs of
              Some r \<Rightarrow> Some r
            | None \<Rightarrow> run ci k i (c # s) os cs)
      else run ci k i (c # s) os cs)"
| "run ci (P a Star # k) i [] os cs = run ci k i [] os cs"
| "run ci (P a Star # k) i (c # s) os cs =
     (if atom_ok ci a c
      then (case run ci (P a Star # k) (Suc i) s os cs of
              Some r \<Rightarrow> Some r
            | None \<Rightarrow> run ci k i (c # s) os cs)
      else run ci k i (c # s) os cs)"
| "run ci (P a Plus # k) i [] os cs = None"
| "run ci (P a Plus # k) i (c # s) os cs =
     (if atom_ok ci a c then run ci (P a Star # k) (Suc i) s os cs else None)"
| "run ci (P a LazyStar # k) i [] os cs = run ci k i [] os cs"
| "run ci (P a LazyStar # k) i (c # s) os cs =
     (case run ci k i (c # s) os cs of
        Some r \<Rightarrow> Some r
      | None \<Rightarrow> (if atom_ok ci a c then run ci (P a LazyStar # k) (Suc i) s os cs else None))"
| "run ci (Alt [] # k) i s os cs = None"
| "run ci (Alt (a # alts) # k) i s os cs =
     (case run ci (pieces a @ k) i s os cs of
        Some r \<Rightarrow> Some r
      | None \<Rightarrow> run ci (Alt alts # k) i s os cs)"
| "run ci (Open n # k) i s os cs = run ci k i s ((n, i) # os) cs"
| "run ci (Close n # k) i s os cs =
     run ci k i s os ((n, (case map_of os n of Some b \<Rightarrow> b | None \<Rightarrow> i), i) # cs)"
| "run ci (Bol # k) i s os cs = (if i = 0 then run ci k i s os cs else None)"
| "run ci (Eol # k) i s os cs = (if s = [] then run ci k i s os cs else None)"
  by pat_completeness auto
termination
  by (relation "measures [(\<lambda>(ci, k, i, s, os, cs). length s),
                          (\<lambda>(ci, k, i, s, os, cs). sum_list (map weight k))]")
     (auto simp: weight_pieces)

text \<open>
  \<open>String.prototype.match\<close> with a non-global pattern: the leftmost start index at
  which the pattern matches, tried from index 0 upwards.
\<close>

fun search :: "bool \<Rightarrow> item list \<Rightarrow> nat \<Rightarrow> js_string \<Rightarrow> caps option" where
  "search ci re i [] = (case run ci re i [] [] [] of Some (e, cs) \<Rightarrow> Some cs | None \<Rightarrow> None)"
| "search ci re i (c # s) =
     (case run ci re i (c # s) [] [] of
        Some (e, cs) \<Rightarrow> Some cs
      | None \<Rightarrow> search ci re (Suc i) s)"

text \<open>
  The match array: \<open>group t cs n\<close> is the text of group \<open>n\<close>. Every group of the two
  patterns lies on every path through its pattern, so a match has set all of them.
\<close>

definition group :: "js_string \<Rightarrow> caps \<Rightarrow> nat \<Rightarrow> js_string" where
  "group t cs n = (case map_of cs n of Some (b, e) \<Rightarrow> take (e - b) (drop b t) | None \<Rightarrow> [])"

definition match :: "bool \<Rightarrow> item list \<Rightarrow> js_string \<Rightarrow> (nat \<Rightarrow> js_string) option" where
  "match ci re t = (case search ci re 0 t of Some cs \<Rightarrow> Some (group t cs) | None \<Rightarrow> None)"

definition lit :: "string \<Rightarrow> item list" where
  "lit cs = map (\<lambda>c. P (C (Ch (of_char c))) Once) cs"

definition units :: "nat list \<Rightarrow> (atom \<times> quant) list" where
  "units us = map (\<lambda>u. (C (Ch u), Once)) us"

section \<open>The message parser (parser.js)\<close>

text \<open>
  \<^verbatim>\<open>\s*\|?\s*.*?\<close>, the separator that follows each numeric field of the stats pattern.
\<close>

definition sep :: "item list" where
  "sep = [P (C Space) Star, P (C (Ch 124)) Opt, P (C Space) Star, P Any LazyStar]"

text \<open>\<^verbatim>\<open>[:\s]+\<close>\<close>

definition colon_or_space :: "item list" where
  "colon_or_space = [P (OneOf [Ch 58, Space]) Plus]"

text \<open>
  \<^verbatim>\<open>/Day\s+(\d+)\s*\|?\s*.*?Streak[:\s]+(\d+)\s*\|?\s*.*?Hearts?[:\s]+(\d+)\s*\|?\s*.*?XP[:\s]+([\d,]+)\s*\|?\s*.*?Level[:\s]+(\d+)/i\<close>
\<close>

definition STATS_PATTERN :: "item list" where
  "STATS_PATTERN =
     lit ''Day'' @ [P (C Space) Plus, Open 1, P (C Digit) Plus, Close 1] @ sep @
     lit ''Streak'' @ colon_or_space @ [Open 2, P (C Digit) Plus, Close 2] @ sep @
     lit ''Heart'' @ [P (C (Ch 115)) Opt] @ colon_or_space @
       [Open 3, P (C Digit) Plus, Close 3] @ sep @
     lit ''XP'' @ colon_or_space @ [Open 4, P (OneOf [Digit, Ch 44]) Plus, Close 4] @ sep @
     lit ''Level'' @ colon_or_space @ [Open 5, P (C Digit) Plus, Close 5]"

text \<open>
  The completion markers, as the code units the source file holds (the file stores the
  glyphs in a doubly encoded form, and that form is what the pattern matches):
  U+00E2 U+0153 U+2026; U+00E2 U+00AC U+0153 U+00EF and an optional U+00B8;
  U+00E2 U+02DC U+2018 U+00EF U+00B8; U+011F U+0178 U+201D U+00B2;
  U+00E2 U+2013 U+00AA U+00EF U+00B8; \<^verbatim>\<open>\[x\]\<close>; \<^verbatim>\<open>\[\s?\]\<close>.
\<close>

definition done1 :: "nat list" where
  "done1 = [226, 339, 8230]"

definition done2 :: "nat list" where
  "done2 = [226, 732, 8216, 239, 184]"

definition markers :: "(atom \<times> quant) list list" where
  "markers =
     [units done1,
      units [226, 172, 339, 239] @ [(C (Ch 184), Opt)],
      units done2,
      units [287, 376, 8221, 178],
      units [226, 8211, 170, 239, 184],
      units [91, 120, 93],
      [(C (Ch 91), Once), (C Space, Opt), (C (Ch 93), Once)]]"

text \<open>\<^verbatim>\<open>/^\s*(\d+)\.\s*(...|\[x\]|\[\s?\])\s*(.+)$/\<close>\<close>

definition TASK_LINE_PATTERN :: "item list" where
  "TASK_LINE_PATTERN =
     [Bol, P (C Space) Star, Open 1, P (C Digit) Plus, Close 1, P (C (Ch 46)) Once,
      P (C Space) Star, Open 2, Alt markers, Close 2, P (C Space) Star,
      Open 3, P Any Plus, Close 3, Eol]"

text \<open>
  Numbers: \<open>parseInt\<close> yields an integer or NaN. The model keeps the exact integer; the
  source's doubles agree with it below \<open>2^53\<close>.
\<close>

datatype js_num = NaN | Num int

fun digits_val :: "int \<Rightarrow> js_string \<Rightarrow> int" where
  "digits_val acc [] = acc"
| "digits_val acc (c # s) = digits_val (10 * acc + (int c - 48)) s"

text \<open>
  \<open>parseInt(s, 10)\<close>: leading white space is skipped, a sign is read, and the longest
  run of digits that follows is the value; with no digit there the result is NaN.
\<close>

definition parseInt :: "js_string \<Rightarrow> js_num" where
  "parseInt s =
     (let t = dropWhile is_space s;
          neg = (case t of [] \<Rightarrow> False | c # r \<Rightarrow> c = 45);
          u = (case t of [] \<Rightarrow> [] | c # r \<Rightarrow> if c = 45 \<or> c = 43 then r else t);
          ds = takeWhile is_digit u
      in if ds = [] then NaN
         else Num (if neg then - digits_val 0 ds else digits_val 0 ds))"

definition trim :: "js_string \<Rightarrow> js_string" where
  "trim s = rev (dropWhile is_space (rev (dropWhile is_space s)))"

text \<open>\<open>text.split('\n')\<close>\<close>

fun split_lines :: "js_string \<Rightarrow> js_string list" where
  "split_lines [] = [[]]"
| "split_lines (c # s) =
     (if c = 10 then [] # split_lines s
      else (case split_lines s of l # ls \<Rightarrow> (c # l) # ls | [] \<Rightarrow> [[c]]))"

text \<open>\<open>s.replace(/,/g, '')\<close>\<close>

definition strip_commas :: "js_string \<Rightarrow> js_string" where
  "strip_commas s = filter (\<lambda>c. c \<noteq> 44) s"

record task_stats =
  streak :: js_num
  hearts :: js_num
  xp :: js_num
  level :: js_num

record task_item =
  item_id :: js_num
  item_text :: js_string
  completed :: bool

text \<open>The parse result; \<open>None\<close> in \<open>day\<close> and \<open>stats\<close> is the source's \<open>null\<close>.\<close>

record parsed =
  day :: "js_num option"
  stats :: "task_stats option"
  items :: "task_item list"

text \<open>The loop over the lines: a line that matches the task pattern pushes one item.\<close>

fun task_items :: "js_string list \<Rightarrow> task_item list" where
  "task_items [] = []"
| "task_items (line # rest) =
     (case match False TASK_LINE_PATTERN line of
        Some g \<Rightarrow>
          \<lparr>item_id = parseInt (g 1), item_text = trim (g 3),
           completed = (g 2 = done1 \<or> g 2 = done2 \<or> g 2 = str ''[x]'')\<rparr> # task_items rest
      | None \<Rightarrow> task_items rest)"

text \<open>
  \<open>parseTaskMessage\<close> on a string; \<open>None\<close> is the source's \<open>null\<close>. The empty string
  is falsy and returns \<open>null\<close> at once.
\<close>

definition parseTaskMessage :: "js_string \<Rightarrow> parsed option" where
  "parseTaskMessage t =
     (if t = [] then None
      else
        let statsMatch = match True STATS_PATTERN t;
            its = task_items (split_lines t)
        in if statsMatch = None \<and> its = [] then None
           else Some
             \<lparr>day = (case statsMatch of Some g \<Rightarrow> Some (parseInt (g 1)) | None \<Rightarrow> None),
              stats = (case statsMatch of
                         Some g \<Rightarrow>
                           Some \<lparr>streak = parseInt (g 2), hearts = parseInt (g 3),
                                 xp = parseInt (strip_commas (g 4)), level = parseInt (g 5)\<rparr>
                       | None \<Rightarrow> None),
              items = its\<rparr>)"

text \<open>
  \<open>createDeltaAccumulator\<close>: the closure's only variable is \<open>buffer\<close>. Each method takes
  the accumulator and returns it, with the method's result where it has one.
\<close>

record accumulator =
  buffer :: js_string

definition createDeltaAccumulator :: accumulator where
  "createDeltaAccumulator = \<lparr>buffer = []\<rparr>"

definition append_delta :: "js_string \<Rightarrow> accumulator \<Rightarrow> accumulator" where
  "append_delta delta a = a\<lparr>buffer := buffer a @ delta\<rparr>"

definition get_text :: "accumulator \<Rightarrow> js_string \<times> accumulator" where
  "get_text a = (buffer a, a)"

definition parse :: "accumulator \<Rightarrow> parsed option \<times> accumulator" where
  "parse a = (parseTaskMessage (buffer a), a)"

definition reset :: "accumulator \<Rightarrow> accumulator" where
  "reset a = a\<lparr>buffer := []\<rparr>"

section \<open>The wire codec (protocol.js)\<close>

text \<open>
  What a socket delivers is a string or binary data. \<open>JSON.parse\<close> belongs to the
  platform: it is a parameter that returns the parsed value or throws.
\<close>

datatype js_error = SyntaxError | TypeError

datatype 'b ws_data = Text js_string | Binary 'b

text \<open>
  The value \<open>parseFrame\<close> returns: what \<open>JSON.parse\<close> made of a string, the data itself
  when it is no string, or the sentinel \<^verbatim>\<open>{ type: 'unknown', raw: data }\<close>.
\<close>

datatype ('j, 'b) decoded = Parsed 'j | Passed 'b | Unknown "'b ws_data"

definition try_catch :: "js_error + 'a \<Rightarrow> (js_error \<Rightarrow> js_error + 'a) \<Rightarrow> js_error + 'a" where
  "try_catch body handler = (case body of Inl e \<Rightarrow> handler e | Inr v \<Rightarrow> Inr v)"

definition parseFrame ::
    "(js_string \<Rightarrow> js_error + 'j) \<Rightarrow> 'b ws_data \<Rightarrow> js_error + ('j, 'b) decoded" where
  "parseFrame JSON_parse data =
     try_catch
       (case data of
          Text s \<Rightarrow> (case JSON_parse s of Inl e \<Rightarrow> Inl e | Inr v \<Rightarrow> Inr (Parsed v))
        | Binary b \<Rightarrow> Inr (Passed b))
       (\<lambda>e. Inr (Unknown data))"

section \<open>The canonical device-auth payload (device-identity.js)\<close>

text \<open>JavaScript truthiness of an optional string: absent and empty are falsy.\<close>

definition truthy :: "js_string option \<Rightarrow> bool" where
  "truthy v = (case v of None \<Rightarrow> False | Some s \<Rightarrow> s \<noteq> [])"

text \<open>\<open>v ?? ''\<close>\<close>

definition or_empty :: "js_string option \<Rightarrow> js_string" where
  "or_empty v = (case v of None \<Rightarrow> [] | Some s \<Rightarrow> s)"

text \<open>\<open>Array.prototype.join\<close> on an array of strings.\<close>

fun join :: "js_string \<Rightarrow> js_string list \<Rightarrow> js_string" where
  "join s [] = []"
| "join s [x] = x"
| "join s (x # y # r) = x @ s @ join s (y # r)"

text \<open>
  \<open>String(n)\<close> for an integer: the decimal digits, after a minus sign when negative
  (\<open>signedAtMs\<close> is a millisecond time stamp, far below the \<open>10^21\<close> at which JavaScript
  switches to the exponent form).
\<close>

function decimal :: "nat \<Rightarrow> js_string" where
  "decimal n = (if n < 10 then [48 + n] else decimal (n div 10) @ [48 + n mod 10])"
  by pat_completeness auto
termination
  by (relation "measure id") auto

definition String :: "int \<Rightarrow> js_string" where
  "String n = (if n < 0 then 45 # decimal (nat (- n)) else decimal (nat n))"

definition buildDeviceAuthPayload ::
    "js_string \<Rightarrow> js_string \<Rightarrow> js_string \<Rightarrow> js_string \<Rightarrow> js_string list \<Rightarrow> int
     \<Rightarrow> js_string option \<Rightarrow> js_string option \<Rightarrow> js_string" where
  "buildDeviceAuthPayload deviceId clientId clientMode role scopes signedAtMs token nonce =
     (let version = (if truthy nonce then str ''v2'' else str ''v1'');
          base = [version, deviceId, clientId, clientMode, role, join [44] scopes,
                  String signedAtMs, or_empty token];
          base' = (if version = str ''v2'' then base @ [or_empty nonce] else base)
      in join [124] base')"

section \<open>The store (store.js)\<close>

datatype conn_state = DISCONNECTED | CONNECTING | PAIRING | CONNECTED | RECONNECTING

record connection =
  state :: conn_state
  error :: "js_string option"

record settings =
  gatewayUrl :: js_string
  authToken :: js_string
  agentId :: js_string

text \<open>
  A number held in the state is a number or \<open>null\<close> (\<open>None\<close>): the parser puts numbers
  there, \<open>NaN\<close> among them, and what comes back from storage may be \<open>null\<close>.
\<close>

record stats_value =
  v_streak :: "js_num option"
  v_hearts :: "js_num option"
  v_xp :: "js_num option"
  v_level :: "js_num option"

record item_value =
  v_id :: "js_num option"
  v_text :: js_string
  v_completed :: bool

record tasks =
  tasks_day :: "js_num option"
  tasks_stats :: stats_value
  tasks_items :: "item_value list"
  rawMessage :: "js_string option"

text \<open>
  Identifiers made by \<open>crypto.randomUUID()\<close> are modelled as natural numbers: the
  request ids and the idempotency keys.
\<close>

record queue_item =
  taskId :: "js_num option"
  q_text :: js_string
  idempotencyKey :: nat

record app_state =
  settings :: settings
  tasks :: tasks
  connection :: connection
  pendingQueue :: "queue_item list"
  deviceId :: js_string

text \<open>
  What \<open>JSON.parse\<close> makes of the stored string: an object in which each key of the state
  may be present. \<open>saveState\<close> writes every key but \<open>connection\<close>; a string written by
  anything else may hold that key too.
\<close>

record persisted =
  p_settings :: "settings option"
  p_tasks :: "tasks option"
  p_connection :: "connection option"
  p_pendingQueue :: "queue_item list option"
  p_deviceId :: "js_string option"

text \<open>
  A stored item is modelled by what \<open>JSON.parse\<close> does on it: it throws (\<open>Corrupt\<close>) or
  returns an object (\<open>Json\<close>).
\<close>

datatype stored = Corrupt | Json persisted

text \<open>
  What \<open>JSON.parse\<close> returns on the string \<open>JSON.stringify\<close> has made of a value:
  \<open>JSON.stringify\<close> writes \<open>NaN\<close> as \<open>null\<close>; integers, strings, booleans, \<open>null\<close>, and
  arrays and objects of them come back as they were.
\<close>

definition json_number :: "js_num option \<Rightarrow> js_num option" where
  "json_number v = (case v of Some NaN \<Rightarrow> None | Some (Num n) \<Rightarrow> Some (Num n) | None \<Rightarrow> None)"

definition json_stats :: "stats_value \<Rightarrow> stats_value" where
  "json_stats v =
     \<lparr>v_streak = json_number (v_streak v), v_hearts = json_number (v_hearts v),
      v_xp = json_number (v_xp v), v_level = json_number (v_level v)\<rparr>"

definition json_item :: "item_value \<Rightarrow> item_value" where
  "json_item i = \<lparr>v_id = json_number (v_id i), v_text = v_text i, v_completed = v_completed i\<rparr>"

definition json_tasks :: "tasks \<Rightarrow> tasks" where
  "json_tasks t =
     \<lparr>tasks_day = json_number (tasks_day t), tasks_stats = json_stats (tasks_stats t),
      tasks_items = map json_item (tasks_items t), rawMessage = rawMessage t\<rparr>"

definition json_queue_item :: "queue_item \<Rightarrow> queue_item" where
  "json_queue_item q =
     \<lparr>taskId = json_number (taskId q), q_text = q_text q, idempotencyKey = idempotencyKey q\<rparr>"




record local_storage =
  forge_state :: "stored option"
  forge_device_id :: "js_string option"


definition defaultState :: "js_string \<Rightarrow> app_state" where
  "defaultState dev =
     \<lparr>settings = \<lparr>gatewayUrl = [], authToken = [], agentId = str ''agent:main''\<rparr>,
      tasks = \<lparr>tasks_day = None,
               tasks_stats = \<lparr>v_streak = Some (Num 0), v_hearts = Some (Num 0),
                              v_xp = Some (Num 0), v_level = Some (Num 1)\<rparr>,
               tasks_items = [], rawMessage = None\<rparr>,
      connection = \<lparr>state = DISCONNECTED, error = None\<rparr>,
      pendingQueue = [],
      deviceId = dev\<rparr>"


text \<open>
  \<open>saveState\<close>: the item it stores parses to the state without \<open>connection\<close>, as
  \<open>JSON.stringify\<close> has written it.
\<close>

definition saveState :: "app_state \<Rightarrow> local_storage \<Rightarrow> local_storage" where
  "saveState s ls =
     ls\<lparr>forge_state := Some (Json
        \<lparr>p_settings = Some (settings s), p_tasks = Some (json_tasks (tasks s)),
         p_connection = None,
         p_pendingQueue = Some (map json_queue_item (pendingQueue s)),
         p_deviceId = Some (deviceId s)\<rparr>)\<rparr>"


text \<open>The store: the state in memory and the storage behind it.\<close>

record store =
  mem :: app_state
  disk :: local_storage

definition store_update_connection :: "connection \<Rightarrow> store \<Rightarrow> store" where
  "store_update_connection c st =
     (let s = (mem st)\<lparr>connection := c\<rparr> in \<lparr>mem = s, disk = saveState s (disk st)\<rparr>)"

definition store_set_settings :: "settings \<Rightarrow> store \<Rightarrow> store" where
  "store_set_settings v st =
     (let s = (mem st)\<lparr>settings := v\<rparr> in \<lparr>mem = s, disk = saveState s (disk st)\<rparr>)"


definition enqueue :: "queue_item \<Rightarrow> store \<Rightarrow> store" where
  "enqueue item st =
     (let s = (mem st)\<lparr>pendingQueue := pendingQueue (mem st) @ [item]\<rparr>
      in \<lparr>mem = s, disk = saveState s (disk st)\<rparr>)"

definition dequeue :: "nat \<Rightarrow> store \<Rightarrow> store" where
  "dequeue k st =
     (let s = (mem st)\<lparr>pendingQueue := filter (\<lambda>i. idempotencyKey i \<noteq> k) (pendingQueue (mem st))\<rparr>
      in \<lparr>mem = s, disk = saveState s (disk st)\<rparr>)"

definition clearQueue :: "store \<Rightarrow> store" where
  "clearQueue st =
     (let s = (mem st)\<lparr>pendingQueue := []\<rparr> in \<lparr>mem = s, disk = saveState s (disk st)\<rparr>)"






section \<open>The connection engine (connection.js): what its revisions share\<close>

text \<open>
  The repository holds three revisions of \<open>connection.js\<close>: the first correlates
  requests and responses through a pending table, the third performs the
  challenge handshake with a signed device block. \<open>setState\<close>, \<open>getReconnectDelay\<close>,
  \<open>stopHeartbeat\<close>, \<open>send\<close> and \<open>scheduleReconnect\<close> are the same text in all of them
  and are defined once, over the variables every revision has.
\<close>

definition HEARTBEAT_INTERVAL :: int where
  "HEARTBEAT_INTERVAL = 30000"

definition RECONNECT_BASE :: real where
  "RECONNECT_BASE = 1000"

definition RECONNECT_CAP :: real where
  "RECONNECT_CAP = 30000"

definition CONNECT_SEND_DELAY :: real where
  "CONNECT_SEND_DELAY = 750"

definition CLIENT_ID :: js_string where
  "CLIENT_ID = str ''webchat''"

definition CLIENT_MODE :: js_string where
  "CLIENT_MODE = str ''webchat''"

definition ROLE :: js_string where
  "ROLE = str ''operator''"

definition SCOPES :: "js_string list" where
  "SCOPES = [str ''operator.read'', str ''operator.write'', str ''operator.admin'']"

text \<open>Outbound frames: \<^verbatim>\<open>{ type: 'req', id, method, params }\<close>.\<close>

record device_block =
  dev_id :: js_string
  dev_publicKey :: js_string
  dev_signature :: js_string
  dev_signedAt :: int
  dev_nonce :: "js_string option"

text \<open>
  The parameters of a request: of \<open>connect\<close> (the token, the protocol range and, in the
  third revision, the device block; the constant client metadata is left out), of
  \<open>chat.send\<close> (session key, message text, idempotency key), or none (\<open>ping\<close>).
\<close>

datatype params =
    ConnectParams "js_string option" nat nat "device_block option"
  | ChatParams js_string js_string nat
  | NoParams

record request =
  req_id :: nat
  req_method :: js_string
  params :: params

text \<open>
  Inbound frames, as objects of the wire shapes: each field may be absent.
  \<open>fid\<close> is the \<open>id\<close> when it is a string, and \<open>fid_null\<close> says that the \<open>id\<close> is
  \<open>null\<close>; \<open>fresult\<close> is the truthiness of \<open>result\<close>, \<open>fnonce\<close> is \<open>payload?.nonce\<close>.
\<close>

record wire_error =
  code :: "js_string option"
  message :: "js_string option"

record frame =
  ftype :: "js_string option"
  fid :: "nat option"
  fevent :: "js_string option"
  fok :: "bool option"
  fresult :: bool
  ferror :: "wire_error option"
  fnonce :: "js_string option"
  fid_null :: bool

definition no_fields :: frame where
  "no_fields = \<lparr>ftype = None, fid = None, fevent = None, fok = None, fresult = False,
                 ferror = None, fnonce = None, fid_null = False\<rparr>"

text \<open>The fields the handlers read from whatever \<open>parseFrame\<close> returned.\<close>

definition frame_fields :: "(frame, 'b) decoded \<Rightarrow> frame" where
  "frame_fields d =
     (case d of
        Parsed f \<Rightarrow> f
      | Passed b \<Rightarrow> no_fields
      | Unknown raw \<Rightarrow> no_fields\<lparr>ftype := Some (str ''unknown'')\<rparr>)"

definition decode :: "(js_string \<Rightarrow> js_error + frame) \<Rightarrow> nat list ws_data \<Rightarrow> frame" where
  "decode JSON_parse raw =
     (case parseFrame JSON_parse raw of Inr d \<Rightarrow> frame_fields d | Inl e \<Rightarrow> no_fields)"

datatype ready_state = WS_CONNECTING | WS_OPEN | WS_CLOSING | WS_CLOSED

text \<open>
  A socket: its ready state, the \<open>settings\<close> its handlers have captured, and the
  frames sent on it, in order.
\<close>

record socket =
  readyState :: ready_state
  url :: js_string
  captured :: settings
  sent :: "request list"

text \<open>
  The timers of the runtime: a table from handles to what fires. \<open>Heartbeat\<close> is
  the interval; the others fire once.
\<close>

datatype callback =
    Heartbeat
  | Reconnect settings
  | ConnectDelay
  | RequestTimeout nat js_string
  | HandshakeTimeout nat

record timer =
  delay :: real
  callback :: callback

record engine_base =
  ws :: "socket option"
  heartbeatTimer :: "nat option"
  reconnectTimer :: "nat option"
  reconnectAttempt :: nat
  store :: store
  timers :: "nat \<rightharpoonup> timer"
  next_timer :: nat
  next_uuid :: nat
  emitted :: "(js_string \<times> frame) list"

definition setTimeout :: "callback \<Rightarrow> real \<Rightarrow> 'a engine_base_scheme \<Rightarrow> nat \<times> 'a engine_base_scheme" where
  "setTimeout cb d e =
     (next_timer e,
      e\<lparr>timers := (timers e)(next_timer e \<mapsto> \<lparr>delay = d, callback = cb\<rparr>),
        next_timer := Suc (next_timer e)\<rparr>)"

definition clearTimeout :: "nat \<Rightarrow> 'a engine_base_scheme \<Rightarrow> 'a engine_base_scheme" where
  "clearTimeout h e = e\<lparr>timers := (timers e)(h := None)\<rparr>"

definition randomUUID :: "'a engine_base_scheme \<Rightarrow> nat \<times> 'a engine_base_scheme" where
  "randomUUID e = (next_uuid e, e\<lparr>next_uuid := Suc (next_uuid e)\<rparr>)"

definition setState ::
    "conn_state \<Rightarrow> js_string option \<Rightarrow> 'a engine_base_scheme \<Rightarrow> 'a engine_base_scheme" where
  "setState c err e = e\<lparr>store := store_update_connection \<lparr>state = c, error = err\<rparr> (store e)\<rparr>"

definition conn :: "'a engine_base_scheme \<Rightarrow> conn_state" where
  "conn e = state (connection (mem (store e)))"

text \<open>
  \<open>getReconnectDelay\<close>; \<open>rnd\<close> is what \<open>Math.random()\<close> returns, a number in \<open>[0, 1)\<close>.
  The arithmetic is over the reals.
\<close>

definition getReconnectDelay :: "real \<Rightarrow> nat \<Rightarrow> real" where
  "getReconnectDelay rnd attempt =
     (let base = min (RECONNECT_BASE * 2 ^ attempt) RECONNECT_CAP;
          jitter = base * 0.3 * rnd
      in base + jitter)"

definition stopHeartbeat :: "'a engine_base_scheme \<Rightarrow> 'a engine_base_scheme" where
  "stopHeartbeat e =
     (case heartbeatTimer e of
        Some h \<Rightarrow> (clearTimeout h e)\<lparr>heartbeatTimer := None\<rparr>
      | None \<Rightarrow> e)"

definition send :: "request \<Rightarrow> 'a engine_base_scheme \<Rightarrow> bool \<times> 'a engine_base_scheme" where
  "send obj e =
     (case ws e of
        Some s \<Rightarrow>
          if readyState s = WS_OPEN then (True, e\<lparr>ws := Some (s\<lparr>sent := sent s @ [obj]\<rparr>)\<rparr>)
          else (False, e)
      | None \<Rightarrow> (False, e))"

definition scheduleReconnect ::
    "real \<Rightarrow> settings \<Rightarrow> 'a engine_base_scheme \<Rightarrow> 'a engine_base_scheme" where
  "scheduleReconnect rnd s e =
     (let d = getReconnectDelay rnd (reconnectAttempt e);
          e1 = e\<lparr>reconnectAttempt := Suc (reconnectAttempt e)\<rparr>;
          e2 = setState RECONNECTING None e1;
          (h, e3) = setTimeout (Reconnect s) d e2
      in e3\<lparr>reconnectTimer := Some h\<rparr>)"

text \<open>\<open>emit\<close>: the frame is published under the event name.\<close>

definition publish :: "js_string \<Rightarrow> frame \<Rightarrow> 'a engine_base_scheme \<Rightarrow> 'a engine_base_scheme" where
  "publish ev f e = e\<lparr>emitted := emitted e @ [(ev, f)]\<rparr>"

text \<open>\<open>s.includes(p)\<close>\<close>

fun str_includes :: "js_string \<Rightarrow> js_string \<Rightarrow> bool" where
  "str_includes [] p = (p = [])"
| "str_includes (c # s) p = (take (length p) (c # s) = p \<or> str_includes s p)"


section \<open>The engine, third revision: challenge handshake with a signed device block\<close>

text \<open>
  The names \<open>cleanup\<close>, \<open>handleMessage\<close>, \<open>flushQueue\<close>, \<open>connect\<close> and \<open>disconnect\<close>
  stand for this revision's functions; those of the first revision carry the
  suffix \<open>_r1\<close>.
\<close>

record identity =
  ident_id :: js_string
  publicKeyRaw :: js_string
  privateKey :: js_string

text \<open>
  What the platform provides: \<open>JSON.parse\<close>, the signature \<open>signPayload\<close> resolves with
  for a private key and a payload when it resolves, \<open>encodeURIComponent\<close>, and the message
  of the error \<open>new WebSocket(url)\<close> throws, if it throws.
\<close>

record env =
  env_JSON_parse :: "js_string \<Rightarrow> js_error + frame"
  env_sign :: "js_string \<Rightarrow> js_string \<Rightarrow> js_string"
  env_encodeURIComponent :: "js_string \<Rightarrow> js_string"
  env_websocket_error :: "js_string \<Rightarrow> js_string option"

text \<open>What \<open>Date.now()\<close> and \<open>Math.random()\<close> return while a handler runs.\<close>

record occasion =
  now :: int
  rnd :: real

text \<open>A call of \<open>sendConnect\<close> suspended at \<open>await signPayload(...)\<close>.\<close>

record pending_sign =
  sg_signedAt :: int
  sg_signature :: js_string

record engine3 = engine_base +
  connectTimer :: "nat option"
  authenticated :: bool
  connectSent :: bool
  currentAuthToken :: "js_string option"
  connectId :: "nat option"
  challengeNonce :: "js_string option"
  deviceIdentity :: "identity option"
  signing :: "pending_sign list"
  lastTick :: int
  tick_handler :: bool

text \<open>\<open>v || null\<close> and \<open>v || undefined\<close> on an optional string.\<close>

definition nonempty :: "js_string option \<Rightarrow> js_string option" where
  "nonempty v = (if truthy v then v else None)"

definition buildAuthUrl :: "env \<Rightarrow> js_string \<Rightarrow> js_string \<Rightarrow> js_string" where
  "buildAuthUrl env gw tok =
     gw @ (if str_includes gw [63] then [38] else [63]) @ str ''token='' @
     env_encodeURIComponent env tok"

definition buildConnectRequest ::
    "js_string option \<Rightarrow> device_block option \<Rightarrow> js_string option \<Rightarrow> engine3
     \<Rightarrow> request \<times> engine3" where
  "buildConnectRequest tok device nonce e =
     (let (u, e1) = randomUUID e
      in (\<lparr>req_id = u, req_method = str ''connect'', params = ConnectParams tok 3 3 device\<rparr>, e1))"

definition getSessionKey :: "js_string \<Rightarrow> js_string" where
  "getSessionKey agent = str ''agent:'' @ agent @ str '':main''"

text \<open>
  \<open>sendConnect\<close> from the request's construction on: with no device identity this runs
  at once, otherwise when the signature has arrived.
\<close>

definition sendConnect_finish :: "device_block option \<Rightarrow> engine3 \<Rightarrow> engine3" where
  "sendConnect_finish device e =
     (let (f, e1) = buildConnectRequest (currentAuthToken e) device (challengeNonce e) e;
          e2 = e1\<lparr>connectId := Some (req_id f)\<rparr>
      in snd (send f e2))"

text \<open>
  \<open>sendConnect\<close> up to its \<open>await\<close>: the guard, the flag, the timer, and the payload
  handed to \<open>signPayload\<close>.
\<close>

definition sendConnect :: "env \<Rightarrow> occasion \<Rightarrow> engine3 \<Rightarrow> engine3" where
  "sendConnect env oc e =
     (if connectSent e then e
      else
        let e1 = e\<lparr>connectSent := True\<rparr>;
            e2 = (case connectTimer e1 of
                    Some h \<Rightarrow> (clearTimeout h e1)\<lparr>connectTimer := None\<rparr>
                  | None \<Rightarrow> e1)
        in case deviceIdentity e2 of
             None \<Rightarrow> sendConnect_finish None e2
           | Some d \<Rightarrow>
               e2\<lparr>signing := signing e2 @
                  [\<lparr>sg_signedAt = now oc,
                    sg_signature = env_sign env (privateKey d)
                      (buildDeviceAuthPayload (ident_id d) CLIENT_ID CLIENT_MODE ROLE SCOPES
                         (now oc) (nonempty (currentAuthToken e2))
                         (nonempty (challengeNonce e2)))\<rparr>]\<rparr>)"

text \<open>
  The continuation after the \<open>await\<close>. It reads \<open>deviceIdentity\<close> and \<open>challengeNonce\<close>
  again; with \<open>deviceIdentity\<close> gone the property access throws and nothing is sent.
\<close>

definition sendConnect_resume :: "engine3 \<Rightarrow> engine3" where
  "sendConnect_resume e =
     (case signing e of
        [] \<Rightarrow> e
      | p # ps \<Rightarrow>
          (let e1 = e\<lparr>signing := ps\<rparr>
           in case deviceIdentity e1 of
                None \<Rightarrow> e1
              | Some d \<Rightarrow>
                  sendConnect_finish
                    (Some \<lparr>dev_id = ident_id d, dev_publicKey = publicKeyRaw d,
                           dev_signature = sg_signature p, dev_signedAt = sg_signedAt p,
                           dev_nonce = nonempty (challengeNonce e1)\<rparr>) e1))"

text \<open>
  The awaited \<open>signPayload\<close> rejecting: \<open>sendConnect\<close> has no handler for it, so the call
  ends there; nothing is sent and \<open>connectSent\<close> stays as it is.
\<close>

definition sendConnect_rejected :: "engine3 \<Rightarrow> engine3" where
  "sendConnect_rejected e = (case signing e of [] \<Rightarrow> e | p # ps \<Rightarrow> e\<lparr>signing := ps\<rparr>)"

definition cleanup :: "engine3 \<Rightarrow> engine3" where
  "cleanup e =
     (let e1 = (stopHeartbeat e)\<lparr>authenticated := False, connectSent := False,
                 currentAuthToken := None, connectId := None, challengeNonce := None\<rparr>;
          e2 = (case reconnectTimer e1 of
                  Some h \<Rightarrow> (clearTimeout h e1)\<lparr>reconnectTimer := None\<rparr>
                | None \<Rightarrow> e1);
          e3 = (case connectTimer e2 of
                  Some h \<Rightarrow> (clearTimeout h e2)\<lparr>connectTimer := None\<rparr>
                | None \<Rightarrow> e2)
      in e3\<lparr>ws := None\<rparr>)"

text \<open>
  \<open>startHeartbeat\<close>: its \<open>tick\<close> listener sets \<open>lastTick\<close>, the variable the interval
  callback compares with the clock.
\<close>

definition startHeartbeat :: "occasion \<Rightarrow> engine3 \<Rightarrow> engine3" where
  "startHeartbeat oc e =
     (let e1 = (stopHeartbeat e)\<lparr>lastTick := now oc, tick_handler := True\<rparr>;
          (h, e2) = setTimeout Heartbeat (real_of_int HEARTBEAT_INTERVAL) e1
      in e2\<lparr>heartbeatTimer := Some h\<rparr>)"

definition emit :: "occasion \<Rightarrow> js_string \<Rightarrow> frame \<Rightarrow> engine3 \<Rightarrow> engine3" where
  "emit oc ev f e =
     (let e1 = publish ev f e
      in if ev = str ''tick'' \<and> tick_handler e1 then e1\<lparr>lastTick := now oc\<rparr> else e1)"

text \<open>The loop of \<open>flushQueue\<close> over the queue as it was read at the start.\<close>

fun flush_loop :: "js_string \<Rightarrow> queue_item list \<Rightarrow> engine3 \<Rightarrow> engine3" where
  "flush_loop sk [] e = e"
| "flush_loop sk (item # rest) e =
     (let (u, e1) = randomUUID e;
          (ok, e2) = send \<lparr>req_id = u, req_method = str ''chat.send'',
                           params = ChatParams sk (q_text item) (idempotencyKey item)\<rparr> e1;
          e3 = (if ok then e2\<lparr>store := dequeue (idempotencyKey item) (store e2)\<rparr> else e2)
      in flush_loop sk rest e3)"

definition flushQueue :: "settings \<Rightarrow> engine3 \<Rightarrow> engine3" where
  "flushQueue s e =
     (let q = pendingQueue (mem (store e))
      in if q = [] then e else flush_loop (getSessionKey (agentId s)) q e)"

text \<open>
  \<open>frame.id === connectId\<close>, where \<open>connectId\<close> is a request id or \<open>null\<close>: a \<open>null\<close> id
  equals a \<open>null\<close> \<open>connectId\<close>.
\<close>

definition id_matches :: "frame \<Rightarrow> nat option \<Rightarrow> bool" where
  "id_matches f cid = (case cid of Some i \<Rightarrow> fid f = Some i | None \<Rightarrow> fid_null f)"

definition handleMessage ::
    "env \<Rightarrow> occasion \<Rightarrow> nat list ws_data \<Rightarrow> settings \<Rightarrow> engine3 \<Rightarrow> engine3" where
  "handleMessage env oc raw s e =
     (let f = decode (env_JSON_parse env) raw
      in if ftype f = Some (str ''event'') \<and> fevent f = Some (str ''connect.challenge'')
         then sendConnect env oc (e\<lparr>challengeNonce := nonempty (fnonce f)\<rparr>)
         else if ftype f = Some (str ''res'') \<and> id_matches f (connectId e)
         then
           (if fok f \<noteq> Some False \<and> ferror f = None
            then emit oc (str ''connected'') f
                   (flushQueue s
                     (startHeartbeat oc
                       (setState CONNECTED None
                         (e\<lparr>authenticated := True, reconnectAttempt := 0\<rparr>))))
            else
              let errCode = (case ferror f of
                               Some er \<Rightarrow> (if truthy (code er) then or_empty (code er) else [])
                             | None \<Rightarrow> []);
                  errMsg = (case ferror f of
                              Some er \<Rightarrow> (if truthy (message er) then or_empty (message er)
                                          else str ''Connect rejected'')
                            | None \<Rightarrow> str ''Connect rejected'')
              in if errCode = str ''NOT_PAIRED'' \<or> str_includes errMsg (str ''NOT_PAIRED'')
                 then setState PAIRING
                        (case deviceIdentity e of
                           Some d \<Rightarrow> nonempty (Some (ident_id d))
                         | None \<Rightarrow> None) e
                 else cleanup (setState DISCONNECTED (Some errMsg) e))
         else
           let e1 = emit oc (if truthy (ftype f) then or_empty (ftype f) else str ''message'') f e
           in if truthy (fevent f) then emit oc (or_empty (fevent f)) f e1 else e1)"

text \<open>\<open>connect\<close> up to \<open>await getOrCreateDeviceIdentity()\<close>.\<close>

definition connect :: "settings \<Rightarrow> engine3 \<Rightarrow> engine3" where
  "connect s e = (setState CONNECTING None (cleanup e))\<lparr>currentAuthToken := Some (authToken s)\<rparr>"

text \<open>
  \<open>connect\<close> after the \<open>await\<close>; \<open>ident\<close> is the identity, or \<open>None\<close> when loading it
  failed. The handlers of the new socket capture \<open>s\<close>.
\<close>

definition connect_resume :: "env \<Rightarrow> settings \<Rightarrow> identity option \<Rightarrow> engine3 \<Rightarrow> engine3" where
  "connect_resume env s ident e =
     (let e1 = e\<lparr>deviceIdentity := ident\<rparr>;
          u = buildAuthUrl env (gatewayUrl s) (authToken s)
      in case env_websocket_error env u of
           Some msg \<Rightarrow> setState DISCONNECTED (Some msg) e1
         | None \<Rightarrow>
             e1\<lparr>ws := Some \<lparr>readyState = WS_CONNECTING, url = u, captured = s, sent = []\<rparr>\<rparr>)"

definition ws_onopen :: "engine3 \<Rightarrow> engine3" where
  "ws_onopen e =
     (let (h, e1) = setTimeout ConnectDelay CONNECT_SEND_DELAY e in e1\<lparr>connectTimer := Some h\<rparr>)"

definition ws_onclose :: "occasion \<Rightarrow> settings \<Rightarrow> engine3 \<Rightarrow> engine3" where
  "ws_onclose oc s e =
     (let prevState = conn e;
          e1 = cleanup e
      in if prevState = CONNECTED \<or> prevState = CONNECTING \<or> prevState = PAIRING
         then scheduleReconnect (rnd oc) s e1
         else setState DISCONNECTED None e1)"

definition disconnect :: "engine3 \<Rightarrow> engine3" where
  "disconnect e = setState DISCONNECTED None (cleanup e)"

text \<open>The interval callback of \<open>startHeartbeat\<close>.\<close>

definition heartbeat_tick :: "occasion \<Rightarrow> engine3 \<Rightarrow> engine3" where
  "heartbeat_tick oc e =
     (if now oc - lastTick e > HEARTBEAT_INTERVAL * 3
      then scheduleReconnect (rnd oc) (settings (mem (store e))) (cleanup e)
      else e)"

text \<open>
  \<open>sendMessage\<close>: the promise it returns is settled at once, rejected with a message
  or resolved with the payload.
\<close>

definition sendMessage :: "js_string \<Rightarrow> engine3 \<Rightarrow> (js_string + request) \<times> engine3" where
  "sendMessage txt e =
     (if \<not> authenticated e then (Inl (str ''Not authenticated''), e)
      else
        let sk = getSessionKey (agentId (settings (mem (store e))));
            (u, e1) = randomUUID e;
            (k, e2) = randomUUID e1;
            payload = \<lparr>req_id = u, req_method = str ''chat.send'', params = ChatParams sk txt k\<rparr>;
            (ok, e3) = send payload e2
        in if ok then (Inr payload, e3) else (Inl (str ''Not connected''), e3))"

text \<open>
  What can happen to the engine: a call of its interface, an event of the socket the
  variable \<open>ws\<close> holds, a timer of the table firing, or an awaited promise settling:
  the identity loaded or not, the oldest awaited signature resolved or rejected.
\<close>

datatype event =
    Connect settings
  | IdentityLoaded settings "identity option"
  | SocketOpen
  | SocketMessage "nat list ws_data"
  | SocketClose
  | TimerFires nat
  | Signed
  | SignFailed
  | Disconnect
  | SendMessage js_string

definition fire :: "env \<Rightarrow> occasion \<Rightarrow> nat \<Rightarrow> engine3 \<Rightarrow> engine3" where
  "fire env oc h e =
     (case timers e h of
        None \<Rightarrow> e
      | Some t \<Rightarrow>
          (case callback t of
             Heartbeat \<Rightarrow> heartbeat_tick oc e
           | Reconnect s \<Rightarrow> connect s (clearTimeout h e)
           | ConnectDelay \<Rightarrow> sendConnect env oc (clearTimeout h e)
           | RequestTimeout i m \<Rightarrow> clearTimeout h e
           | HandshakeTimeout i \<Rightarrow> clearTimeout h e))"

definition step :: "env \<Rightarrow> occasion \<Rightarrow> event \<Rightarrow> engine3 \<Rightarrow> engine3" where
  "step env oc ev e =
     (case ev of
        Connect s \<Rightarrow> connect s e
      | IdentityLoaded s ident \<Rightarrow> connect_resume env s ident e
      | SocketOpen \<Rightarrow>
          (case ws e of
             Some k \<Rightarrow>
               if readyState k = WS_CONNECTING
               then ws_onopen (e\<lparr>ws := Some (k\<lparr>readyState := WS_OPEN\<rparr>)\<rparr>)
               else e
           | None \<Rightarrow> e)
      | SocketMessage raw \<Rightarrow>
          (case ws e of
             Some k \<Rightarrow> if readyState k = WS_OPEN then handleMessage env oc raw (captured k) e else e
           | None \<Rightarrow> e)
      | SocketClose \<Rightarrow>
          (case ws e of
             Some k \<Rightarrow> ws_onclose oc (captured k) (e\<lparr>ws := Some (k\<lparr>readyState := WS_CLOSED\<rparr>)\<rparr>)
           | None \<Rightarrow> e)
      | TimerFires h \<Rightarrow> fire env oc h e
      | Signed \<Rightarrow> sendConnect_resume e
      | SignFailed \<Rightarrow> sendConnect_rejected e
      | Disconnect \<Rightarrow> disconnect e
      | SendMessage txt \<Rightarrow> snd (sendMessage txt e))"

text \<open>A run: each event with the occasion on which it happens.\<close>

fun run_events :: "env \<Rightarrow> (occasion \<times> event) list \<Rightarrow> engine3 \<Rightarrow> engine3" where
  "run_events env [] e = e"
| "run_events env ((oc, ev) # rest) e = run_events env rest (step env oc ev e)"

text \<open>The engine as the module leaves it when loaded.\<close>

definition initial :: "store \<Rightarrow> engine3" where
  "initial st =
     \<lparr>ws = None, heartbeatTimer = None, reconnectTimer = None, reconnectAttempt = 0,
      store = st, timers = Map.empty, next_timer = 0, next_uuid = 0, emitted = [],
      connectTimer = None, authenticated = False, connectSent = False,
      currentAuthToken = None, connectId = None, challengeNonce = None,
      deviceIdentity = None, signing = [], lastTick = 0, tick_handler = False\<rparr>"


text \<open>The \<open>connect\<close> requests sent on the socket the engine holds.\<close>

definition connect_requests :: "engine3 \<Rightarrow> request list" where
  "connect_requests e =
     (case ws e of
        Some k \<Rightarrow> filter (\<lambda>r. req_method r = str ''connect'') (sent k)
      | None \<Rightarrow> [])"

text \<open>
  The events of a handshake: a message that decodes to the challenge event, the
  send-delay timer (handle \<open>h\<close>) firing, and the signature arriving.
\<close>

definition is_challenge :: "env \<Rightarrow> event \<Rightarrow> bool" where
  "is_challenge env ev =
     (case ev of
        SocketMessage raw \<Rightarrow>
          ftype (decode (env_JSON_parse env) raw) = Some (str ''event'')
          \<and> fevent (decode (env_JSON_parse env) raw) = Some (str ''connect.challenge'')
      | _ \<Rightarrow> False)"

definition handshake_event :: "env \<Rightarrow> nat \<Rightarrow> event \<Rightarrow> bool" where
  "handshake_event env h ev = (is_challenge env ev \<or> ev = TimerFires h \<or> ev = Signed)"

definition trigger :: "env \<Rightarrow> nat \<Rightarrow> event \<Rightarrow> bool" where
  "trigger env h ev = (is_challenge env ev \<or> ev = TimerFires h)"

text \<open>
  What holds all through an attempt whose send-delay timer has the handle \<open>h\<close>: the
  socket is open, and either nothing has been sent, the timer is armed and no signature
  is awaited, or the guard is set, the timer is gone, and the one request is either on
  the socket or still waits for its signature.
\<close>

definition attempt_inv :: "nat \<Rightarrow> engine3 \<Rightarrow> bool" where
  "attempt_inv h e =
     ((case ws e of Some k \<Rightarrow> readyState k = WS_OPEN | None \<Rightarrow> False)
      \<and> (if connectSent e
         then timers e h = None
              \<and> (if signing e = [] then length (connect_requests e) = 1
                 else length (signing e) = 1 \<and> connect_requests e = []
                      \<and> deviceIdentity e \<noteq> None)
         else connectTimer e = Some h
              \<and> (case timers e h of Some t \<Rightarrow> callback t = ConnectDelay | None \<Rightarrow> False)
              \<and> signing e = [] \<and> connect_requests e = []))"

text \<open>The attempt before anything has been sent.\<close>

definition fresh_attempt :: "nat \<Rightarrow> engine3 \<Rightarrow> bool" where
  "fresh_attempt h e =
     ((case ws e of Some k \<Rightarrow> readyState k = WS_OPEN | None \<Rightarrow> False)
      \<and> \<not> connectSent e \<and> connectTimer e = Some h \<and> signing e = [] \<and> connect_requests e = [])"

text \<open>
  A step from \<open>e\<close> to \<open>e'\<close> has scheduled a reconnect: the counter is one more than it
  was, the state is \<open>RECONNECTING\<close>, and the reconnect timer is armed for the delay of the
  counter as it was.
\<close>

definition rescheduled :: "occasion \<Rightarrow> engine3 \<Rightarrow> engine3 \<Rightarrow> bool" where
  "rescheduled oc e e' =
     (reconnectAttempt e' = Suc (reconnectAttempt e) \<and> conn e' = RECONNECTING
      \<and> (case reconnectTimer e' of
            Some h \<Rightarrow>
              (case timers e' h of
                 Some t \<Rightarrow> delay t = getReconnectDelay (rnd oc) (reconnectAttempt e)
               | None \<Rightarrow> False)
          | None \<Rightarrow> False))"

text \<open>
  The reconnects scheduled in a run, in order: for every step that has incremented the
  counter (\<open>scheduleReconnect\<close> holds the only increment), the counter as it was and the
  delay of the timer that \<open>reconnectTimer\<close> holds after the step.
\<close>

fun reconnect_delays :: "env \<Rightarrow> (occasion \<times> event) list \<Rightarrow> engine3 \<Rightarrow> (nat \<times> real) list" where
  "reconnect_delays env [] e = []"
| "reconnect_delays env ((oc, ev) # rest) e =
     (if reconnectAttempt (step env oc ev e) = Suc (reconnectAttempt e)
      then (case reconnectTimer (step env oc ev e) of
              Some h \<Rightarrow>
                (case timers (step env oc ev e) h of
                   Some t \<Rightarrow> [(reconnectAttempt e, delay t)]
                 | None \<Rightarrow> [])
            | None \<Rightarrow> [])
      else [])
     @ reconnect_delays env rest (step env oc ev e)"

text \<open>A run of failures only: no step of it is a transition to \<open>CONNECTED\<close>.\<close>

fun failures_only :: "env \<Rightarrow> (occasion \<times> event) list \<Rightarrow> engine3 \<Rightarrow> bool" where
  "failures_only env [] e = True"
| "failures_only env ((oc, ev) # rest) e =
     ((conn (step env oc ev e) = CONNECTED \<longrightarrow> conn e = CONNECTED)
      \<and> failures_only env rest (step env oc ev e))"

text \<open>\<open>Math.random()\<close> returns a number in \<open>[0, 1)\<close> on every occasion of the run.\<close>

definition random_in_range :: "(occasion \<times> event) list \<Rightarrow> bool" where
  "random_in_range evs = list_all (\<lambda>x. 0 \<le> rnd (fst x) \<and> rnd (fst x) < 1) evs"

section \<open>The engine, first revision: requests correlated with responses\<close>

text \<open>
  An entry of the pending table holds the callbacks and the timeout handle. The
  callbacks are those of a promise made by \<open>request\<close>, or those of the handshake
  that \<open>onopen\<close> registers (which capture \<open>settings\<close>).
\<close>

datatype entry_kind = Request | Handshake settings

record entry =
  kind :: entry_kind
  timeout :: nat

text \<open>
  The promise \<open>request\<close> returns, identified by the request id: its state, and the
  idempotency key that a \<^verbatim>\<open>.then(() => store.dequeue(key))\<close> attached to it removes.
\<close>

datatype outcome = Pending | Resolved frame | Rejected js_string

record promise =
  outcome :: outcome
  then_dequeue :: "nat option"

text \<open>\<open>pendingRequests\<close> is a \<open>Map\<close>: its entries keep the order of insertion.\<close>

record engine1 = engine_base +
  pendingRequests :: "(nat \<times> entry) list"
  promises :: "nat \<rightharpoonup> promise"

definition map_set :: "nat \<Rightarrow> 'v \<Rightarrow> (nat \<times> 'v) list \<Rightarrow> (nat \<times> 'v) list" where
  "map_set k v l =
     (if map_of l k = None then l @ [(k, v)]
      else map (\<lambda>(k', v'). if k' = k then (k, v) else (k', v')) l)"

definition map_delete :: "nat \<Rightarrow> (nat \<times> 'v) list \<Rightarrow> (nat \<times> 'v) list" where
  "map_delete k l = filter (\<lambda>(k', v'). k' \<noteq> k) l"

text \<open>Settling a promise: only a pending promise changes.\<close>

definition reject_promise :: "nat \<Rightarrow> js_string \<Rightarrow> engine1 \<Rightarrow> engine1" where
  "reject_promise u msg e =
     (case promises e u of
        Some p \<Rightarrow>
          if outcome p = Pending then e\<lparr>promises := (promises e)(u \<mapsto> p\<lparr>outcome := Rejected msg\<rparr>)\<rparr>
          else e
      | None \<Rightarrow> e)"

definition resolve_promise :: "nat \<Rightarrow> frame \<Rightarrow> engine1 \<Rightarrow> engine1" where
  "resolve_promise u f e =
     (case promises e u of
        Some p \<Rightarrow>
          if outcome p = Pending
          then (let e1 = e\<lparr>promises := (promises e)(u \<mapsto> p\<lparr>outcome := Resolved f\<rparr>)\<rparr>
                in case then_dequeue p of
                     Some k \<Rightarrow> e1\<lparr>store := dequeue k (store e1)\<rparr>
                   | None \<Rightarrow> e1)
          else e
      | None \<Rightarrow> e)"

definition buildRequest :: "js_string \<Rightarrow> params \<Rightarrow> engine1 \<Rightarrow> request \<times> engine1" where
  "buildRequest m p e =
     (let (u, e1) = randomUUID e in (\<lparr>req_id = u, req_method = m, params = p\<rparr>, e1))"

definition buildConnect :: "js_string \<Rightarrow> engine1 \<Rightarrow> request \<times> engine1" where
  "buildConnect tok e = buildRequest (str ''connect'') (ConnectParams (Some tok) 1 1 None) e"

definition buildPing :: "engine1 \<Rightarrow> request \<times> engine1" where
  "buildPing e = buildRequest (str ''ping'') NoParams e"

definition getSessionKey_r1 :: "js_string \<Rightarrow> js_string" where
  "getSessionKey_r1 agent = agent @ str '':webchat:dm:forge-pwa''"

text \<open>
  \<open>request\<close>: the id of the request, which identifies the promise returned, and the
  engine after the call.
\<close>

definition request :: "js_string \<Rightarrow> params \<Rightarrow> engine1 \<Rightarrow> nat \<times> engine1" where
  "request m p e =
     (let (u, e1) = randomUUID e;
          req = \<lparr>req_id = u, req_method = m, params = p\<rparr>;
          e2 = e1\<lparr>promises := (promises e1)(u \<mapsto> \<lparr>outcome = Pending, then_dequeue = None\<rparr>)\<rparr>;
          (h, e3) = setTimeout (RequestTimeout u m) 15000 e2;
          e4 = e3\<lparr>pendingRequests := map_set u \<lparr>kind = Request, timeout = h\<rparr> (pendingRequests e3)\<rparr>;
          (ok, e5) = send req e4
      in if ok then (u, e5)
         else (u, reject_promise u (str ''Not connected'')
                    ((clearTimeout h e5)\<lparr>pendingRequests := map_delete u (pendingRequests e5)\<rparr>)))"

text \<open>The callback of a request's timeout.\<close>

definition request_timeout :: "nat \<Rightarrow> js_string \<Rightarrow> engine1 \<Rightarrow> engine1" where
  "request_timeout u m e =
     reject_promise u (str ''Request '' @ m @ str '' timed out'')
       (e\<lparr>pendingRequests := map_delete u (pendingRequests e)\<rparr>)"

text \<open>
  The loop of \<open>cleanup\<close> over the pending table: each entry's timeout is cleared and
  its \<open>reject\<close> is called, which for a request rejects the promise and for the handshake
  sets the state.
\<close>

fun reject_all :: "(nat \<times> entry) list \<Rightarrow> engine1 \<Rightarrow> engine1" where
  "reject_all [] e = e"
| "reject_all ((u, en) # rest) e =
     (let e1 = clearTimeout (timeout en) e;
          e2 = (case kind en of
                  Request \<Rightarrow> reject_promise u (str ''Connection closed'') e1
                | Handshake s \<Rightarrow> setState DISCONNECTED (Some (str ''Handshake timeout'')) e1)
      in reject_all rest e2)"

definition cleanup_r1 :: "engine1 \<Rightarrow> engine1" where
  "cleanup_r1 e =
     (let e1 = stopHeartbeat e;
          e2 = (case reconnectTimer e1 of
                  Some h \<Rightarrow> (clearTimeout h e1)\<lparr>reconnectTimer := None\<rparr>
                | None \<Rightarrow> e1);
          e3 = reject_all (pendingRequests e2) e2;
          e4 = e3\<lparr>pendingRequests := []\<rparr>
      in e4\<lparr>ws := None\<rparr>)"

definition startHeartbeat_r1 :: "engine1 \<Rightarrow> engine1" where
  "startHeartbeat_r1 e =
     (let e1 = stopHeartbeat e;
          (h, e2) = setTimeout Heartbeat (real_of_int HEARTBEAT_INTERVAL) e1
      in e2\<lparr>heartbeatTimer := Some h\<rparr>)"

text \<open>The interval callback: a ping, if the socket is open.\<close>

definition heartbeat_tick_r1 :: "engine1 \<Rightarrow> engine1" where
  "heartbeat_tick_r1 e =
     (case ws e of
        Some k \<Rightarrow>
          if readyState k = WS_OPEN then (let (f, e1) = buildPing e in snd (send f e1)) else e
      | None \<Rightarrow> e)"

text \<open>
  The loop of \<open>flushQueue\<close>: one request per item; the \<open>then\<close> of its promise removes
  the item, the \<open>catch\<close> does nothing.
\<close>

fun flush_loop_r1 :: "js_string \<Rightarrow> queue_item list \<Rightarrow> engine1 \<Rightarrow> engine1" where
  "flush_loop_r1 sk [] e = e"
| "flush_loop_r1 sk (item # rest) e =
     (let (u, e1) = request (str ''chat.send'')
                      (ChatParams sk (q_text item) (idempotencyKey item)) e;
          e2 = (case promises e1 u of
                  Some p \<Rightarrow>
                    e1\<lparr>promises := (promises e1)(u \<mapsto> p\<lparr>then_dequeue := Some (idempotencyKey item)\<rparr>)\<rparr>
                | None \<Rightarrow> e1)
      in flush_loop_r1 sk rest e2)"

definition flushQueue_r1 :: "settings \<Rightarrow> engine1 \<Rightarrow> engine1" where
  "flushQueue_r1 s e =
     (let q = pendingQueue (mem (store e))
      in if q = [] then e else flush_loop_r1 (getSessionKey_r1 (agentId s)) q e)"

text \<open>The \<open>resolve\<close> of the handshake entry.\<close>

definition handshake_resolve :: "settings \<Rightarrow> frame \<Rightarrow> engine1 \<Rightarrow> engine1" where
  "handshake_resolve s f e =
     (if fresult f \<and> ferror f = None
      then publish (str ''connected'') f
             (flushQueue_r1 s
               (startHeartbeat_r1 (setState CONNECTED None (e\<lparr>reconnectAttempt := 0\<rparr>))))
      else
        let err = (case ferror f of
                     Some er \<Rightarrow> (if truthy (message er) then or_empty (message er)
                                 else str ''Handshake rejected'')
                   | None \<Rightarrow> str ''Handshake rejected'')
        in cleanup_r1 (setState DISCONNECTED (Some err) e))"

definition handleMessage_r1 ::
    "(js_string \<Rightarrow> js_error + frame) \<Rightarrow> nat list ws_data \<Rightarrow> engine1 \<Rightarrow> engine1" where
  "handleMessage_r1 JSON_parse raw e =
     (let f = decode JSON_parse raw
      in case (if ftype f = Some (str ''res'')
               then (case fid f of Some u \<Rightarrow> map_option (Pair u) (map_of (pendingRequests e) u)
                     | None \<Rightarrow> None)
               else None) of
           Some (u, en) \<Rightarrow>
             (let e1 = clearTimeout (timeout en) e;
                  e2 = e1\<lparr>pendingRequests := map_delete u (pendingRequests e1)\<rparr>
              in case kind en of
                   Request \<Rightarrow> resolve_promise u f e2
                 | Handshake s \<Rightarrow> handshake_resolve s f e2)
         | None \<Rightarrow>
             if ftype f = Some (str ''event'')
             then publish (str ''*'') f (publish (or_empty (fevent f)) f e)
             else e)"

definition connect_r1 :: "(js_string \<Rightarrow> js_string option) \<Rightarrow> settings \<Rightarrow> engine1 \<Rightarrow> engine1" where
  "connect_r1 websocket_error s e =
     (let e1 = setState CONNECTING None (cleanup_r1 e)
      in case websocket_error (gatewayUrl s) of
           Some msg \<Rightarrow> setState DISCONNECTED (Some msg) e1
         | None \<Rightarrow>
             e1\<lparr>ws := Some \<lparr>readyState = WS_CONNECTING, url = gatewayUrl s, captured = s,
                             sent = []\<rparr>\<rparr>)"

definition ws_onopen_r1 :: "settings \<Rightarrow> engine1 \<Rightarrow> engine1" where
  "ws_onopen_r1 s e =
     (let (f, e1) = buildConnect (authToken s) e;
          (h, e2) = setTimeout (HandshakeTimeout (req_id f)) 10000 e1;
          e3 = e2\<lparr>pendingRequests :=
                  map_set (req_id f) \<lparr>kind = Handshake s, timeout = h\<rparr> (pendingRequests e2)\<rparr>
      in snd (send f e3))"

text \<open>The callback of the handshake's timeout.\<close>

definition handshake_timeout :: "nat \<Rightarrow> engine1 \<Rightarrow> engine1" where
  "handshake_timeout u e =
     cleanup_r1 (setState DISCONNECTED (Some (str ''Handshake timeout''))
       (e\<lparr>pendingRequests := map_delete u (pendingRequests e)\<rparr>))"

definition ws_onclose_r1 :: "real \<Rightarrow> settings \<Rightarrow> engine1 \<Rightarrow> engine1" where
  "ws_onclose_r1 r s e =
     (let wasConnected = (conn e = CONNECTED);
          e1 = cleanup_r1 e
      in if wasConnected \<or> conn e1 = CONNECTING then scheduleReconnect r s e1
         else setState DISCONNECTED None e1)"

definition disconnect_r1 :: "engine1 \<Rightarrow> engine1" where
  "disconnect_r1 e = setState DISCONNECTED None (cleanup_r1 e)"

definition sendMessage_r1 :: "js_string \<Rightarrow> engine1 \<Rightarrow> nat \<times> engine1" where
  "sendMessage_r1 txt e =
     (let sk = getSessionKey_r1 (agentId (settings (mem (store e))));
          (k, e1) = randomUUID e
      in request (str ''chat.send'') (ChatParams sk txt k) e1)"

definition fire_r1 :: "(js_string \<Rightarrow> js_string option) \<Rightarrow> nat \<Rightarrow> engine1 \<Rightarrow> engine1" where
  "fire_r1 websocket_error h e =
     (case timers e h of
        None \<Rightarrow> e
      | Some t \<Rightarrow>
          (case callback t of
             Heartbeat \<Rightarrow> heartbeat_tick_r1 e
           | Reconnect s \<Rightarrow> connect_r1 websocket_error s (clearTimeout h e)
           | ConnectDelay \<Rightarrow> clearTimeout h e
           | RequestTimeout u m \<Rightarrow> request_timeout u m (clearTimeout h e)
           | HandshakeTimeout u \<Rightarrow> handshake_timeout u (clearTimeout h e)))"

definition step_r1 :: "env \<Rightarrow> occasion \<Rightarrow> event \<Rightarrow> engine1 \<Rightarrow> engine1" where
  "step_r1 env oc ev e =
     (case ev of
        Connect s \<Rightarrow> connect_r1 (env_websocket_error env) s e
      | IdentityLoaded s ident \<Rightarrow> e
      | SocketOpen \<Rightarrow>
          (case ws e of
             Some k \<Rightarrow>
               if readyState k = WS_CONNECTING
               then ws_onopen_r1 (captured k) (e\<lparr>ws := Some (k\<lparr>readyState := WS_OPEN\<rparr>)\<rparr>)
               else e
           | None \<Rightarrow> e)
      | SocketMessage raw \<Rightarrow>
          (case ws e of
             Some k \<Rightarrow>
               if readyState k = WS_OPEN then handleMessage_r1 (env_JSON_parse env) raw e else e
           | None \<Rightarrow> e)
      | SocketClose \<Rightarrow>
          (case ws e of
             Some k \<Rightarrow>
               ws_onclose_r1 (rnd oc) (captured k) (e\<lparr>ws := Some (k\<lparr>readyState := WS_CLOSED\<rparr>)\<rparr>)
           | None \<Rightarrow> e)
      | TimerFires h \<Rightarrow> fire_r1 (env_websocket_error env) h e
      | Signed \<Rightarrow> e
      | SignFailed \<Rightarrow> e
      | Disconnect \<Rightarrow> disconnect_r1 e
      | SendMessage txt \<Rightarrow> snd (sendMessage_r1 txt e))"

definition initial_r1 :: "store \<Rightarrow> engine1" where
  "initial_r1 st =
     \<lparr>ws = None, heartbeatTimer = None, reconnectTimer = None, reconnectAttempt = 0,
      store = st, timers = Map.empty, next_timer = 0, next_uuid = 0, emitted = [],
      pendingRequests = [], promises = Map.empty\<rparr>"


text \<open>
  The invariant of the first revision. Every armed timer is one the engine still holds:
  the heartbeat interval is the one in \<open>heartbeatTimer\<close>, a reconnect timer the one in
  \<open>reconnectTimer\<close>, and a request or handshake timeout belongs to the entry of its
  request in the pending table. And every key of the table is an id already handed out.
\<close>

definition keys_used :: "engine1 \<Rightarrow> bool" where
  "keys_used e = list_all (\<lambda>x. fst x < next_uuid e) (pendingRequests e)"

definition justifies ::
    "nat option \<Rightarrow> nat option \<Rightarrow> (nat \<rightharpoonup> entry) \<Rightarrow> nat \<Rightarrow> callback \<Rightarrow> bool" where
  "justifies hb rt tbl h cb =
     (case cb of
        Heartbeat \<Rightarrow> hb = Some h
      | Reconnect s \<Rightarrow> rt = Some h
      | ConnectDelay \<Rightarrow> False
      | RequestTimeout u m \<Rightarrow> (case tbl u of Some en \<Rightarrow> timeout en = h | None \<Rightarrow> False)
      | HandshakeTimeout u \<Rightarrow> (case tbl u of Some en \<Rightarrow> timeout en = h | None \<Rightarrow> False))"

definition justified :: "engine1 \<Rightarrow> bool" where
  "justified e =
     (\<forall>h t. timers e h = Some t \<longrightarrow>
        justifies (heartbeatTimer e) (reconnectTimer e) (map_of (pendingRequests e)) h (callback t))"

definition inv1 :: "engine1 \<Rightarrow> bool" where
  "inv1 e = (justified e \<and> keys_used e)"

fun run_events_r1 :: "env \<Rightarrow> (occasion \<times> event) list \<Rightarrow> engine1 \<Rightarrow> engine1" where
  "run_events_r1 env [] e = e"
| "run_events_r1 env ((oc, ev) # rest) e = run_events_r1 env rest (step_r1 env oc ev e)"

text \<open>The method and parameters of the request that \<open>flushQueue\<close> sends for an item.\<close>

definition chat_of :: "js_string \<Rightarrow> queue_item \<Rightarrow> js_string \<times> params" where
  "chat_of sk i = (str ''chat.send'', ChatParams sk (q_text i) (idempotencyKey i))"

section \<open>Concrete values for the witnesses\<close>

definition example_store :: store where
  "example_store = \<lparr>mem = defaultState (str ''dev''),
                    disk = \<lparr>forge_state = None, forge_device_id = Some (str ''dev'')\<rparr>\<rparr>"

definition example_settings :: settings where
  "example_settings = \<lparr>gatewayUrl = str ''wss://gw'', authToken = str ''tok'', agentId = str ''main''\<rparr>"

definition challenge_frame :: frame where
  "challenge_frame = no_fields\<lparr>ftype := Some (str ''event''),
     fevent := Some (str ''connect.challenge''), fnonce := Some (str ''n0'')\<rparr>"

definition example_env :: "frame \<Rightarrow> env" where
  "example_env f = \<lparr>env_JSON_parse = (\<lambda>s. Inr f), env_sign = (\<lambda>k p. k @ p),
     env_encodeURIComponent = (\<lambda>s. s), env_websocket_error = (\<lambda>u. None)\<rparr>"

definition example_identity :: identity where
  "example_identity = \<lparr>ident_id = str ''d1'', publicKeyRaw = str ''pk'', privateKey = str ''sk''\<rparr>"

definition example_occasion :: occasion where
  "example_occasion = \<lparr>now = 1700000000000, rnd = 1 / 2\<rparr>"

definition accept_frame :: frame where
  "accept_frame = no_fields\<lparr>ftype := Some (str ''res''), fid := Some 0\<rparr>"

definition failed_once :: engine3 where
  "failed_once = run_events (example_env accept_frame)
     [(example_occasion, Connect example_settings),
      (example_occasion, IdentityLoaded example_settings None),
      (example_occasion, SocketOpen),
      (example_occasion, SocketClose)] (initial example_store)"

definition retrying :: engine3 where
  "retrying = run_events (example_env accept_frame)
     [(example_occasion, TimerFires 1),
      (example_occasion, IdentityLoaded example_settings None),
      (example_occasion, SocketOpen),
      (example_occasion, TimerFires 2)] failed_once"

definition example_item :: queue_item where
  "example_item = \<lparr>taskId = Some (Num 1), q_text = str ''Task 1 completed: Review PR'', idempotencyKey = 41\<rparr>"


definition not_paired_frame :: frame where
  "not_paired_frame = no_fields\<lparr>ftype := Some (str ''res''), fid := Some 0,
     ferror := Some \<lparr>code = Some (str ''NOT_PAIRED''), message = Some (str ''pairing required'')\<rparr>\<rparr>"

definition denied_frame :: frame where
  "denied_frame = no_fields\<lparr>ftype := Some (str ''res''), fid := Some 0,
     ferror := Some \<lparr>code = Some (str ''AUTH_FAILED''), message = Some (str ''bad token'')\<rparr>\<rparr>"

definition response_frame :: frame where
  "response_frame = no_fields\<lparr>ftype := Some (str ''res''), fid := Some 1, fresult := True\<rparr>"

definition connected_r1 :: engine1 where
  "connected_r1 = run_events_r1 (example_env response_frame)
     [(example_occasion, Connect example_settings), (example_occasion, SocketOpen)]
     (initial_r1 example_store)"

definition flushed :: engine3 where
  "flushed = run_events (example_env accept_frame)
     [(example_occasion, Connect example_settings),
      (example_occasion, IdentityLoaded example_settings None),
      (example_occasion, SocketOpen),
      (example_occasion, TimerFires 0),
      (example_occasion, SocketMessage (Text []))]
     (initial (enqueue example_item example_store))"

definition queued :: engine3 where
  "queued = retrying\<lparr>store := enqueue example_item (store retrying)\<rparr>"

definition queued_r1 :: engine1 where
  "queued_r1 = connected_r1\<lparr>store := enqueue example_item (store connected_r1)\<rparr>"



text \<open>A connection that has been accepted, and two failures in a row after it.\<close>

definition established :: engine3 where
  "established = run_events (example_env accept_frame)
     [(example_occasion, Connect example_settings),
      (example_occasion, IdentityLoaded example_settings None),
      (example_occasion, SocketOpen),
      (example_occasion, TimerFires 0),
      (example_occasion, SocketMessage (Text []))]
     (initial example_store)"

definition outage :: "(occasion \<times> event) list" where
  "outage =
     [(example_occasion, SocketClose),
      (example_occasion, TimerFires 2),
      (example_occasion, IdentityLoaded example_settings None),
      (example_occasion, SocketClose)]"

text \<open>
  A first attempt left at its challenge, with the signature still awaited, and a second
  attempt begun and its socket open.
\<close>

definition interrupted :: engine3 where
  "interrupted = run_events (example_env challenge_frame)
     [(example_occasion, Connect example_settings),
      (example_occasion, IdentityLoaded example_settings (Some example_identity)),
      (example_occasion, SocketOpen),
      (example_occasion, SocketMessage (Text [])),
      (example_occasion, Connect example_settings),
      (example_occasion, IdentityLoaded example_settings (Some example_identity)),
      (example_occasion, SocketOpen)]
     (initial example_store)"

text \<open>An attempt with its socket open and nothing sent.\<close>

definition opened :: engine3 where
  "opened = run_events (example_env challenge_frame)
     [(example_occasion, Connect example_settings),
      (example_occasion, IdentityLoaded example_settings (Some example_identity)),
      (example_occasion, SocketOpen)]
     (initial example_store)"

section \<open>Properties of the parser and the accumulator\<close>

lemmas parser_eval =
  is_space_def is_digit_def is_line_terminator_def canon_def lit_def units_def sep_def
  colon_or_space_def STATS_PATTERN_def TASK_LINE_PATTERN_def markers_def done1_def done2_def
  pieces_def str_def parseTaskMessage_def match_def group_def parseInt_def trim_def
  strip_commas_def Let_def

lemma task_items_no_match:
  "list_all (\<lambda>l. match False TASK_LINE_PATTERN l = None) ls \<Longrightarrow> task_items ls = []"
  by (induction ls) auto

text \<open>
  C6. The buffer that holds the stats line
  \<^verbatim>\<open>Day 42 | Streak: 5 | Hearts: 3 | XP: 1,250 | Level: 7\<close> followed by the task lines
  \<^verbatim>\<open>1. [x] Review PR\<close> and \<^verbatim>\<open>2. [ ] Write tests\<close> (one line each) parses to day 42, the
  stats 5, 3, 1250 and 7, and the two items in order, the first completed and the second
  not; the comma of \<^verbatim>\<open>1,250\<close> is removed before the number is read.
\<close>

theorem parse_example:
  "fst (parse (append_delta
      (str ''Day 42 | Streak: 5 | Hearts: 3 | XP: 1,250 | Level: 7'' @ [10] @
       str ''1. [x] Review PR'' @ [10] @ str ''2. [ ] Write tests'')
      createDeltaAccumulator)) =
   Some \<lparr>day = Some (Num 42),
         stats = Some \<lparr>streak = Num 5, hearts = Num 3, xp = Num 1250, level = Num 7\<rparr>,
         items = [\<lparr>item_id = Num 1, item_text = str ''Review PR'', completed = True\<rparr>,
                  \<lparr>item_id = Num 2, item_text = str ''Write tests'', completed = False\<rparr>]\<rparr>"
  by (simp add: parse_def append_delta_def createDeltaAccumulator_def parser_eval)

text \<open>
  C7. Appending \<open>a\<close> and then \<open>b\<close> gives the same parse result as appending \<open>a @ b\<close>
  at once; \<open>parse\<close> leaves the accumulator as it found it, so any number of calls
  returns the same result on the same buffer; and when the buffer matches neither the
  stats pattern nor, on any of its lines, the task pattern, the result is \<open>null\<close>
  (the value \<open>None\<close>, not an exception: every operation \<open>parse\<close> uses is total on strings).
\<close>

theorem parse_reassembly:
  "fst (parse (append_delta b (append_delta a acc))) = fst (parse (append_delta (a @ b) acc))
   \<and> snd (parse acc) = acc
   \<and> ((\<lambda>x. snd (parse x)) ^^ n) acc = acc
   \<and> fst (parse (((\<lambda>x. snd (parse x)) ^^ n) acc)) = fst (parse acc)
   \<and> (match True STATS_PATTERN (buffer acc) = None
        \<and> list_all (\<lambda>l. match False TASK_LINE_PATTERN l = None) (split_lines (buffer acc))
       \<longrightarrow> fst (parse acc) = None)"
proof -
  have same: "snd (parse x) = x" for x
    by (simp add: parse_def)
  have iter: "((\<lambda>x. snd (parse x)) ^^ n) acc = acc"
    by (induction n) (simp_all add: same)
  have nodata: "fst (parse acc) = None"
    if "match True STATS_PATTERN (buffer acc) = None"
      and "list_all (\<lambda>l. match False TASK_LINE_PATTERN l = None) (split_lines (buffer acc))"
    using that task_items_no_match [OF that(2)]
    by (simp add: parse_def parseTaskMessage_def)
  show ?thesis
    using iter nodata by (simp add: same append_delta_def parse_def)
qed

theorem parse_reassembly_witness:
  "match True STATS_PATTERN (str ''Day 4'') = None
   \<and> list_all (\<lambda>l. match False TASK_LINE_PATTERN l = None) (split_lines (str ''Day 4''))
   \<and> fst (parse \<lparr>buffer = str ''Day 4''\<rparr>) = None
   \<and> fst (parse (append_delta (str ''2 | Str'')
         (append_delta (str ''Day 4'') createDeltaAccumulator))) =
       fst (parse (append_delta (str ''Day 42 | Str'') createDeltaAccumulator))"
proof -
  have m: "match True STATS_PATTERN (str ''Day 4'') = None"
    by (simp add: parser_eval)
  have l: "list_all (\<lambda>l. match False TASK_LINE_PATTERN l = None) (split_lines (str ''Day 4''))"
    by (simp add: parser_eval)
  have s: "str ''Day 4'' @ str ''2 | Str'' = str ''Day 42 | Str''"
    by (simp add: str_def)
  show ?thesis
    using m l s
      parse_reassembly [of "str ''2 | Str''" "str ''Day 4''" createDeltaAccumulator 0]
      parse_reassembly [of "[]" "[]" "\<lparr>buffer = str ''Day 4''\<rparr>" 0]
    by simp
qed

section \<open>Properties of the third revision of the engine\<close>

lemmas base_defs = setState_def store_update_connection_def conn_def stopHeartbeat_def
  clearTimeout_def setTimeout_def randomUUID_def send_def publish_def scheduleReconnect_def

lemma conn_update [simp]:
  "conn (e\<lparr>ws := x1\<rparr>) = conn e"
  "conn (e\<lparr>heartbeatTimer := x2\<rparr>) = conn e"
  "conn (e\<lparr>reconnectTimer := x3\<rparr>) = conn e"
  "conn (e\<lparr>reconnectAttempt := x4\<rparr>) = conn e"
  "conn (e\<lparr>timers := x5\<rparr>) = conn e"
  "conn (e\<lparr>next_timer := x6\<rparr>) = conn e"
  "conn (e\<lparr>next_uuid := x7\<rparr>) = conn e"
  "conn (e\<lparr>emitted := x8\<rparr>) = conn e"
  "conn (e3\<lparr>connectTimer := y1\<rparr>) = conn e3"
  "conn (e3\<lparr>authenticated := y2\<rparr>) = conn e3"
  "conn (e3\<lparr>connectSent := y3\<rparr>) = conn e3"
  "conn (e3\<lparr>currentAuthToken := y4\<rparr>) = conn e3"
  "conn (e3\<lparr>connectId := y5\<rparr>) = conn e3"
  "conn (e3\<lparr>challengeNonce := y6\<rparr>) = conn e3"
  "conn (e3\<lparr>deviceIdentity := y7\<rparr>) = conn e3"
  "conn (e3\<lparr>signing := y8\<rparr>) = conn e3"
  "conn (e3\<lparr>lastTick := y9\<rparr>) = conn e3"
  "conn (e3\<lparr>tick_handler := y10\<rparr>) = conn e3"
  by (simp_all add: conn_def)

lemma conn_flush_loop [simp]: "conn (flush_loop sk q e) = conn e"
  by (induction q arbitrary: e)
     (auto simp: conn_def randomUUID_def send_def dequeue_def Let_def split: option.splits prod.splits)

lemma attempt_flush_loop [simp]: "reconnectAttempt (flush_loop sk q e) = reconnectAttempt e"
  by (induction q arbitrary: e)
     (auto simp: randomUUID_def send_def dequeue_def Let_def split: option.splits prod.splits)

lemma conn_sendConnect [simp]: "conn (sendConnect env oc e) = conn e"
  by (simp add: sendConnect_def sendConnect_finish_def buildConnectRequest_def base_defs Let_def
      split: option.splits prod.splits)

lemma attempt_sendConnect [simp]: "reconnectAttempt (sendConnect env oc e) = reconnectAttempt e"
  by (simp add: sendConnect_def sendConnect_finish_def buildConnectRequest_def base_defs Let_def
      split: option.splits prod.splits)

lemma conn_cleanup [simp]: "conn (cleanup e) = conn e"
  by (simp add: cleanup_def base_defs Let_def split: option.splits)

lemma attempt_cleanup [simp]: "reconnectAttempt (cleanup e) = reconnectAttempt e"
  by (simp add: cleanup_def base_defs Let_def split: option.splits)

lemma conn_setState [simp]: "conn (setState c err e) = c"
  by (simp add: base_defs Let_def)

lemma attempt_setState [simp]: "reconnectAttempt (setState c err e) = reconnectAttempt e"
  by (simp add: base_defs Let_def)

lemma conn_clearTimeout [simp]: "conn (clearTimeout h e) = conn e"
  by (simp add: clearTimeout_def)

lemma attempt_clearTimeout [simp]: "reconnectAttempt (clearTimeout h e) = reconnectAttempt e"
  by (simp add: clearTimeout_def)


lemma conn_emit [simp]: "conn (emit oc ev f e) = conn e"
  by (simp add: emit_def base_defs Let_def)

lemma attempt_emit [simp]: "reconnectAttempt (emit oc ev f e) = reconnectAttempt e"
  by (simp add: emit_def base_defs Let_def)

lemma conn_flushQueue [simp]: "conn (flushQueue s e) = conn e"
  by (simp add: flushQueue_def Let_def)

lemma attempt_flushQueue [simp]: "reconnectAttempt (flushQueue s e) = reconnectAttempt e"
  by (simp add: flushQueue_def Let_def)

lemma conn_startHeartbeat [simp]: "conn (startHeartbeat oc e) = conn e"
  by (simp add: startHeartbeat_def base_defs Let_def split: option.splits prod.splits)

lemma attempt_startHeartbeat [simp]: "reconnectAttempt (startHeartbeat oc e) = reconnectAttempt e"
  by (simp add: startHeartbeat_def base_defs Let_def split: option.splits prod.splits)

lemma conn_scheduleReconnect [simp]: "conn (scheduleReconnect r s e) = RECONNECTING"
  by (simp add: base_defs Let_def split: prod.splits)

lemma conn_sendConnect_resume [simp]: "conn (sendConnect_resume e) = conn e"
  by (simp add: sendConnect_resume_def sendConnect_finish_def buildConnectRequest_def base_defs Let_def
      split: option.splits prod.splits list.splits)

lemma attempt_sendConnect_resume [simp]:
  "reconnectAttempt (sendConnect_resume e) = reconnectAttempt e"
  by (simp add: sendConnect_resume_def sendConnect_finish_def buildConnectRequest_def base_defs Let_def
      split: option.splits prod.splits list.splits)

lemma attempt_sendMessage [simp]: "reconnectAttempt (snd (sendMessage t e)) = reconnectAttempt e"
  by (simp add: sendMessage_def base_defs Let_def split: option.splits prod.splits)

lemma conn_sendMessage [simp]: "conn (snd (sendMessage t e)) = conn e"
  by (simp add: sendMessage_def base_defs Let_def split: option.splits prod.splits)

lemma res_not_event: "str ''res'' \<noteq> str ''event''"
  by (simp add: str_def)

lemma handleMessage_challenge:
  assumes "ftype (decode (env_JSON_parse env) raw) = Some (str ''event'')"
    and "fevent (decode (env_JSON_parse env) raw) = Some (str ''connect.challenge'')"
  shows "handleMessage env oc raw s e =
    sendConnect env oc (e\<lparr>challengeNonce := nonempty (fnonce (decode (env_JSON_parse env) raw))\<rparr>)"
  using assms by (simp add: handleMessage_def Let_def)

lemma id_matches_Some: "fid f = Some i \<Longrightarrow> id_matches f (Some i)"
  by (simp add: id_matches_def)

lemma handleMessage_matched:
  assumes "ftype (decode (env_JSON_parse env) raw) = Some (str ''res'')"
    and "id_matches (decode (env_JSON_parse env) raw) (connectId e)"
    and "fok (decode (env_JSON_parse env) raw) \<noteq> Some False"
    and "ferror (decode (env_JSON_parse env) raw) = None"
  shows "handleMessage env oc raw s e =
    emit oc (str ''connected'') (decode (env_JSON_parse env) raw)
      (flushQueue s (startHeartbeat oc (setState CONNECTED None
         (e\<lparr>authenticated := True, reconnectAttempt := 0\<rparr>))))"
  using assms by (simp add: handleMessage_def Let_def res_not_event)

lemma handleMessage_accept:
  assumes "ftype (decode (env_JSON_parse env) raw) = Some (str ''res'')"
    and "fid (decode (env_JSON_parse env) raw) = Some i" and "connectId e = Some i"
    and "fok (decode (env_JSON_parse env) raw) \<noteq> Some False"
    and "ferror (decode (env_JSON_parse env) raw) = None"
  shows "handleMessage env oc raw s e =
    emit oc (str ''connected'') (decode (env_JSON_parse env) raw)
      (flushQueue s (startHeartbeat oc (setState CONNECTED None
         (e\<lparr>authenticated := True, reconnectAttempt := 0\<rparr>))))"
  using assms by (intro handleMessage_matched) (simp_all add: id_matches_def)

lemma handleMessage_refused:
  assumes "ftype (decode (env_JSON_parse env) raw) = Some (str ''res'')"
    and "id_matches (decode (env_JSON_parse env) raw) (connectId e)"
    and "fok (decode (env_JSON_parse env) raw) = Some False
         \<or> ferror (decode (env_JSON_parse env) raw) \<noteq> None"
  shows "(conn (handleMessage env oc raw s e) = PAIRING
          \<or> conn (handleMessage env oc raw s e) = DISCONNECTED)
         \<and> reconnectAttempt (handleMessage env oc raw s e) = reconnectAttempt e"
  using assms by (auto simp add: handleMessage_def Let_def res_not_event)

lemma handleMessage_reject:
  assumes "ftype (decode (env_JSON_parse env) raw) = Some (str ''res'')"
    and "fid (decode (env_JSON_parse env) raw) = Some i" and "connectId e = Some i"
    and "fok (decode (env_JSON_parse env) raw) = Some False
         \<or> ferror (decode (env_JSON_parse env) raw) \<noteq> None"
  shows "conn (handleMessage env oc raw s e) = PAIRING
         \<or> conn (handleMessage env oc raw s e) = DISCONNECTED"
proof -
  from assms(2,3) have "id_matches (decode (env_JSON_parse env) raw) (connectId e)"
    by (simp add: id_matches_def)
  from handleMessage_refused [OF assms(1) this assms(4)] show ?thesis
    by simp
qed

lemma handleMessage_other:
  assumes "\<not> (ftype (decode (env_JSON_parse env) raw) = Some (str ''event'')
              \<and> fevent (decode (env_JSON_parse env) raw) = Some (str ''connect.challenge''))"
    and "\<not> (ftype (decode (env_JSON_parse env) raw) = Some (str ''res'')
              \<and> id_matches (decode (env_JSON_parse env) raw) (connectId e))"
  shows "conn (handleMessage env oc raw s e) = conn e"
    and "reconnectAttempt (handleMessage env oc raw s e) = reconnectAttempt e"
  unfolding handleMessage_def Let_def
  by (simp_all only: assms if_False) simp_all

text \<open>A message leaves the counter alone unless it is the accepted response.\<close>

lemma handleMessage_conn:
  "reconnectAttempt (handleMessage env oc raw s e) = reconnectAttempt e
     \<and> (conn (handleMessage env oc raw s e) = conn e
        \<or> conn (handleMessage env oc raw s e) = PAIRING
        \<or> conn (handleMessage env oc raw s e) = DISCONNECTED)
   \<or> conn (handleMessage env oc raw s e) = CONNECTED
     \<and> reconnectAttempt (handleMessage env oc raw s e) = 0"
proof -
  let ?f = "decode (env_JSON_parse env) raw"
  show ?thesis
  proof (cases "ftype ?f = Some (str ''event'') \<and> fevent ?f = Some (str ''connect.challenge'')")
    case True
    then show ?thesis by (simp add: handleMessage_challenge)
  next
    case no_challenge: False
    show ?thesis
    proof (cases "ftype ?f = Some (str ''res'') \<and> id_matches ?f (connectId e)")
      case True
      then have r: "ftype ?f = Some (str ''res'')" "id_matches ?f (connectId e)"
        by simp_all
      show ?thesis
      proof (cases "fok ?f \<noteq> Some False \<and> ferror ?f = None")
        case True
        with r show ?thesis by (simp add: handleMessage_matched)
      next
        case False
        then have "fok ?f = Some False \<or> ferror ?f \<noteq> None" by auto
        from handleMessage_refused [OF r this, of oc s] show ?thesis by auto
      qed
    next
      case False
      from handleMessage_other [OF no_challenge this, of oc s] show ?thesis by simp
    qed
  qed
qed


lemma attempt_scheduleReconnect [simp]:
  "reconnectAttempt (scheduleReconnect r s e) = Suc (reconnectAttempt e)"
  by (simp add: base_defs Let_def split: prod.splits)

lemma scheduleReconnect_timer:
  "\<exists>h. reconnectTimer (scheduleReconnect r s e) = Some h
     \<and> timers (scheduleReconnect r s e) h =
         Some \<lparr>delay = getReconnectDelay r (reconnectAttempt e), callback = Reconnect s\<rparr>"
  by (simp add: base_defs Let_def split: prod.splits)

lemma attempt_sendConnect_rejected [simp]:
  "reconnectAttempt (sendConnect_rejected e) = reconnectAttempt e"
  by (simp add: sendConnect_rejected_def split: list.splits)

lemma conn_sendConnect_rejected [simp]: "conn (sendConnect_rejected e) = conn e"
  by (simp add: sendConnect_rejected_def split: list.splits)

lemma rescheduled_scheduleReconnect:
  assumes "reconnectAttempt e1 = reconnectAttempt e"
  shows "rescheduled oc e (scheduleReconnect (rnd oc) s e1)"
  using assms by (simp add: rescheduled_def base_defs Let_def split: prod.splits)

lemma step_attempt:
  "reconnectAttempt (step env oc ev e) = reconnectAttempt e
     \<and> (conn (step env oc ev e) = CONNECTED \<longrightarrow> conn e = CONNECTED)
     \<and> (conn (step env oc ev e) = RECONNECTING \<longrightarrow> conn e = RECONNECTING)
   \<or> reconnectAttempt (step env oc ev e) = 0 \<and> conn (step env oc ev e) = CONNECTED
   \<or> rescheduled oc e (step env oc ev e)"
proof (cases ev)
  case (SocketMessage raw)
  show ?thesis
  proof (cases "ws e")
    case None
    with SocketMessage show ?thesis by (simp add: step_def)
  next
    case (Some k)
    with SocketMessage handleMessage_conn [of env oc raw "captured k" e] show ?thesis
      by (cases "readyState k = WS_OPEN") (auto simp: step_def)
  qed
next
  case SocketClose
  show ?thesis
  proof (cases "ws e")
    case None
    with SocketClose show ?thesis by (simp add: step_def)
  next
    case (Some k)
    let ?e1 = "cleanup (e\<lparr>ws := Some (k\<lparr>readyState := WS_CLOSED\<rparr>)\<rparr>)"
    have a: "reconnectAttempt ?e1 = reconnectAttempt e"
      by simp
    from rescheduled_scheduleReconnect [OF a, of oc "captured k"] SocketClose Some show ?thesis
      by (auto simp: step_def ws_onclose_def Let_def)
  qed
next
  case (TimerFires h)
  show ?thesis
  proof (cases "timers e h")
    case None
    with TimerFires show ?thesis by (simp add: step_def fire_def)
  next
    case (Some t)
    have a: "reconnectAttempt (cleanup e) = reconnectAttempt e"
      by simp
    from rescheduled_scheduleReconnect [OF a, of oc "settings (mem (store e))"] TimerFires Some
    show ?thesis
      by (cases "callback t") (auto simp: step_def fire_def heartbeat_tick_def connect_def)
  qed
qed (auto simp: step_def connect_def connect_resume_def ws_onopen_def disconnect_def
        setTimeout_def Let_def split: option.splits prod.splits)

lemma step_conn:
  "conn (step env oc ev e) = conn e \<and> reconnectAttempt (step env oc ev e) = reconnectAttempt e
   \<or> conn (step env oc ev e) = CONNECTED \<and> reconnectAttempt (step env oc ev e) = 0
   \<or> conn (step env oc ev e) = RECONNECTING
     \<and> reconnectAttempt (step env oc ev e) = Suc (reconnectAttempt e)
   \<or> conn (step env oc ev e) = PAIRING
   \<or> conn (step env oc ev e) = DISCONNECTED
   \<or> conn (step env oc ev e) = CONNECTING"
  using step_attempt [of env oc ev e]
  by (cases "conn (step env oc ev e)"; cases "conn e") (auto simp: rescheduled_def)

lemma backoff_small:
  assumes "RECONNECT_BASE * 2 ^ n < RECONNECT_CAP"
  shows "n < 5"
proof (rule ccontr)
  assume "\<not> n < 5"
  then have "(2::real) ^ 5 \<le> 2 ^ n"
    by (intro power_increasing) auto
  with assms show False
    by (simp add: RECONNECT_BASE_def RECONNECT_CAP_def)
qed

lemma delay_monotone:
  assumes "0 \<le> r" "r < 1" "0 \<le> r'" "RECONNECT_BASE * 2 ^ n < RECONNECT_CAP"
  shows "getReconnectDelay r n \<le> getReconnectDelay r' (Suc n)"
proof -
  from backoff_small [OF assms(4)] have "n = 0 \<or> n = 1 \<or> n = 2 \<or> n = 3 \<or> n = 4"
    by arith
  moreover have "0 \<le> 300 * r'" "0 \<le> 600 * r'" "0 \<le> 1200 * r'" "0 \<le> 2400 * r'" "0 \<le> 4800 * r'" "0 \<le> 9000 * r'"
    using assms by simp_all
  ultimately show ?thesis
    using assms
    by (auto simp: getReconnectDelay_def RECONNECT_BASE_def RECONNECT_CAP_def Let_def)
qed

lemma backoff_bounds:
  assumes "0 \<le> r" "r < 1"
  shows "min (RECONNECT_BASE * 2 ^ n) RECONNECT_CAP \<le> getReconnectDelay r n"
    and "getReconnectDelay r n \<le> 1.3 * min (RECONNECT_BASE * 2 ^ n) RECONNECT_CAP"
proof -
  have b: "0 \<le> min (RECONNECT_BASE * 2 ^ n) RECONNECT_CAP"
    by (simp add: RECONNECT_BASE_def RECONNECT_CAP_def)
  then have "0 \<le> min (RECONNECT_BASE * 2 ^ n) RECONNECT_CAP * 0.3 * r"
    using assms by simp
  then show "min (RECONNECT_BASE * 2 ^ n) RECONNECT_CAP \<le> getReconnectDelay r n"
    by (simp add: getReconnectDelay_def Let_def)
  have "min (RECONNECT_BASE * 2 ^ n) RECONNECT_CAP * 0.3 * r
        \<le> min (RECONNECT_BASE * 2 ^ n) RECONNECT_CAP * 0.3 * 1"
    using b assms by (intro mult_left_mono) auto
  then show "getReconnectDelay r n \<le> 1.3 * min (RECONNECT_BASE * 2 ^ n) RECONNECT_CAP"
    by (simp add: getReconnectDelay_def Let_def)
qed

subsection \<open>The handshake sends one connect request\<close>

lemma sendConnect_fresh:
  assumes "fresh_attempt h e"
  shows "attempt_inv h (sendConnect env oc e)" and "connectSent (sendConnect env oc e)"
  using assms
  by (auto simp: fresh_attempt_def attempt_inv_def sendConnect_def sendConnect_finish_def
      buildConnectRequest_def connect_requests_def randomUUID_def send_def clearTimeout_def
      Let_def split: option.splits if_splits)

lemma sendConnect_again: "connectSent e \<Longrightarrow> sendConnect env oc e = e"
  by (simp add: sendConnect_def)

lemma sendConnect_resume_inv:
  assumes "attempt_inv h e"
  shows "attempt_inv h (sendConnect_resume e)" and "connectSent (sendConnect_resume e) = connectSent e"
  using assms
  by (auto simp: attempt_inv_def sendConnect_resume_def sendConnect_finish_def buildConnectRequest_def
      connect_requests_def randomUUID_def send_def Let_def
      split: option.splits if_splits list.splits)

lemma attempt_inv_nonce: "attempt_inv h (e\<lparr>challengeNonce := n\<rparr>) = attempt_inv h e"
  by (simp add: attempt_inv_def connect_requests_def)

lemma inv_fresh: "attempt_inv h e \<Longrightarrow> \<not> connectSent e \<Longrightarrow> fresh_attempt h e"
  by (simp add: attempt_inv_def fresh_attempt_def)

lemma fresh_nonce: "fresh_attempt h (e\<lparr>challengeNonce := n\<rparr>) = fresh_attempt h e"
  by (simp add: fresh_attempt_def connect_requests_def)

lemma fresh_clear: "fresh_attempt h (clearTimeout h' e) = fresh_attempt h e"
  by (simp add: fresh_attempt_def connect_requests_def clearTimeout_def)

lemma challenge_step:
  assumes "is_challenge env ev" "attempt_inv h e"
  shows "attempt_inv h (step env oc ev e) \<and> connectSent (step env oc ev e)"
proof -
  from assms(1) obtain raw where ev: "ev = SocketMessage raw"
    and f: "ftype (decode (env_JSON_parse env) raw) = Some (str ''event'')"
      "fevent (decode (env_JSON_parse env) raw) = Some (str ''connect.challenge'')"
    by (cases ev) (auto simp: is_challenge_def)
  from assms(2) obtain k where "ws e = Some k" "readyState k = WS_OPEN"
    by (auto simp: attempt_inv_def split: option.splits)
  then obtain n where st: "step env oc ev e = sendConnect env oc (e\<lparr>challengeNonce := n\<rparr>)"
    using handleMessage_challenge [OF f] by (auto simp: ev step_def)
  show ?thesis
  proof (cases "connectSent e")
    case True
    then have "sendConnect env oc (e\<lparr>challengeNonce := n\<rparr>) = e\<lparr>challengeNonce := n\<rparr>"
      by (simp add: sendConnect_again)
    with True assms(2) st show ?thesis
      by (simp add: attempt_inv_nonce)
  next
    case False
    with assms(2) have "fresh_attempt h (e\<lparr>challengeNonce := n\<rparr>)"
      by (simp add: inv_fresh fresh_nonce)
    from sendConnect_fresh [OF this] st show ?thesis
      by simp
  qed
qed

lemma timer_step:
  assumes "attempt_inv h e"
  shows "attempt_inv h (step env oc (TimerFires h) e)
    \<and> connectSent (step env oc (TimerFires h) e)"
proof (cases "connectSent e")
  case True
  with assms show ?thesis
    by (simp add: step_def fire_def attempt_inv_def)
next
  case False
  with assms obtain t where t: "timers e h = Some t" "callback t = ConnectDelay"
    by (auto simp: attempt_inv_def split: option.splits)
  then have st: "step env oc (TimerFires h) e = sendConnect env oc (clearTimeout h e)"
    by (simp add: step_def fire_def)
  from False assms have "fresh_attempt h (clearTimeout h e)"
    by (simp add: inv_fresh fresh_clear)
  from sendConnect_fresh [OF this] st show ?thesis
    by simp
qed

lemma handshake_step:
  assumes "attempt_inv h e" "handshake_event env h ev"
  shows "attempt_inv h (step env oc ev e)"
    and "connectSent e \<or> trigger env h ev \<Longrightarrow> connectSent (step env oc ev e)"
proof -
  consider "is_challenge env ev" | "ev = TimerFires h" | "ev = Signed" "\<not> trigger env h ev"
    using assms(2) by (auto simp: handshake_event_def trigger_def is_challenge_def)
  then have "attempt_inv h (step env oc ev e)
      \<and> (connectSent e \<or> trigger env h ev \<longrightarrow> connectSent (step env oc ev e))"
  proof cases
    case 1
    from challenge_step [OF this assms(1)] show ?thesis by simp
  next
    case 2
    with timer_step [OF assms(1)] show ?thesis by simp
  next
    case 3
    with sendConnect_resume_inv [OF assms(1)] show ?thesis by (simp add: step_def)
  qed
  then show "attempt_inv h (step env oc ev e)"
    and "connectSent e \<or> trigger env h ev \<Longrightarrow> connectSent (step env oc ev e)"
    by simp_all
qed

lemma handshake_run:
  assumes "attempt_inv h e" "list_all (\<lambda>x. handshake_event env h (snd x)) evs"
  shows "attempt_inv h (run_events env evs e)
    \<and> (connectSent e \<or> list_ex (\<lambda>x. trigger env h (snd x)) evs \<longrightarrow> connectSent (run_events env evs e))"
  using assms
proof (induction evs arbitrary: e)
  case Nil
  then show ?case by simp
next
  case (Cons x evs)
  obtain oc ev where x: "x = (oc, ev)" by (cases x)
  from Cons.prems x have ev: "handshake_event env h ev"
    and rest: "list_all (\<lambda>x. handshake_event env h (snd x)) evs"
    by simp_all
  from handshake_step [OF Cons.prems(1) ev]
  have i: "attempt_inv h (step env oc ev e)"
    and s: "connectSent e \<or> trigger env h ev \<Longrightarrow> connectSent (step env oc ev e)"
    by simp_all
  from Cons.IH [OF i rest] s show ?case
    by (auto simp: x)
qed

lemma attempt_begins:
  assumes "signing e = []"
    and "env_websocket_error env (buildAuthUrl env (gatewayUrl s) (authToken s)) = None"
  shows "attempt_inv (next_timer e)
           (step env oc SocketOpen (connect_resume env s ident (connect s e)))"
  using assms
  by (simp add: attempt_inv_def step_def connect_resume_def connect_def cleanup_def
      ws_onopen_def setTimeout_def clearTimeout_def stopHeartbeat_def setState_def
      connect_requests_def Let_def split: option.splits)


text \<open>
  The guard within one attempt. A connection attempt begins when \<open>connect\<close> has created
  the socket and the socket has opened. If no signature of an earlier attempt is still
  awaited then, whatever sequence of challenge events, firings of the send-delay timer
  and arrivals of the signature follows, in any order and number, at most one \<open>connect\<close>
  request is on the socket; and once a challenge or the timer has occurred and no
  signature is awaited any more, exactly one is.
\<close>

lemma guarded_attempt_sends_once:
  assumes "signing e = []"
    and "env_websocket_error env (buildAuthUrl env (gatewayUrl s) (authToken s)) = None"
    and "list_all (\<lambda>x. handshake_event env (next_timer e) (snd x)) evs"
  shows "length (connect_requests (run_events env evs
            (step env oc SocketOpen (connect_resume env s ident (connect s e))))) \<le> 1
    \<and> (list_ex (\<lambda>x. trigger env (next_timer e) (snd x)) evs
         \<and> signing (run_events env evs
              (step env oc SocketOpen (connect_resume env s ident (connect s e)))) = []
       \<longrightarrow> length (connect_requests (run_events env evs
              (step env oc SocketOpen (connect_resume env s ident (connect s e))))) = 1)"
proof -
  let ?e1 = "step env oc SocketOpen (connect_resume env s ident (connect s e))"
  have "attempt_inv (next_timer e) ?e1"
    using assms(1,2) by (rule attempt_begins)
  from handshake_run [OF this assms(3)]
  have inv: "attempt_inv (next_timer e) (run_events env evs ?e1)"
    and sent: "list_ex (\<lambda>x. trigger env (next_timer e) (snd x)) evs
      \<Longrightarrow> connectSent (run_events env evs ?e1)"
    by simp_all
  from inv have "length (connect_requests (run_events env evs ?e1)) \<le> 1"
    by (auto simp: attempt_inv_def split: if_splits)
  moreover have "length (connect_requests (run_events env evs ?e1)) = 1"
    if "list_ex (\<lambda>x. trigger env (next_timer e) (snd x)) evs"
      and "signing (run_events env evs ?e1) = []"
    using inv sent [OF that(1)] that(2) by (simp add: attempt_inv_def)
  ultimately show ?thesis by blast
qed

lemmas engine_eval = step_def fire_def connect_def connect_resume_def cleanup_def ws_onopen_def
  ws_onclose_def handleMessage_def sendConnect_def sendConnect_resume_def sendConnect_finish_def
  buildConnectRequest_def setTimeout_def clearTimeout_def stopHeartbeat_def setState_def
  randomUUID_def send_def decode_def parseFrame_def try_catch_def frame_fields_def no_fields_def
  nonempty_def truthy_def or_empty_def initial_def id_matches_def sendConnect_rejected_def
  json_tasks_def json_stats_def json_item_def json_queue_item_def json_number_def Let_def

lemma guarded_attempt_example:
  "signing (initial example_store) = []
   \<and> list_all (\<lambda>x. handshake_event (example_env challenge_frame) (next_timer (initial example_store)) (snd x))
        [(example_occasion, SocketMessage (Text [])), (example_occasion, TimerFires 0),
         (example_occasion, Signed), (example_occasion, SocketMessage (Text []))]
   \<and> length (connect_requests (run_events (example_env challenge_frame)
        [(example_occasion, SocketMessage (Text [])), (example_occasion, TimerFires 0),
         (example_occasion, Signed), (example_occasion, SocketMessage (Text []))]
        (step (example_env challenge_frame) example_occasion SocketOpen
          (connect_resume (example_env challenge_frame) example_settings (Some example_identity)
            (connect example_settings (initial example_store)))))) = 1"
proof -
  have a: "signing (initial example_store) = []"
    by (simp add: initial_def)
  have b: "env_websocket_error (example_env challenge_frame)
      (buildAuthUrl (example_env challenge_frame) (gatewayUrl example_settings)
        (authToken example_settings)) = None"
    by (simp add: example_env_def)
  have c: "list_all (\<lambda>x. handshake_event (example_env challenge_frame)
        (next_timer (initial example_store)) (snd x))
        [(example_occasion, SocketMessage (Text [])), (example_occasion, TimerFires 0),
         (example_occasion, Signed), (example_occasion, SocketMessage (Text []))]"
    by (simp add: handshake_event_def is_challenge_def example_env_def challenge_frame_def
        decode_def parseFrame_def try_catch_def frame_fields_def initial_def)
  have d: "list_ex (\<lambda>x. trigger (example_env challenge_frame)
        (next_timer (initial example_store)) (snd x))
        [(example_occasion, SocketMessage (Text [])), (example_occasion, TimerFires 0),
         (example_occasion, Signed), (example_occasion, SocketMessage (Text []))]"
    by (simp add: trigger_def initial_def)
  have e: "signing (run_events (example_env challenge_frame)
        [(example_occasion, SocketMessage (Text [])), (example_occasion, TimerFires 0),
         (example_occasion, Signed), (example_occasion, SocketMessage (Text []))]
        (step (example_env challenge_frame) example_occasion SocketOpen
          (connect_resume (example_env challenge_frame) example_settings (Some example_identity)
            (connect example_settings (initial example_store))))) = []"
    by (simp add: engine_eval example_env_def challenge_frame_def example_store_def
        example_settings_def example_identity_def example_occasion_def str_def)
  from guarded_attempt_sends_once [OF a b c, of example_occasion "Some example_identity"] a c d e
  show ?thesis by simp
qed

subsection \<open>Attempts that do not send exactly one connect request\<close>

lemma interrupted_eval:
  "connect_requests interrupted = [] \<and> length (signing interrupted) = 1
   \<and> connectSent interrupted = False \<and> connectTimer interrupted = Some 1"
  by (simp add: interrupted_def connect_requests_def engine_eval example_env_def
      challenge_frame_def example_store_def example_settings_def example_identity_def
      example_occasion_def str_def)

lemma opened_eval:
  "connect_requests opened = [] \<and> signing opened = [] \<and> connectTimer opened = Some 0"
  by (simp add: opened_def connect_requests_def engine_eval example_env_def
      challenge_frame_def example_store_def example_settings_def example_identity_def
      example_occasion_def str_def)

text \<open>
  C1. Exactly one \<open>connect\<close> request is sent on the socket in every connection attempt,
  whatever the interleaving of the challenge and the send-delay timer. The code does not
  keep to that. \<open>cleanup\<close> resets \<open>connectSent\<close> while a \<open>sendConnect\<close> of the attempt before
  may still wait for its signature: in the attempt that follows, that call and the
  attempt's own both send, so two requests are on the one socket, whether the challenge
  or the timer comes first. And when the awaited signature is rejected, the attempt has
  set \<open>connectSent\<close> and sends nothing, whatever challenge or timer follows.
\<close>

theorem connect_request_count_diverges:
  "connect_requests interrupted = []
   \<and> length (signing interrupted) = 1
   \<and> length (connect_requests (run_events (example_env challenge_frame)
        [(example_occasion, SocketMessage (Text [])),
         (example_occasion, Signed),
         (example_occasion, Signed)] interrupted)) = 2
   \<and> length (connect_requests (run_events (example_env challenge_frame)
        [(example_occasion, TimerFires 1),
         (example_occasion, Signed),
         (example_occasion, Signed)] interrupted)) = 2
   \<and> connect_requests opened = []
   \<and> signing opened = []
   \<and> connect_requests (run_events (example_env challenge_frame)
        [(example_occasion, SocketMessage (Text [])),
         (example_occasion, SignFailed),
         (example_occasion, TimerFires 0),
         (example_occasion, SocketMessage (Text []))] opened) = []
   \<and> connectSent (run_events (example_env challenge_frame)
        [(example_occasion, SocketMessage (Text [])),
         (example_occasion, SignFailed),
         (example_occasion, TimerFires 0),
         (example_occasion, SocketMessage (Text []))] opened) = True"
proof -
  have by_challenge:
    "length (connect_requests (run_events (example_env challenge_frame)
        [(example_occasion, SocketMessage (Text [])),
         (example_occasion, Signed),
         (example_occasion, Signed)] interrupted)) = 2"
    by (simp add: interrupted_def connect_requests_def engine_eval example_env_def
        challenge_frame_def example_store_def example_settings_def example_identity_def
        example_occasion_def str_def)
  have by_timer:
    "length (connect_requests (run_events (example_env challenge_frame)
        [(example_occasion, TimerFires 1),
         (example_occasion, Signed),
         (example_occasion, Signed)] interrupted)) = 2"
    by (simp add: interrupted_def connect_requests_def engine_eval example_env_def
        challenge_frame_def example_store_def example_settings_def example_identity_def
        example_occasion_def str_def)
  have rejected:
    "connect_requests (run_events (example_env challenge_frame)
        [(example_occasion, SocketMessage (Text [])),
         (example_occasion, SignFailed),
         (example_occasion, TimerFires 0),
         (example_occasion, SocketMessage (Text []))] opened) = []
     \<and> connectSent (run_events (example_env challenge_frame)
        [(example_occasion, SocketMessage (Text [])),
         (example_occasion, SignFailed),
         (example_occasion, TimerFires 0),
         (example_occasion, SocketMessage (Text []))] opened) = True"
    by (simp add: opened_def connect_requests_def engine_eval example_env_def
        challenge_frame_def example_store_def example_settings_def example_identity_def
        example_occasion_def str_def)
  from interrupted_eval opened_eval by_challenge by_timer rejected show ?thesis
    by simp
qed

subsection \<open>Reconnection backoff\<close>

lemma capped_mono:
  assumes "n \<le> m"
  shows "min (RECONNECT_BASE * 2 ^ n) RECONNECT_CAP \<le> min (RECONNECT_BASE * 2 ^ m) RECONNECT_CAP"
proof -
  from assms have "(2::real) ^ n \<le> 2 ^ m"
    by (intro power_increasing) auto
  then have "RECONNECT_BASE * 2 ^ n \<le> RECONNECT_BASE * 2 ^ m"
    by (simp add: RECONNECT_BASE_def)
  then show ?thesis
    by (auto simp: min_def)
qed

lemma delay_below_next:
  assumes "0 \<le> r" "r < 1" "RECONNECT_BASE * 2 ^ n < RECONNECT_CAP"
  shows "getReconnectDelay r n \<le> min (RECONNECT_BASE * 2 ^ Suc n) RECONNECT_CAP"
proof -
  from backoff_small [OF assms(3)] have "n = 0 \<or> n = 1 \<or> n = 2 \<or> n = 3 \<or> n = 4"
    by arith
  then show ?thesis
    using assms
    by (auto simp: getReconnectDelay_def RECONNECT_BASE_def RECONNECT_CAP_def Let_def)
qed

lemma run_delays:
  assumes "conn e = CONNECTED \<longrightarrow> reconnectAttempt e = 0"
    and "failures_only env evs e"
    and "random_in_range evs"
  shows "map fst (reconnect_delays env evs e) =
      [reconnectAttempt e ..< reconnectAttempt e + length (reconnect_delays env evs e)]
    \<and> reconnectAttempt (run_events env evs e) =
        reconnectAttempt e + length (reconnect_delays env evs e)
    \<and> list_all (\<lambda>x. \<exists>r. 0 \<le> r \<and> r < 1 \<and> snd x = getReconnectDelay r (fst x))
        (reconnect_delays env evs e)"
  using assms
proof (induction evs arbitrary: e)
  case Nil
  then show ?case by simp
next
  case (Cons x evs)
  obtain oc ev where x: "x = (oc, ev)" by (cases x)
  let ?e = "step env oc ev e"
  from Cons.prems(2) x have enter: "conn ?e = CONNECTED \<longrightarrow> conn e = CONNECTED"
    and rest: "failures_only env evs ?e"
    by simp_all
  from Cons.prems(3) x have r: "0 \<le> rnd oc" "rnd oc < 1" and rs: "random_in_range evs"
    by (simp_all add: random_in_range_def)
  consider (same) "reconnectAttempt ?e = reconnectAttempt e"
      "conn ?e = CONNECTED \<longrightarrow> conn e = CONNECTED"
    | (reset) "reconnectAttempt ?e = 0" "conn ?e = CONNECTED"
    | (again) "rescheduled oc e ?e"
    using step_attempt [of env oc ev e] by auto
  then show ?case
  proof cases
    case same
    with Cons.prems(1) have inv: "conn ?e = CONNECTED \<longrightarrow> reconnectAttempt ?e = 0"
      by simp
    from Cons.IH [OF inv rest rs] same(1) show ?thesis
      by (simp add: x)
  next
    case reset
    with enter Cons.prems(1) have eq: "reconnectAttempt ?e = reconnectAttempt e"
      by simp
    from reset have inv: "conn ?e = CONNECTED \<longrightarrow> reconnectAttempt ?e = 0"
      by simp
    from Cons.IH [OF inv rest rs] eq show ?thesis
      by (simp add: x)
  next
    case again
    then obtain h t where s: "reconnectAttempt ?e = Suc (reconnectAttempt e)"
      and c: "conn ?e = RECONNECTING"
      and h: "reconnectTimer ?e = Some h" "timers ?e h = Some t"
        "delay t = getReconnectDelay (rnd oc) (reconnectAttempt e)"
      by (auto simp: rescheduled_def split: option.splits)
    from c have inv: "conn ?e = CONNECTED \<longrightarrow> reconnectAttempt ?e = 0"
      by simp
    have head: "reconnect_delays env (x # evs) e =
        (reconnectAttempt e, getReconnectDelay (rnd oc) (reconnectAttempt e))
          # reconnect_delays env evs ?e"
      using s h by (simp add: x)
    from Cons.IH [OF inv rest rs] s r show ?thesis
      unfolding head by (auto simp: x upt_conv_Cons simp del: upt_Suc)
  qed
qed

lemma run_delays_sorted:
  assumes "conn e = CONNECTED \<longrightarrow> reconnectAttempt e = 0"
    and "failures_only env evs e"
    and "random_in_range evs"
  shows "sorted_wrt (\<lambda>x y. fst x < fst y
        \<and> min (RECONNECT_BASE * 2 ^ fst x) RECONNECT_CAP
            \<le> min (RECONNECT_BASE * 2 ^ fst y) RECONNECT_CAP
        \<and> (RECONNECT_BASE * 2 ^ fst x < RECONNECT_CAP \<longrightarrow> snd x \<le> snd y))
      (reconnect_delays env evs e)"
proof -
  let ?ds = "reconnect_delays env evs e"
  from run_delays [OF assms]
  have ns: "map fst ?ds = [reconnectAttempt e ..< reconnectAttempt e + length ?ds]"
    and js: "list_all (\<lambda>x. \<exists>r. 0 \<le> r \<and> r < 1 \<and> snd x = getReconnectDelay r (fst x)) ?ds"
    by simp_all
  have nth: "fst (?ds ! i) = reconnectAttempt e + i" if "i < length ?ds" for i
  proof -
    from that have "fst (?ds ! i) = map fst ?ds ! i"
      by simp
    also have "\<dots> = reconnectAttempt e + i"
      using that by (simp only: ns nth_upt)
    finally show ?thesis .
  qed
  have jit: "\<exists>r. 0 \<le> r \<and> r < 1 \<and> snd (?ds ! i) = getReconnectDelay r (fst (?ds ! i))"
    if "i < length ?ds" for i
    using js that by (simp add: list_all_length)
  show ?thesis
    unfolding sorted_wrt_iff_nth_less
  proof (intro allI impI conjI)
    fix i j
    assume ij: "i < j" and j: "j < length ?ds"
    then have i: "i < length ?ds" by simp
    from nth [OF i] nth [OF j] ij show "fst (?ds ! i) < fst (?ds ! j)"
      by simp
    then show "min (RECONNECT_BASE * 2 ^ fst (?ds ! i)) RECONNECT_CAP
        \<le> min (RECONNECT_BASE * 2 ^ fst (?ds ! j)) RECONNECT_CAP"
      by (intro capped_mono) simp
    assume below: "RECONNECT_BASE * 2 ^ fst (?ds ! i) < RECONNECT_CAP"
    from jit [OF i] obtain r where r: "0 \<le> r" "r < 1"
      "snd (?ds ! i) = getReconnectDelay r (fst (?ds ! i))" by blast
    from jit [OF j] obtain r' where r': "0 \<le> r'" "r' < 1"
      "snd (?ds ! j) = getReconnectDelay r' (fst (?ds ! j))" by blast
    have "snd (?ds ! i) \<le> min (RECONNECT_BASE * 2 ^ Suc (fst (?ds ! i))) RECONNECT_CAP"
      unfolding r(3) using r(1,2) below by (rule delay_below_next)
    also have "\<dots> \<le> min (RECONNECT_BASE * 2 ^ fst (?ds ! j)) RECONNECT_CAP"
      using \<open>fst (?ds ! i) < fst (?ds ! j)\<close> by (intro capped_mono) simp
    also have "\<dots> \<le> snd (?ds ! j)"
      unfolding r'(3) using r'(1,2) by (rule backoff_bounds(1))
    finally show "snd (?ds ! i) \<le> snd (?ds ! j)" .
  qed
qed

lemma run_delays_bounds:
  assumes "conn e = CONNECTED \<longrightarrow> reconnectAttempt e = 0"
    and "failures_only env evs e"
    and "random_in_range evs"
  shows "list_all (\<lambda>x. min (RECONNECT_BASE * 2 ^ fst x) RECONNECT_CAP \<le> snd x
            \<and> snd x \<le> 1.3 * min (RECONNECT_BASE * 2 ^ fst x) RECONNECT_CAP)
          (reconnect_delays env evs e)"
proof -
  from run_delays [OF assms]
  have "list_all (\<lambda>x. \<exists>r. 0 \<le> r \<and> r < 1 \<and> snd x = getReconnectDelay r (fst x))
      (reconnect_delays env evs e)"
    by simp
  then show ?thesis
    unfolding list_all_iff
  proof (intro ballI)
    fix x
    assume "\<forall>x \<in> set (reconnect_delays env evs e).
        \<exists>r. 0 \<le> r \<and> r < 1 \<and> snd x = getReconnectDelay r (fst x)"
      and "x \<in> set (reconnect_delays env evs e)"
    then obtain r where r: "0 \<le> r" "r < 1" "snd x = getReconnectDelay r (fst x)"
      by blast
    from backoff_bounds [OF r(1,2), of "fst x"] r(3)
    show "min (RECONNECT_BASE * 2 ^ fst x) RECONNECT_CAP \<le> snd x
        \<and> snd x \<le> 1.3 * min (RECONNECT_BASE * 2 ^ fst x) RECONNECT_CAP"
      by simp
  qed
qed

text \<open>
  C2. The delay for attempt \<open>n\<close> is \<open>min (base * 2 ^ n) cap\<close> plus a jitter of that value
  times 0.3 times the random number, so between that value and 1.3 times it, with base
  1000 and cap 30000. \<open>scheduleReconnect\<close> arms the timer with the delay of the current
  counter and increments the counter; every step of the engine that enters
  \<open>RECONNECTING\<close> has incremented it, and every step that enters \<open>CONNECTED\<close> leaves it
  at zero. Nothing else touches the counter: a step leaves it as it is, or resets it on
  the way to \<open>CONNECTED\<close>, or increments it with the reconnect timer armed for the delay
  of the counter as it was. So in a run without a transition to \<open>CONNECTED\<close>, from a
  state that is not \<open>CONNECTED\<close> with a counter above zero, the reconnects scheduled use
  the counters \<open>n, n + 1, n + 2, \<dots>\<close> from the counter \<open>n\<close> of the first state, and the
  counter ends at \<open>n\<close> plus their number; each delay lies between its capped value and
  1.3 times it; the capped values never decrease from one failure to a later one, and a
  delay whose value is below the cap is at most every later delay. With the counter at
  zero the delay is the base value plus its jitter.
\<close>

theorem reconnect_backoff:
  assumes "0 \<le> r" and "r < 1" and "0 \<le> r'" and "r' < 1"
  shows "RECONNECT_BASE = 1000 \<and> RECONNECT_CAP = 30000
    \<and> getReconnectDelay r n =
        min (RECONNECT_BASE * 2 ^ n) RECONNECT_CAP
        + min (RECONNECT_BASE * 2 ^ n) RECONNECT_CAP * 0.3 * r
    \<and> min (RECONNECT_BASE * 2 ^ n) RECONNECT_CAP \<le> getReconnectDelay r n
    \<and> getReconnectDelay r n \<le> 1.3 * min (RECONNECT_BASE * 2 ^ n) RECONNECT_CAP
    \<and> reconnectAttempt (scheduleReconnect r s e) = Suc (reconnectAttempt e)
    \<and> (\<exists>h. reconnectTimer (scheduleReconnect r s e) = Some h
          \<and> timers (scheduleReconnect r s e) h =
              Some \<lparr>delay = getReconnectDelay r (reconnectAttempt e), callback = Reconnect s\<rparr>)
    \<and> (conn (step env oc ev e) = RECONNECTING \<and> conn e \<noteq> RECONNECTING
        \<longrightarrow> reconnectAttempt (step env oc ev e) = Suc (reconnectAttempt e))
    \<and> (conn (step env oc ev e) = CONNECTED \<and> conn e \<noteq> CONNECTED
        \<longrightarrow> reconnectAttempt (step env oc ev e) = 0)
    \<and> min (RECONNECT_BASE * 2 ^ n) RECONNECT_CAP \<le> min (RECONNECT_BASE * 2 ^ Suc n) RECONNECT_CAP
    \<and> min (RECONNECT_BASE * 2 ^ n) RECONNECT_CAP \<le> RECONNECT_CAP
    \<and> (RECONNECT_BASE * 2 ^ n < RECONNECT_CAP
        \<longrightarrow> getReconnectDelay r n \<le> getReconnectDelay r' (Suc n))
    \<and> getReconnectDelay r 0 = RECONNECT_BASE + RECONNECT_BASE * 0.3 * r
    \<and> (reconnectAttempt (step env oc ev e) = reconnectAttempt e
          \<and> (conn (step env oc ev e) = CONNECTED \<longrightarrow> conn e = CONNECTED)
          \<and> (conn (step env oc ev e) = RECONNECTING \<longrightarrow> conn e = RECONNECTING)
        \<or> reconnectAttempt (step env oc ev e) = 0 \<and> conn (step env oc ev e) = CONNECTED
        \<or> rescheduled oc e (step env oc ev e))
    \<and> ((conn e = CONNECTED \<longrightarrow> reconnectAttempt e = 0)
         \<and> failures_only env evs e \<and> random_in_range evs
        \<longrightarrow> map fst (reconnect_delays env evs e) =
              [reconnectAttempt e ..< reconnectAttempt e + length (reconnect_delays env evs e)]
            \<and> reconnectAttempt (run_events env evs e) =
                reconnectAttempt e + length (reconnect_delays env evs e)
            \<and> list_all (\<lambda>x. \<exists>q. 0 \<le> q \<and> q < 1 \<and> snd x = getReconnectDelay q (fst x))
                (reconnect_delays env evs e)
            \<and> list_all (\<lambda>x. min (RECONNECT_BASE * 2 ^ fst x) RECONNECT_CAP \<le> snd x
                    \<and> snd x \<le> 1.3 * min (RECONNECT_BASE * 2 ^ fst x) RECONNECT_CAP)
                (reconnect_delays env evs e)
            \<and> sorted_wrt (\<lambda>x y. fst x < fst y
                    \<and> min (RECONNECT_BASE * 2 ^ fst x) RECONNECT_CAP
                        \<le> min (RECONNECT_BASE * 2 ^ fst y) RECONNECT_CAP
                    \<and> (RECONNECT_BASE * 2 ^ fst x < RECONNECT_CAP \<longrightarrow> snd x \<le> snd y))
                (reconnect_delays env evs e))"
proof -
  have vals: "RECONNECT_BASE = 1000 \<and> RECONNECT_CAP = 30000"
    by (simp add: RECONNECT_BASE_def RECONNECT_CAP_def)
  have mono: "min (RECONNECT_BASE * 2 ^ n) RECONNECT_CAP
      \<le> min (RECONNECT_BASE * 2 ^ Suc n) RECONNECT_CAP"
    by (simp add: RECONNECT_BASE_def RECONNECT_CAP_def min_def)
  have cap: "min (RECONNECT_BASE * 2 ^ n) RECONNECT_CAP \<le> RECONNECT_CAP"
    by simp
  have zero: "getReconnectDelay r 0 = RECONNECT_BASE + RECONNECT_BASE * 0.3 * r"
    by (simp add: getReconnectDelay_def RECONNECT_BASE_def RECONNECT_CAP_def Let_def)
  have form: "getReconnectDelay r n =
        min (RECONNECT_BASE * 2 ^ n) RECONNECT_CAP
        + min (RECONNECT_BASE * 2 ^ n) RECONNECT_CAP * 0.3 * r"
    by (simp add: getReconnectDelay_def Let_def)
  have incr: "reconnectAttempt (scheduleReconnect r s e) = Suc (reconnectAttempt e)"
    by simp
  have enter_reconnecting: "conn (step env oc ev e) = RECONNECTING \<and> conn e \<noteq> RECONNECTING
        \<longrightarrow> reconnectAttempt (step env oc ev e) = Suc (reconnectAttempt e)"
    using step_conn [of env oc ev e] by auto
  have enter_connected: "conn (step env oc ev e) = CONNECTED \<and> conn e \<noteq> CONNECTED
        \<longrightarrow> reconnectAttempt (step env oc ev e) = 0"
    using step_conn [of env oc ev e] by auto
  have below: "RECONNECT_BASE * 2 ^ n < RECONNECT_CAP
        \<longrightarrow> getReconnectDelay r n \<le> getReconnectDelay r' (Suc n)"
    using delay_monotone [OF assms(1,2,3), of n] by blast
  have first: "RECONNECT_BASE = 1000 \<and> RECONNECT_CAP = 30000
    \<and> getReconnectDelay r n =
        min (RECONNECT_BASE * 2 ^ n) RECONNECT_CAP
        + min (RECONNECT_BASE * 2 ^ n) RECONNECT_CAP * 0.3 * r
    \<and> min (RECONNECT_BASE * 2 ^ n) RECONNECT_CAP \<le> getReconnectDelay r n
    \<and> getReconnectDelay r n \<le> 1.3 * min (RECONNECT_BASE * 2 ^ n) RECONNECT_CAP
    \<and> reconnectAttempt (scheduleReconnect r s e) = Suc (reconnectAttempt e)
    \<and> (\<exists>h. reconnectTimer (scheduleReconnect r s e) = Some h
          \<and> timers (scheduleReconnect r s e) h =
              Some \<lparr>delay = getReconnectDelay r (reconnectAttempt e), callback = Reconnect s\<rparr>)
    \<and> (conn (step env oc ev e) = RECONNECTING \<and> conn e \<noteq> RECONNECTING
        \<longrightarrow> reconnectAttempt (step env oc ev e) = Suc (reconnectAttempt e))
    \<and> (conn (step env oc ev e) = CONNECTED \<and> conn e \<noteq> CONNECTED
        \<longrightarrow> reconnectAttempt (step env oc ev e) = 0)
    \<and> min (RECONNECT_BASE * 2 ^ n) RECONNECT_CAP \<le> min (RECONNECT_BASE * 2 ^ Suc n) RECONNECT_CAP
    \<and> min (RECONNECT_BASE * 2 ^ n) RECONNECT_CAP \<le> RECONNECT_CAP
    \<and> (RECONNECT_BASE * 2 ^ n < RECONNECT_CAP
        \<longrightarrow> getReconnectDelay r n \<le> getReconnectDelay r' (Suc n))
    \<and> getReconnectDelay r 0 = RECONNECT_BASE + RECONNECT_BASE * 0.3 * r"
    using vals form backoff_bounds [OF assms(1,2), of n] incr
      scheduleReconnect_timer [of r s e] enter_reconnecting enter_connected mono cap below zero
    by blast
  have run: "map fst (reconnect_delays env evs e) =
              [reconnectAttempt e ..< reconnectAttempt e + length (reconnect_delays env evs e)]
            \<and> reconnectAttempt (run_events env evs e) =
                reconnectAttempt e + length (reconnect_delays env evs e)
            \<and> list_all (\<lambda>x. \<exists>q. 0 \<le> q \<and> q < 1 \<and> snd x = getReconnectDelay q (fst x))
                (reconnect_delays env evs e)
            \<and> list_all (\<lambda>x. min (RECONNECT_BASE * 2 ^ fst x) RECONNECT_CAP \<le> snd x
                    \<and> snd x \<le> 1.3 * min (RECONNECT_BASE * 2 ^ fst x) RECONNECT_CAP)
                (reconnect_delays env evs e)
            \<and> sorted_wrt (\<lambda>x y. fst x < fst y
                    \<and> min (RECONNECT_BASE * 2 ^ fst x) RECONNECT_CAP
                        \<le> min (RECONNECT_BASE * 2 ^ fst y) RECONNECT_CAP
                    \<and> (RECONNECT_BASE * 2 ^ fst x < RECONNECT_CAP \<longrightarrow> snd x \<le> snd y))
                (reconnect_delays env evs e)"
    if h: "(conn e = CONNECTED \<longrightarrow> reconnectAttempt e = 0)
         \<and> failures_only env evs e \<and> random_in_range evs"
  proof -
    from h have a: "conn e = CONNECTED \<longrightarrow> reconnectAttempt e = 0"
      and b: "failures_only env evs e" and c: "random_in_range evs"
      by simp_all
    from run_delays [OF a b c] run_delays_bounds [OF a b c] run_delays_sorted [OF a b c]
    show ?thesis by simp
  qed
  note counter = step_attempt [of env oc ev e]
  from first counter run show ?thesis
    by blast
qed


lemmas engine_eval2 = engine_eval ws_onclose_def scheduleReconnect_def getReconnectDelay_def
  store_update_connection_def saveState_def conn_def startHeartbeat_def flushQueue_def emit_def publish_def
  heartbeat_tick_def disconnect_def

lemma established_eval:
  "conn established = CONNECTED \<and> reconnectAttempt established = 0"
  by (simp add: established_def engine_eval2 example_env_def accept_frame_def
      example_store_def example_settings_def example_occasion_def defaultState_def str_def)

lemma outage_eval:
  "failures_only (example_env accept_frame) outage established
   \<and> reconnect_delays (example_env accept_frame) outage established = [(0, 1150), (1, 2300)]"
  by (simp add: established_def outage_def engine_eval2 example_env_def accept_frame_def
      example_store_def example_settings_def example_occasion_def defaultState_def str_def
      RECONNECT_BASE_def RECONNECT_CAP_def)

lemma outage_random: "random_in_range outage"
  by (simp add: random_in_range_def outage_def example_occasion_def)

lemma retrying_eval: "conn retrying = CONNECTING \<and> reconnectAttempt retrying = 1"
  by (simp add: retrying_def failed_once_def engine_eval2 example_env_def accept_frame_def
      example_store_def example_settings_def example_occasion_def defaultState_def str_def)


theorem reconnect_backoff_witness:
  "conn retrying \<noteq> CONNECTED \<and> reconnectAttempt retrying = 1
   \<and> conn (step (example_env accept_frame) example_occasion (SocketMessage (Text [])) retrying)
       = CONNECTED
   \<and> reconnectAttempt
        (step (example_env accept_frame) example_occasion (SocketMessage (Text [])) retrying) = 0
   \<and> conn (step (example_env accept_frame) example_occasion SocketClose retrying) = RECONNECTING
   \<and> reconnectAttempt (step (example_env accept_frame) example_occasion SocketClose retrying) = 2
   \<and> RECONNECT_BASE * 2 ^ 2 < RECONNECT_CAP
   \<and> getReconnectDelay (1 / 2) 2 \<le> getReconnectDelay (1 / 4) 3
   \<and> getReconnectDelay (1 / 2) 0 = 1150
   \<and> conn established = CONNECTED \<and> reconnectAttempt established = 0
   \<and> failures_only (example_env accept_frame) outage established
   \<and> random_in_range outage
   \<and> reconnect_delays (example_env accept_frame) outage established = [(0, 1150), (1, 2300)]
   \<and> reconnectAttempt (run_events (example_env accept_frame) outage established) = 2"
proof -
  have r: "(0::real) \<le> 1 / 2" "(1 / 2 :: real) < 1" "(0::real) \<le> 1 / 4" "(1 / 4 :: real) < 1"
    by simp_all
  have below: "RECONNECT_BASE * 2 ^ 2 < RECONNECT_CAP"
    by (simp add: RECONNECT_BASE_def RECONNECT_CAP_def)
  have accepted:
    "conn (step (example_env accept_frame) example_occasion (SocketMessage (Text [])) retrying)
       = CONNECTED"
    by (simp add: retrying_def failed_once_def engine_eval2 example_env_def accept_frame_def
        example_store_def example_settings_def example_occasion_def defaultState_def str_def)
  have closed:
    "conn (step (example_env accept_frame) example_occasion SocketClose retrying) = RECONNECTING"
    by (simp add: retrying_def failed_once_def engine_eval2 example_env_def accept_frame_def
        example_store_def example_settings_def example_occasion_def defaultState_def str_def)
  note at_message = reconnect_backoff [OF r, of 2 example_settings retrying
      "example_env accept_frame" example_occasion "SocketMessage (Text [])"]
  note at_close = reconnect_backoff [OF r, of 0 example_settings retrying
      "example_env accept_frame" example_occasion SocketClose]
  from at_message have reset:
    "conn (step (example_env accept_frame) example_occasion (SocketMessage (Text [])) retrying)
       = CONNECTED \<and> conn retrying \<noteq> CONNECTED
     \<longrightarrow> reconnectAttempt
        (step (example_env accept_frame) example_occasion (SocketMessage (Text [])) retrying) = 0"
    by blast
  from at_message have mono:
    "RECONNECT_BASE * 2 ^ 2 < RECONNECT_CAP
     \<longrightarrow> getReconnectDelay (1 / 2) 2 \<le> getReconnectDelay (1 / 4) (Suc 2)"
    by blast
  from at_close have incr:
    "conn (step (example_env accept_frame) example_occasion SocketClose retrying) = RECONNECTING
     \<and> conn retrying \<noteq> RECONNECTING
     \<longrightarrow> reconnectAttempt (step (example_env accept_frame) example_occasion SocketClose retrying)
         = Suc (reconnectAttempt retrying)"
    by blast
  from at_close have base:
    "getReconnectDelay (1 / 2) 0 = RECONNECT_BASE + RECONNECT_BASE * 0.3 * (1 / 2)"
    by blast
  have three: "Suc 2 = 3"
    by simp
  note at_run = reconnect_backoff [OF r, where e = established
      and env = "example_env accept_frame" and evs = outage]
  have baseline: "conn established = CONNECTED \<longrightarrow> reconnectAttempt established = 0"
    using established_eval by simp
  from at_run baseline outage_eval outage_random have counted:
    "reconnectAttempt (run_events (example_env accept_frame) outage established) =
       reconnectAttempt established
       + length (reconnect_delays (example_env accept_frame) outage established)"
    by blast
  have two: "reconnectAttempt (run_events (example_env accept_frame) outage established) = 2"
    using counted established_eval outage_eval by simp
  from reset mono incr base retrying_eval accepted closed below three show ?thesis
    by (simp add: RECONNECT_BASE_def established_eval outage_eval outage_random two)
qed

subsection \<open>The pairing state\<close>

definition errMsg_of :: "wire_error \<Rightarrow> js_string" where
  "errMsg_of er = (if truthy (message er) then or_empty (message er) else str ''Connect rejected'')"

lemma default_not_paired: "\<not> str_includes (str ''Connect rejected'') (str ''NOT_PAIRED'')"
  by (simp add: str_def)

lemma handleMessage_error:
  assumes "ftype (decode (env_JSON_parse env) raw) = Some (str ''res'')"
    and "fid (decode (env_JSON_parse env) raw) = Some i" and "connectId e = Some i"
    and "ferror (decode (env_JSON_parse env) raw) = Some er"
  shows "handleMessage env oc raw s e =
    (if code er = Some (str ''NOT_PAIRED'') \<or> str_includes (errMsg_of er) (str ''NOT_PAIRED'')
     then setState PAIRING
            (case deviceIdentity e of Some d \<Rightarrow> nonempty (Some (ident_id d)) | None \<Rightarrow> None) e
     else cleanup (setState DISCONNECTED (Some (errMsg_of er)) e))"
proof -
  have c: "(if truthy (code er) then or_empty (code er) else []) = str ''NOT_PAIRED''
      \<longleftrightarrow> code er = Some (str ''NOT_PAIRED'')"
    by (cases "code er") (auto simp: truthy_def or_empty_def str_def)
  show ?thesis
    using assms c by (simp add: handleMessage_def id_matches_def Let_def res_not_event errMsg_of_def)
qed

lemma includes_errMsg:
  "str_includes (errMsg_of er) (str ''NOT_PAIRED'')
   \<longleftrightarrow> (\<exists>m. message er = Some m \<and> str_includes m (str ''NOT_PAIRED''))"
proof (cases "message er")
  case None
  then show ?thesis
    by (simp add: errMsg_of_def truthy_def default_not_paired)
next
  case (Some m)
  then show ?thesis
    by (cases m) (simp_all add: errMsg_of_def truthy_def or_empty_def default_not_paired str_def)
qed

lemma error_setState [simp]:
  "error (connection (mem (store (setState c err e)))) = err"
  by (simp add: setState_def store_update_connection_def Let_def)

lemma store_cleanup [simp]: "store (cleanup e) = store e"
  by (simp add: cleanup_def stopHeartbeat_def clearTimeout_def Let_def split: option.splits)

lemma attempt_cleanup_ws [simp]: "ws (cleanup e) = None"
  by (simp add: cleanup_def Let_def)

lemma reconnectTimer_cleanup [simp]: "reconnectTimer (cleanup e) = None"
  by (simp add: cleanup_def stopHeartbeat_def clearTimeout_def Let_def split: option.splits)

lemma ws_setState [simp]: "ws (setState c err e) = ws e"
  by (simp add: setState_def)

text \<open>
  C4. A response to the connect request that carries an error whose code is
  \<open>NOT_PAIRED\<close>, or whose message contains \<open>NOT_PAIRED\<close>, puts the state machine into
  \<open>PAIRING\<close>; when the socket then closes, the state becomes \<open>RECONNECTING\<close> and the
  reconnect timer is armed with the delay of the current attempt. With any other code
  and message the state becomes \<open>DISCONNECTED\<close> and the error of the connection is the
  message of the response as it came (\<open>Connect rejected\<close> when it has none).
\<close>

theorem not_paired_transitions:
  assumes "ws e = Some k" and "readyState k = WS_OPEN" and "connectId e = Some i"
    and "ftype (decode (env_JSON_parse env) raw) = Some (str ''res'')"
    and "fid (decode (env_JSON_parse env) raw) = Some i"
    and "ferror (decode (env_JSON_parse env) raw) = Some er"
  shows "(code er = Some (str ''NOT_PAIRED'')
          \<or> (\<exists>m. message er = Some m \<and> str_includes m (str ''NOT_PAIRED''))
        \<longrightarrow> conn (step env oc (SocketMessage raw) e) = PAIRING
          \<and> conn (step env oc' SocketClose (step env oc (SocketMessage raw) e)) = RECONNECTING
          \<and> (\<exists>h. reconnectTimer (step env oc' SocketClose (step env oc (SocketMessage raw) e))
                  = Some h
                \<and> timers (step env oc' SocketClose (step env oc (SocketMessage raw) e)) h =
                    Some \<lparr>delay = getReconnectDelay (rnd oc') (reconnectAttempt e),
                          callback = Reconnect (captured k)\<rparr>))
    \<and> (code er \<noteq> Some (str ''NOT_PAIRED'')
        \<and> \<not> (\<exists>m. message er = Some m \<and> str_includes m (str ''NOT_PAIRED''))
        \<longrightarrow> conn (step env oc (SocketMessage raw) e) = DISCONNECTED
          \<and> error (connection (mem (store (step env oc (SocketMessage raw) e)))) =
              Some (if truthy (message er) then or_empty (message er)
                    else str ''Connect rejected'')
          \<and> reconnectTimer (step env oc (SocketMessage raw) e) = None)"
proof -
  let ?e1 = "step env oc (SocketMessage raw) e"
  have st: "?e1 = handleMessage env oc raw (captured k) e"
    using assms(1,2) by (simp add: step_def)
  note hm = handleMessage_error [OF assms(4,5,3,6), of oc "captured k"]
  have paired: "conn ?e1 = PAIRING
      \<and> conn (step env oc' SocketClose ?e1) = RECONNECTING
      \<and> (\<exists>h. reconnectTimer (step env oc' SocketClose ?e1) = Some h
            \<and> timers (step env oc' SocketClose ?e1) h =
                Some \<lparr>delay = getReconnectDelay (rnd oc') (reconnectAttempt e),
                      callback = Reconnect (captured k)\<rparr>)"
    if np: "code er = Some (str ''NOT_PAIRED'')
          \<or> (\<exists>m. message er = Some m \<and> str_includes m (str ''NOT_PAIRED''))"
  proof -
    from np have "code er = Some (str ''NOT_PAIRED'')
        \<or> str_includes (errMsg_of er) (str ''NOT_PAIRED'')"
      by (simp only: includes_errMsg)
    with hm st have e1: "?e1 = setState PAIRING
        (case deviceIdentity e of Some d \<Rightarrow> nonempty (Some (ident_id d)) | None \<Rightarrow> None) e"
      by (simp only: if_True)
    then have c1: "conn ?e1 = PAIRING" and w1: "ws ?e1 = Some k"
      and a1: "reconnectAttempt ?e1 = reconnectAttempt e"
      using assms(1) by simp_all
    have cl: "step env oc' SocketClose ?e1 =
        scheduleReconnect (rnd oc') (captured k)
          (cleanup (?e1\<lparr>ws := Some (k\<lparr>readyState := WS_CLOSED\<rparr>)\<rparr>))"
      using c1 w1 by (simp add: step_def ws_onclose_def Let_def)
    from scheduleReconnect_timer [of "rnd oc'" "captured k"
        "cleanup (?e1\<lparr>ws := Some (k\<lparr>readyState := WS_CLOSED\<rparr>)\<rparr>)"]
    show ?thesis
      using c1 cl a1 by simp
  qed
  have fatal: "conn ?e1 = DISCONNECTED
      \<and> error (connection (mem (store ?e1))) =
          Some (if truthy (message er) then or_empty (message er) else str ''Connect rejected'')
      \<and> reconnectTimer ?e1 = None"
    if "code er \<noteq> Some (str ''NOT_PAIRED'')"
      and "\<not> (\<exists>m. message er = Some m \<and> str_includes m (str ''NOT_PAIRED''))"
  proof -
    from that have "\<not> (code er = Some (str ''NOT_PAIRED'')
        \<or> str_includes (errMsg_of er) (str ''NOT_PAIRED''))"
      by (simp only: includes_errMsg) blast
    with hm st have "?e1 = cleanup (setState DISCONNECTED (Some (errMsg_of er)) e)"
      by (simp only: if_False)
    then show ?thesis
      by (simp add: errMsg_of_def)
  qed
  from paired fatal show ?thesis by blast
qed

lemma retrying_socket:
  "\<exists>k. ws retrying = Some k \<and> readyState k = WS_OPEN \<and> captured k = example_settings"
  by (simp add: retrying_def failed_once_def engine_eval2 example_env_def accept_frame_def
      example_store_def example_settings_def example_occasion_def defaultState_def str_def)

lemma retrying_connectId: "connectId retrying = Some 0"
  by (simp add: retrying_def failed_once_def engine_eval2 example_env_def accept_frame_def
      example_store_def example_settings_def example_occasion_def defaultState_def str_def)

theorem not_paired_transitions_witness:
  "connectId retrying = Some 0
   \<and> conn (step (example_env not_paired_frame) example_occasion (SocketMessage (Text [])) retrying)
       = PAIRING
   \<and> conn (step (example_env not_paired_frame) example_occasion SocketClose
        (step (example_env not_paired_frame) example_occasion (SocketMessage (Text [])) retrying))
       = RECONNECTING
   \<and> conn (step (example_env denied_frame) example_occasion (SocketMessage (Text [])) retrying)
       = DISCONNECTED
   \<and> error (connection (mem (store
        (step (example_env denied_frame) example_occasion (SocketMessage (Text [])) retrying))))
       = Some (str ''bad token'')"
proof -
  from retrying_socket obtain k where k: "ws retrying = Some k" "readyState k = WS_OPEN"
    by blast
  have np: "ftype (decode (env_JSON_parse (example_env not_paired_frame)) (Text [])) = Some (str ''res'')"
    "fid (decode (env_JSON_parse (example_env not_paired_frame)) (Text [])) = Some 0"
    "ferror (decode (env_JSON_parse (example_env not_paired_frame)) (Text [])) =
       Some \<lparr>code = Some (str ''NOT_PAIRED''), message = Some (str ''pairing required'')\<rparr>"
    by (simp_all add: example_env_def not_paired_frame_def decode_def parseFrame_def
        try_catch_def frame_fields_def no_fields_def)
  have dn: "ftype (decode (env_JSON_parse (example_env denied_frame)) (Text [])) = Some (str ''res'')"
    "fid (decode (env_JSON_parse (example_env denied_frame)) (Text [])) = Some 0"
    "ferror (decode (env_JSON_parse (example_env denied_frame)) (Text [])) =
       Some \<lparr>code = Some (str ''AUTH_FAILED''), message = Some (str ''bad token'')\<rparr>"
    by (simp_all add: example_env_def denied_frame_def decode_def parseFrame_def
        try_catch_def frame_fields_def no_fields_def)
  have other: "str ''AUTH_FAILED'' \<noteq> str ''NOT_PAIRED''"
    "\<not> str_includes (str ''bad token'') (str ''NOT_PAIRED'')"
    "truthy (Some (str ''bad token''))"
    by (simp_all add: str_def truthy_def)
  from not_paired_transitions [OF k retrying_connectId np, of example_occasion example_occasion]
    not_paired_transitions [OF k retrying_connectId dn, of example_occasion example_occasion]
    other retrying_connectId
  show ?thesis
    by (simp add: or_empty_def)
qed

section \<open>Properties of the first revision of the engine\<close>

lemma map_of_map_set [simp]: "map_of (map_set k v l) k' = (if k' = k then Some v else map_of l k')"
proof (cases "map_of l k")
  case None
  then show ?thesis by (auto simp: map_set_def map_add_def split: option.splits)
next
  case (Some a)
  have "map_of (map (\<lambda>(k', v'). if k' = k then (k, v) else (k', v')) l) k' =
      (if k' = k then (if map_of l k = None then None else Some v) else map_of l k')"
    by (induction l) auto
  with Some show ?thesis by (simp add: map_set_def)
qed

lemma map_of_map_delete [simp]: "map_of (map_delete k l) k' = (if k' = k then None else map_of l k')"
  by (induction l) (auto simp: map_delete_def)

text \<open>What \<open>request\<close> does on an open socket.\<close>

lemma request_open:
  assumes "ws e = Some k" "readyState k = WS_OPEN"
  shows "request m p e =
    (next_uuid e,
     e\<lparr>next_uuid := Suc (next_uuid e),
       promises := (promises e)(next_uuid e \<mapsto> \<lparr>outcome = Pending, then_dequeue = None\<rparr>),
       timers := (timers e)(next_timer e \<mapsto> \<lparr>delay = 15000, callback = RequestTimeout (next_uuid e) m\<rparr>),
       next_timer := Suc (next_timer e),
       pendingRequests := map_set (next_uuid e) \<lparr>kind = Request, timeout = next_timer e\<rparr> (pendingRequests e),
       ws := Some (k\<lparr>sent := sent k @ [\<lparr>req_id = next_uuid e, req_method = m, params = p\<rparr>]\<rparr>)\<rparr>)"
  using assms
  by (simp add: request_def randomUUID_def setTimeout_def send_def Let_def)

lemma request_closed:
  assumes "\<not> (\<exists>k. ws e = Some k \<and> readyState k = WS_OPEN)"
  shows "request m p e =
    (next_uuid e,
     e\<lparr>next_uuid := Suc (next_uuid e),
       promises := (promises e)(next_uuid e \<mapsto> \<lparr>outcome = Rejected (str ''Not connected''), then_dequeue = None\<rparr>),
       timers := (timers e)(next_timer e := None),
       next_timer := Suc (next_timer e),
       pendingRequests := map_delete (next_uuid e) (map_set (next_uuid e) \<lparr>kind = Request, timeout = next_timer e\<rparr> (pendingRequests e))\<rparr>)"
  using assms
  by (cases "ws e")
     (auto simp: request_def randomUUID_def setTimeout_def send_def clearTimeout_def
       reject_promise_def Let_def)


lemma reject_promise_fields [simp]:
  "ws (reject_promise u msg e) = ws e"
  "timers (reject_promise u msg e) = timers e"
  "heartbeatTimer (reject_promise u msg e) = heartbeatTimer e"
  "reconnectTimer (reject_promise u msg e) = reconnectTimer e"
  "pendingRequests (reject_promise u msg e) = pendingRequests e"
  "store (reject_promise u msg e) = store e"
  "next_uuid (reject_promise u msg e) = next_uuid e"
  "next_timer (reject_promise u msg e) = next_timer e"
  "reconnectAttempt (reject_promise u msg e) = reconnectAttempt e"
  by (simp_all add: reject_promise_def split: option.splits)

lemma reject_promise_other [simp]:
  "u' \<noteq> u \<Longrightarrow> promises (reject_promise u msg e) u' = promises e u'"
  by (simp add: reject_promise_def split: option.splits)

lemma reject_promise_pending:
  "promises e u = Some p \<Longrightarrow> outcome p = Pending \<Longrightarrow>
   promises (reject_promise u msg e) u = Some (p\<lparr>outcome := Rejected msg\<rparr>)"
  by (simp add: reject_promise_def)

lemma reject_promise_settled:
  "promises e u = Some p \<Longrightarrow> outcome p \<noteq> Pending \<Longrightarrow> reject_promise u msg e = e"
  by (simp add: reject_promise_def)

lemma setState_fields [simp]:
  "ws (setState c err e) = ws e"
  "timers (setState c err e) = timers e"
  "heartbeatTimer (setState c err e) = heartbeatTimer e"
  "reconnectTimer (setState c err e) = reconnectTimer e"
  "next_uuid (setState c err e) = next_uuid e"
  "next_timer (setState c err e) = next_timer e"
  "reconnectAttempt (setState c err e) = reconnectAttempt e"
  by (simp_all add: setState_def)

lemma setState_r1_fields [simp]:
  "pendingRequests (setState c err e) = pendingRequests e"
  "promises (setState c err e) = promises e"
  by (simp_all add: setState_def)

lemma clearTimeout_fields [simp]:
  "ws (clearTimeout h e) = ws e"
  "timers (clearTimeout h e) = (timers e)(h := None)"
  "heartbeatTimer (clearTimeout h e) = heartbeatTimer e"
  "reconnectTimer (clearTimeout h e) = reconnectTimer e"
  "store (clearTimeout h e) = store e"
  "next_uuid (clearTimeout h e) = next_uuid e"
  "next_timer (clearTimeout h e) = next_timer e"
  "reconnectAttempt (clearTimeout h e) = reconnectAttempt e"
  by (simp_all add: clearTimeout_def)

lemma clearTimeout_r1_fields [simp]:
  "pendingRequests (clearTimeout h e) = pendingRequests e"
  "promises (clearTimeout h e) = promises e"
  by (simp_all add: clearTimeout_def)

lemma reject_all_frame:
  "ws (reject_all l e) = ws e
   \<and> heartbeatTimer (reject_all l e) = heartbeatTimer e
   \<and> reconnectTimer (reject_all l e) = reconnectTimer e
   \<and> pendingRequests (reject_all l e) = pendingRequests e
   \<and> next_uuid (reject_all l e) = next_uuid e
   \<and> next_timer (reject_all l e) = next_timer e
   \<and> reconnectAttempt (reject_all l e) = reconnectAttempt e"
proof (induction l arbitrary: e)
  case Nil
  then show ?case by simp
next
  case (Cons x l)
  obtain u en where x: "x = (u, en)" by (cases x)
  show ?case
    by (cases "kind en") (simp_all add: x Cons.IH Let_def)
qed

lemma reject_all_fields [simp]:
  "ws (reject_all l e) = ws e"
  "heartbeatTimer (reject_all l e) = heartbeatTimer e"
  "reconnectTimer (reject_all l e) = reconnectTimer e"
  "pendingRequests (reject_all l e) = pendingRequests e"
  "next_uuid (reject_all l e) = next_uuid e"
  "next_timer (reject_all l e) = next_timer e"
  "reconnectAttempt (reject_all l e) = reconnectAttempt e"
  by (simp_all add: reject_all_frame)

lemma reject_all_timers:
  "timers (reject_all l e) =
     (\<lambda>h. if h \<in> (\<lambda>x. timeout (snd x)) ` set l then None else timers e h)"
proof (induction l arbitrary: e)
  case Nil
  then show ?case by simp
next
  case (Cons x l)
  obtain u en where x: "x = (u, en)" by (cases x)
  show ?case
    by (cases "kind en") (auto simp: x Cons.IH Let_def fun_eq_iff)
qed

lemma reject_all_keeps:
  "u \<notin> fst ` set l \<Longrightarrow> promises (reject_all l e) u = promises e u"
proof (induction l arbitrary: e)
  case Nil
  then show ?case by simp
next
  case (Cons x l)
  obtain u' en where x: "x = (u', en)" by (cases x)
  with Cons.prems have "u' \<noteq> u" "u \<notin> fst ` set l" by auto
  with Cons.IH show ?case
    by (cases "kind en") (simp_all add: x Let_def)
qed

lemma reject_all_settled:
  "promises e u = Some p \<Longrightarrow> outcome p \<noteq> Pending \<Longrightarrow> promises (reject_all l e) u = Some p"
proof (induction l arbitrary: e)
  case Nil
  then show ?case by simp
next
  case (Cons x l)
  obtain u' en where x: "x = (u', en)" by (cases x)
  show ?case
  proof (cases "kind en")
    case Request
    have "promises (reject_promise u' (str ''Connection closed'') (clearTimeout (timeout en) e)) u = Some p"
    proof (cases "u' = u")
      case True
      have "promises (clearTimeout (timeout en) e) u = Some p"
        using Cons.prems by simp
      from reject_promise_settled [OF this Cons.prems(2)] True Cons.prems show ?thesis
        by simp
    next
      case False
      with Cons.prems show ?thesis by simp
    qed
    from Cons.IH [OF this Cons.prems(2)] Request x show ?thesis by (simp add: Let_def)
  next
    case (Handshake s)
    have "promises (setState DISCONNECTED (Some (str ''Handshake timeout'')) (clearTimeout (timeout en) e)) u = Some p"
      using Cons.prems by simp
    from Cons.IH [OF this Cons.prems(2)] Handshake x show ?thesis by (simp add: Let_def)
  qed
qed

lemma reject_all_rejects:
  assumes "(u, en) \<in> set l" "kind en = Request" "promises e u = Some p" "outcome p = Pending"
  shows "promises (reject_all l e) u = Some (p\<lparr>outcome := Rejected (str ''Connection closed'')\<rparr>)"
  using assms
proof (induction l arbitrary: e)
  case Nil
  then show ?case by simp
next
  case (Cons x l)
  obtain u' en' where x: "x = (u', en')" by (cases x)
  show ?case
  proof (cases "u' = u \<and> kind en' = Request")
    case True
    let ?e1 = "reject_promise u (str ''Connection closed'') (clearTimeout (timeout en') e)"
    have "promises ?e1 u = Some (p\<lparr>outcome := Rejected (str ''Connection closed'')\<rparr>)"
      using Cons.prems by (simp add: reject_promise_pending)
    then have "promises (reject_all l ?e1) u =
        Some (p\<lparr>outcome := Rejected (str ''Connection closed'')\<rparr>)"
      by (rule reject_all_settled) simp
    with True x show ?thesis by (simp add: Let_def)
  next
    case False
    with Cons.prems x have mem: "(u, en) \<in> set l"
      by auto
    let ?e1 = "(case kind en' of
                  Request \<Rightarrow> reject_promise u' (str ''Connection closed'') (clearTimeout (timeout en') e)
                | Handshake s \<Rightarrow> setState DISCONNECTED (Some (str ''Handshake timeout''))
                    (clearTimeout (timeout en') e))"
    have "promises ?e1 u = Some p"
      using False Cons.prems(3) by (cases "kind en'") simp_all
    from Cons.IH [OF mem Cons.prems(2) this Cons.prems(4)] x show ?thesis
      by (simp add: Let_def)
  qed
qed

lemma stopHeartbeat_fields [simp]:
  "ws (stopHeartbeat e) = ws e"
  "heartbeatTimer (stopHeartbeat e) = None"
  "reconnectTimer (stopHeartbeat e) = reconnectTimer e"
  "store (stopHeartbeat e) = store e"
  "next_uuid (stopHeartbeat e) = next_uuid e"
  "next_timer (stopHeartbeat e) = next_timer e"
  "reconnectAttempt (stopHeartbeat e) = reconnectAttempt e"
  "timers (stopHeartbeat e) =
     (case heartbeatTimer e of Some h \<Rightarrow> (timers e)(h := None) | None \<Rightarrow> timers e)"
  by (simp_all add: stopHeartbeat_def clearTimeout_def split: option.splits)

lemma stopHeartbeat_r1_fields [simp]:
  "pendingRequests (stopHeartbeat e) = pendingRequests e"
  "promises (stopHeartbeat e) = promises e"
  by (simp_all add: stopHeartbeat_def clearTimeout_def split: option.splits)

text \<open>What \<open>cleanup\<close> leaves behind.\<close>

lemma cleanup_r1_fields:
  "ws (cleanup_r1 e) = None"
  "heartbeatTimer (cleanup_r1 e) = None"
  "reconnectTimer (cleanup_r1 e) = None"
  "pendingRequests (cleanup_r1 e) = []"
  "next_uuid (cleanup_r1 e) = next_uuid e"
  "next_timer (cleanup_r1 e) = next_timer e"
  "reconnectAttempt (cleanup_r1 e) = reconnectAttempt e"
  by (simp_all add: cleanup_r1_def Let_def split: option.splits)

lemma cleanup_r1_timers:
  "timers (cleanup_r1 e) h =
     (if h \<in> set_option (heartbeatTimer e) \<union> set_option (reconnectTimer e)
             \<union> (\<lambda>x. timeout (snd x)) ` set (pendingRequests e)
      then None else timers e h)"
  by (auto simp: cleanup_r1_def reject_all_timers Let_def split: option.splits)

lemma cleanup_r1_rejects:
  assumes "(u, en) \<in> set (pendingRequests e)" "kind en = Request"
    "promises e u = Some p" "outcome p = Pending"
  shows "promises (cleanup_r1 e) u = Some (p\<lparr>outcome := Rejected (str ''Connection closed'')\<rparr>)"
proof -
  let ?e2 = "(case reconnectTimer (stopHeartbeat e) of
                Some h \<Rightarrow> (clearTimeout h (stopHeartbeat e))\<lparr>reconnectTimer := None\<rparr>
              | None \<Rightarrow> stopHeartbeat e)"
  have p2: "pendingRequests ?e2 = pendingRequests e" "promises ?e2 = promises e"
    by (simp_all split: option.splits)
  from assms p2 have "promises (reject_all (pendingRequests ?e2) ?e2) u =
      Some (p\<lparr>outcome := Rejected (str ''Connection closed'')\<rparr>)"
    by (intro reject_all_rejects [where en = en]) simp_all
  then show ?thesis
    by (simp add: cleanup_r1_def Let_def)
qed


lemma conn_setState_r1 [simp]: "conn (setState c err e) = c"
  by (simp add: setState_def conn_def store_update_connection_def Let_def)

lemma map_of_map_set_fun: "map_of (map_set u en l) = (map_of l)(u \<mapsto> en)"
  by (rule ext) simp

lemma map_of_map_delete_fun: "map_of (map_delete u l) = (map_of l)(u := None)"
  by (rule ext) simp

lemma justifies_add:
  "justifies hb rt tbl h cb \<Longrightarrow> tbl u = None \<Longrightarrow> justifies hb rt (tbl(u \<mapsto> en)) h cb"
  by (cases cb) (auto simp: justifies_def split: option.splits)

lemma justifies_delete:
  "justifies hb rt tbl h cb \<Longrightarrow> tbl u = Some en \<Longrightarrow> h \<noteq> timeout en
   \<Longrightarrow> justifies hb rt (tbl(u := None)) h cb"
  by (cases cb) (auto simp: justifies_def split: option.splits)

lemma justifies_delete_absent:
  "justifies hb rt tbl h cb \<Longrightarrow> tbl u = None \<Longrightarrow> justifies hb rt (tbl(u := None)) h cb"
  by (cases cb) (auto simp: justifies_def split: option.splits)

lemma justifies_hb:
  "justifies hb rt tbl h cb \<Longrightarrow> hb \<noteq> Some h \<Longrightarrow> justifies hb' rt tbl h cb"
  by (cases cb) (auto simp: justifies_def)

lemma justifies_rt:
  "justifies hb rt tbl h cb \<Longrightarrow> rt \<noteq> Some h \<Longrightarrow> justifies hb rt' tbl h cb"
  by (cases cb) (auto simp: justifies_def)

lemma justifies_referenced:
  "justifies hb rt (map_of l) h cb \<Longrightarrow>
   h \<in> set_option hb \<union> set_option rt \<union> (\<lambda>x. timeout (snd x)) ` set l"
  by (cases cb) (force simp: justifies_def dest: map_of_SomeD split: option.splits)+

lemma justified_cleanup: "justified e \<Longrightarrow> timers (cleanup_r1 e) = Map.empty"
proof
  fix h
  assume j: "justified e"
  show "timers (cleanup_r1 e) h = None"
  proof (cases "timers e h")
    case None
    then show ?thesis by (simp add: cleanup_r1_timers)
  next
    case (Some t)
    with j have "justifies (heartbeatTimer e) (reconnectTimer e) (map_of (pendingRequests e)) h
        (callback t)"
      by (simp add: justified_def)
    from justifies_referenced [OF this] show ?thesis
      by (simp only: cleanup_r1_timers if_True)
  qed
qed

lemma inv1_cleanup: "inv1 e \<Longrightarrow> inv1 (cleanup_r1 e)"
  by (simp add: inv1_def justified_def justified_cleanup keys_used_def cleanup_r1_fields)

lemma keys_fresh: "keys_used e \<Longrightarrow> map_of (pendingRequests e) (next_uuid e) = None"
  by (auto simp: keys_used_def list_all_iff map_of_eq_None_iff)

lemma keys_map_set:
  "list_all (\<lambda>x. fst x < n) l \<Longrightarrow> u < n \<Longrightarrow> list_all (\<lambda>x. fst x < n) (map_set u v l)"
  by (auto simp: map_set_def list_all_iff split: if_splits)

lemma keys_map_delete:
  "list_all (\<lambda>x. fst x < n) l \<Longrightarrow> list_all (\<lambda>x. fst x < n) (map_delete u l)"
  by (auto simp: map_delete_def list_all_iff)

lemma keys_mono: "list_all (\<lambda>x. fst x < n) l \<Longrightarrow> n \<le> n' \<Longrightarrow> list_all (\<lambda>x. fst x < (n'::nat)) l"
  by (auto simp: list_all_iff)

lemma inv1_request: 
  assumes i: "inv1 e"
  shows "inv1 (snd (request m p e))"
proof (cases "\<exists>k. ws e = Some k \<and> readyState k = WS_OPEN")
  case True
  then obtain k where k: "ws e = Some k" "readyState k = WS_OPEN" by blast
  from i have fresh: "map_of (pendingRequests e) (next_uuid e) = None"
    by (simp add: inv1_def keys_fresh)
  from i have ku: "keys_used (snd (request m p e))"
    by (auto simp: request_open [OF k] inv1_def keys_used_def intro!: keys_map_set elim: keys_mono)
  from i fresh have "justified (snd (request m p e))"
    unfolding inv1_def justified_def request_open [OF k]
    by (auto simp: map_of_map_set_fun intro: justifies_add) (simp add: justifies_def)
  with ku show ?thesis by (simp add: inv1_def)
next
  case False
  from i have fresh: "map_of (pendingRequests e) (next_uuid e) = None"
    by (simp add: inv1_def keys_fresh)
  from i have ku: "keys_used (snd (request m p e))"
    by (auto simp: request_closed [OF False] inv1_def keys_used_def
        intro!: keys_map_set keys_map_delete elim: keys_mono)
  from i fresh have "justified (snd (request m p e))"
    unfolding inv1_def justified_def request_closed [OF False]
    by (auto simp: map_of_map_set_fun map_of_map_delete_fun intro: justifies_delete_absent
        split: if_splits)
  with ku show ?thesis by (simp add: inv1_def)
qed


lemma inv1_setState [simp]: "inv1 (setState c err e) = inv1 e"
  by (simp add: inv1_def justified_def keys_used_def)

lemma inv1_ws [simp]: "inv1 (e\<lparr>ws := w\<rparr>) = inv1 e"
  by (simp add: inv1_def justified_def keys_used_def)

lemma inv1_publish [simp]: "inv1 (publish ev f e) = inv1 e"
  by (simp add: inv1_def justified_def keys_used_def publish_def)

lemma inv1_promises [simp]: "inv1 (e\<lparr>promises := x\<rparr>) = inv1 e"
  by (simp add: inv1_def justified_def keys_used_def)

lemma inv1_store [simp]: "inv1 (e\<lparr>store := x\<rparr>) = inv1 e"
  by (simp add: inv1_def justified_def keys_used_def)

lemma inv1_attempt [simp]: "inv1 (e\<lparr>reconnectAttempt := x\<rparr>) = inv1 e"
  by (simp add: inv1_def justified_def keys_used_def)

lemma inv1_reject_promise [simp]: "inv1 (reject_promise u msg e) = inv1 e"
  by (simp add: reject_promise_def split: option.splits)

lemma inv1_resolve_promise [simp]: "inv1 (resolve_promise u f e) = inv1 e"
  by (simp add: resolve_promise_def Let_def split: option.splits)

lemma inv1_send: "inv1 (snd (send f e)) = inv1 e"
  by (simp add: send_def split: option.splits)

lemma inv1_uuid: "inv1 e \<Longrightarrow> inv1 (e\<lparr>next_uuid := Suc (next_uuid e)\<rparr>)"
  by (auto simp: inv1_def justified_def keys_used_def elim: keys_mono)

lemma inv1_flush_loop: "inv1 e \<Longrightarrow> inv1 (flush_loop_r1 sk q e)"
proof (induction q arbitrary: e)
  case Nil
  then show ?case by simp
next
  case (Cons item q)
  obtain u e1 where r: "request (str ''chat.send'')
      (ChatParams sk (q_text item) (idempotencyKey item)) e = (u, e1)"
    by (cases "request (str ''chat.send'') (ChatParams sk (q_text item) (idempotencyKey item)) e")
  from inv1_request [OF Cons.prems, of "str ''chat.send''"
      "ChatParams sk (q_text item) (idempotencyKey item)"] r
  have "inv1 e1" by simp
  then have "inv1 (case promises e1 u of
                  Some p \<Rightarrow>
                    e1\<lparr>promises := (promises e1)(u \<mapsto> p\<lparr>then_dequeue := Some (idempotencyKey item)\<rparr>)\<rparr>
                | None \<Rightarrow> e1)"
    by (simp split: option.splits)
  from Cons.IH [OF this] r show ?case
    by (simp add: Let_def)
qed

lemma inv1_flushQueue: "inv1 e \<Longrightarrow> inv1 (flushQueue_r1 s e)"
  by (simp add: flushQueue_r1_def Let_def inv1_flush_loop)

lemma justified_clear:
  assumes "justified e"
  shows "\<forall>h t. timers (clearTimeout h0 e) h = Some t \<longrightarrow>
    justifies (heartbeatTimer e) (reconnectTimer e) (map_of (pendingRequests e)) h (callback t)"
  using assms by (simp add: justified_def)

lemma inv1_stopHeartbeat: "inv1 e \<Longrightarrow> inv1 (stopHeartbeat e)"
proof (cases "heartbeatTimer e")
  case None
  assume "inv1 e"
  with None show ?thesis by (simp add: stopHeartbeat_def)
next
  case (Some h0)
  assume i: "inv1 e"
  have "justifies None (reconnectTimer e) (map_of (pendingRequests e)) h (callback t)"
    if "timers e h = Some t" "h \<noteq> h0" for h t
  proof -
    from i that have "justifies (Some h0) (reconnectTimer e) (map_of (pendingRequests e)) h (callback t)"
      by (simp add: inv1_def justified_def Some)
    moreover from that(2) have "Some h0 \<noteq> Some h" by simp
    ultimately show ?thesis by (rule justifies_hb)
  qed
  with i Some show ?thesis
    by (simp add: inv1_def justified_def keys_used_def stopHeartbeat_def clearTimeout_def)
qed

lemma inv1_startHeartbeat: "inv1 e \<Longrightarrow> inv1 (startHeartbeat_r1 e)"
proof -
  assume "inv1 e"
  then have i: "inv1 (stopHeartbeat e)" by (rule inv1_stopHeartbeat)
  have h: "heartbeatTimer (stopHeartbeat e) = None" by simp
  have "justifies (Some (next_timer (stopHeartbeat e))) (reconnectTimer (stopHeartbeat e))
      (map_of (pendingRequests (stopHeartbeat e))) h' (callback t)"
    if "timers (stopHeartbeat e) h' = Some t" for h' t
  proof -
    from i that have "justifies None (reconnectTimer (stopHeartbeat e))
        (map_of (pendingRequests (stopHeartbeat e))) h' (callback t)"
      by (simp add: inv1_def justified_def)
    then show ?thesis by (rule justifies_hb) simp
  qed
  with i show ?thesis
    by (simp add: startHeartbeat_r1_def inv1_def justified_def keys_used_def setTimeout_def
        Let_def justifies_def)
qed


lemma inv1_connect: "inv1 e \<Longrightarrow> inv1 (connect_r1 we s e)"
  by (simp add: connect_r1_def Let_def inv1_cleanup split: option.splits)

lemma inv1_disconnect: "inv1 e \<Longrightarrow> inv1 (disconnect_r1 e)"
  by (simp add: disconnect_r1_def inv1_cleanup)

lemma inv1_scheduleReconnect:
  assumes "inv1 e" "reconnectTimer e = None"
  shows "inv1 (scheduleReconnect r s e)"
proof -
  have "justifies (heartbeatTimer e) (Some (next_timer e)) (map_of (pendingRequests e)) h
      (callback t)"
    if "timers e h = Some t" for h t
  proof -
    from assms that have "justifies (heartbeatTimer e) None (map_of (pendingRequests e)) h
        (callback t)"
      by (simp add: inv1_def justified_def)
    then show ?thesis by (rule justifies_rt) simp
  qed
  with assms show ?thesis
    by (simp add: scheduleReconnect_def inv1_def justified_def keys_used_def setTimeout_def
        setState_def Let_def justifies_def)
qed

lemma inv1_onclose: "inv1 e \<Longrightarrow> inv1 (ws_onclose_r1 r s e)"
  by (simp add: ws_onclose_r1_def Let_def inv1_cleanup inv1_scheduleReconnect cleanup_r1_fields)

lemma inv1_onopen:
  assumes "inv1 e"
  shows "inv1 (ws_onopen_r1 s e)"
proof -
  let ?u = "next_uuid e" and ?h = "next_timer e"
  from assms have fresh: "map_of (pendingRequests e) ?u = None"
    by (simp add: inv1_def keys_fresh)
  let ?e3 = "e\<lparr>next_uuid := Suc ?u,
       timers := (timers e)(?h \<mapsto> \<lparr>delay = 10000, callback = HandshakeTimeout ?u\<rparr>),
       next_timer := Suc ?h,
       pendingRequests := map_set ?u \<lparr>kind = Handshake s, timeout = ?h\<rparr> (pendingRequests e)\<rparr>"
  have eq: "ws_onopen_r1 s e = snd (send \<lparr>req_id = ?u, req_method = str ''connect'',
      params = ConnectParams (Some (authToken s)) 1 1 None\<rparr> ?e3)"
    by (simp add: ws_onopen_r1_def buildConnect_def buildRequest_def randomUUID_def
        setTimeout_def Let_def)
  from assms have ku: "keys_used ?e3"
    by (auto simp: inv1_def keys_used_def intro!: keys_map_set elim: keys_mono)
  from assms fresh have "justified ?e3"
    unfolding inv1_def justified_def
    by (auto simp: map_of_map_set_fun intro: justifies_add) (simp add: justifies_def)
  with ku eq show ?thesis
    by (simp add: inv1_def [of ?e3] inv1_send)
qed

lemma inv1_delete_entry:
  assumes "inv1 e" "map_of (pendingRequests e) u = Some en"
  shows "inv1 ((clearTimeout (timeout en) e)\<lparr>pendingRequests := map_delete u (pendingRequests e)\<rparr>)"
proof -
  have "justifies (heartbeatTimer e) (reconnectTimer e) ((map_of (pendingRequests e))(u := None)) h
      (callback t)"
    if "timers e h = Some t" "h \<noteq> timeout en" for h t
  proof -
    from assms that have "justifies (heartbeatTimer e) (reconnectTimer e)
        (map_of (pendingRequests e)) h (callback t)"
      by (simp add: inv1_def justified_def)
    from this assms(2) that(2) show ?thesis by (rule justifies_delete)
  qed
  with assms show ?thesis
    by (auto simp: inv1_def justified_def keys_used_def map_of_map_delete_fun
        intro: keys_map_delete)
qed

lemma inv1_handshake_resolve: "inv1 e \<Longrightarrow> inv1 (handshake_resolve s f e)"
  by (simp add: handshake_resolve_def Let_def inv1_flushQueue inv1_startHeartbeat inv1_cleanup)

lemma inv1_handleMessage: 
  assumes "inv1 e"
  shows "inv1 (handleMessage_r1 jp raw e)"
proof -
  let ?f = "decode jp raw"
  let ?m = "(if ftype ?f = Some (str ''res'')
               then (case fid ?f of Some u \<Rightarrow> map_option (Pair u) (map_of (pendingRequests e) u)
                     | None \<Rightarrow> None)
               else None)"
  show ?thesis
  proof (cases ?m)
    case None
    with assms show ?thesis
      by (simp add: handleMessage_r1_def Let_def)
  next
    case (Some x)
    obtain u en where x: "x = (u, en)" by (cases x)
    with Some have en: "map_of (pendingRequests e) u = Some en"
      by (auto split: if_splits option.splits)
    from inv1_delete_entry [OF assms en] Some x show ?thesis
      by (cases "kind en") (simp_all add: handleMessage_r1_def Let_def inv1_handshake_resolve)
  qed
qed


lemma inv1_heartbeat_tick: "inv1 e \<Longrightarrow> inv1 (heartbeat_tick_r1 e)"
  by (auto simp: heartbeat_tick_r1_def buildPing_def buildRequest_def randomUUID_def Let_def
      inv1_send inv1_uuid split: option.splits)

lemma inv1_fired:
  assumes "inv1 e" "timers e h = Some t" "callback t \<noteq> Heartbeat"
  shows "justified (clearTimeout h e)" "keys_used (clearTimeout h e)"
  using assms by (simp_all add: inv1_def justified_def keys_used_def)

lemma justifiedD:
  "inv1 e \<Longrightarrow> timers e h = Some t \<Longrightarrow>
   justifies (heartbeatTimer e) (reconnectTimer e) (map_of (pendingRequests e)) h (callback t)"
  by (simp add: inv1_def justified_def)

lemma inv1_request_timeout:
  assumes "inv1 e" "timers e h = Some t" "callback t = RequestTimeout u m"
  shows "inv1 (request_timeout u m (clearTimeout h e))"
proof -
  from justifiedD [OF assms(1,2)] assms(3)
  have "justifies (heartbeatTimer e) (reconnectTimer e) (map_of (pendingRequests e)) h
      (RequestTimeout u m)"
    by simp
  then obtain en where en: "map_of (pendingRequests e) u = Some en" "timeout en = h"
    by (auto simp: justifies_def split: option.splits)
  from inv1_delete_entry [OF assms(1) en(1)] en(2) show ?thesis
    by (simp add: request_timeout_def)
qed

lemma inv1_handshake_timeout:
  assumes "inv1 e" "timers e h = Some t" "callback t = HandshakeTimeout u"
  shows "inv1 (handshake_timeout u (clearTimeout h e))"
proof -
  from justifiedD [OF assms(1,2)] assms(3)
  have "justifies (heartbeatTimer e) (reconnectTimer e) (map_of (pendingRequests e)) h
      (HandshakeTimeout u)"
    by simp
  then obtain en where en: "map_of (pendingRequests e) u = Some en" "timeout en = h"
    by (auto simp: justifies_def split: option.splits)
  from inv1_delete_entry [OF assms(1) en(1)] en(2) show ?thesis
    by (simp add: handshake_timeout_def inv1_cleanup)
qed

lemma inv1_fire:
  assumes "inv1 e"
  shows "inv1 (fire_r1 we h e)"
proof (cases "timers e h")
  case None
  with assms show ?thesis by (simp add: fire_r1_def)
next
  case (Some t)
  show ?thesis
  proof (cases "callback t")
    case Heartbeat
    with Some assms show ?thesis by (simp add: fire_r1_def inv1_heartbeat_tick)
  next
    case (Reconnect s)
    with Some assms inv1_fired [OF assms Some] have "inv1 (clearTimeout h e)"
      by (simp add: inv1_def)
    with Some Reconnect show ?thesis by (simp add: fire_r1_def inv1_connect)
  next
    case ConnectDelay
    with justifiedD [OF assms Some] show ?thesis by (simp add: justifies_def)
  next
    case (RequestTimeout u m)
    with Some inv1_request_timeout [OF assms Some] show ?thesis by (simp add: fire_r1_def)
  next
    case (HandshakeTimeout u)
    with Some inv1_handshake_timeout [OF assms Some] show ?thesis by (simp add: fire_r1_def)
  qed
qed

lemma inv1_sendMessage: "inv1 e \<Longrightarrow> inv1 (snd (sendMessage_r1 txt e))"
  by (simp add: sendMessage_r1_def randomUUID_def Let_def inv1_request inv1_uuid)

lemma inv1_initial: "inv1 (initial_r1 st)"
  by (simp add: inv1_def justified_def keys_used_def initial_r1_def)

lemma inv1_step:
  assumes "inv1 e"
  shows "inv1 (step_r1 env oc ev e)"
proof (cases ev)
  case SocketOpen
  with assms show ?thesis
    by (auto simp: step_r1_def inv1_onopen split: option.splits)
next
  case (SocketMessage raw)
  with assms show ?thesis
    by (auto simp: step_r1_def inv1_handleMessage split: option.splits)
next
  case SocketClose
  with assms show ?thesis
    by (auto simp: step_r1_def inv1_onclose split: option.splits)
qed (use assms in \<open>simp_all add: step_r1_def inv1_connect inv1_fire inv1_disconnect inv1_sendMessage\<close>)

subsection \<open>Flushing the queue\<close>

lemma flush_loop_open:
  assumes "ws e = Some k" "readyState k = WS_OPEN"
  shows "pendingQueue (mem (store (flush_loop sk q e))) =
      filter (\<lambda>i. idempotencyKey i \<notin> idempotencyKey ` set q) (pendingQueue (mem (store e)))
    \<and> (\<exists>k'. ws (flush_loop sk q e) = Some k' \<and> readyState k' = WS_OPEN
          \<and> map (\<lambda>r. (req_method r, params r)) (sent k') =
              map (\<lambda>r. (req_method r, params r)) (sent k) @ map (chat_of sk) q)"
  using assms
proof (induction q arbitrary: e k)
  case Nil
  then show ?case by simp
next
  case (Cons item q)
  let ?r = "\<lparr>req_id = next_uuid e, req_method = str ''chat.send'',
             params = ChatParams sk (q_text item) (idempotencyKey item)\<rparr>"
  let ?k1 = "k\<lparr>sent := sent k @ [?r]\<rparr>"
  let ?e3 = "e\<lparr>next_uuid := Suc (next_uuid e), ws := Some ?k1,
               store := dequeue (idempotencyKey item) (store e)\<rparr>"
  have step: "flush_loop sk (item # q) e = flush_loop sk q ?e3"
    using Cons.prems by (simp add: randomUUID_def send_def Let_def)
  have "ws ?e3 = Some ?k1" "readyState ?k1 = WS_OPEN"
    using Cons.prems by simp_all
  from Cons.IH [OF this] show ?case
    unfolding step
    by (auto simp: dequeue_def Let_def chat_of_def intro: filter_cong)
qed

lemma flush_loop_closed:
  assumes "\<not> (\<exists>k. ws e = Some k \<and> readyState k = WS_OPEN)"
  shows "store (flush_loop sk q e) = store e \<and> ws (flush_loop sk q e) = ws e"
  using assms
proof (induction q arbitrary: e)
  case Nil
  then show ?case by simp
next
  case (Cons item q)
  have step: "flush_loop sk (item # q) e = flush_loop sk q (e\<lparr>next_uuid := Suc (next_uuid e)\<rparr>)"
    using Cons.prems by (cases "ws e") (auto simp: randomUUID_def send_def Let_def)
  from Cons.prems have "\<not> (\<exists>k. ws (e\<lparr>next_uuid := Suc (next_uuid e)\<rparr>) = Some k \<and> readyState k = WS_OPEN)"
    by simp
  from Cons.IH [OF this] show ?case
    unfolding step by simp
qed



lemma store_request [simp]: "store (snd (request m p e)) = store e"
proof (cases "\<exists>k. ws e = Some k \<and> readyState k = WS_OPEN")
  case True
  then obtain k where k: "ws e = Some k" "readyState k = WS_OPEN" by blast
  show ?thesis by (simp add: request_open [OF k])
next
  case False
  then show ?thesis by (simp add: request_closed)
qed

lemma ws_open_request:
  assumes "ws e = Some k" "readyState k = WS_OPEN"
  shows "\<exists>k'. ws (snd (request m p e)) = Some k' \<and> readyState k' = WS_OPEN"
  using assms(2) by (simp add: request_open [OF assms])

lemma store_flush_loop_r1 [simp]: "store (flush_loop_r1 sk q e) = store e"
proof (induction q arbitrary: e)
  case Nil
  then show ?case by simp
next
  case (Cons item q)
  obtain u e1 where r: "request (str ''chat.send'')
      (ChatParams sk (q_text item) (idempotencyKey item)) e = (u, e1)"
    by (cases "request (str ''chat.send'') (ChatParams sk (q_text item) (idempotencyKey item)) e")
  then have "store e1 = store e"
    using store_request [of "str ''chat.send''" "ChatParams sk (q_text item) (idempotencyKey item)" e]
    by simp
  with Cons.IH r show ?case
    by (simp add: Let_def split: option.splits)
qed

text \<open>Entries and promises below the next id are left alone by the loop.\<close>

lemma request_keeps:
  assumes "u < next_uuid e"
  shows "map_of (pendingRequests (snd (request m p e))) u = map_of (pendingRequests e) u
    \<and> promises (snd (request m p e)) u = promises e u
    \<and> next_uuid (snd (request m p e)) = Suc (next_uuid e)"
proof (cases "\<exists>k. ws e = Some k \<and> readyState k = WS_OPEN")
  case True
  then obtain k where k: "ws e = Some k" "readyState k = WS_OPEN" by blast
  from assms show ?thesis by (simp add: request_open [OF k])
next
  case False
  with assms show ?thesis by (simp add: request_closed)
qed

lemma flush_loop_r1_keeps:
  assumes "u < next_uuid e"
  shows "map_of (pendingRequests (flush_loop_r1 sk q e)) u = map_of (pendingRequests e) u
    \<and> promises (flush_loop_r1 sk q e) u = promises e u"
  using assms
proof (induction q arbitrary: e)
  case Nil
  then show ?case by simp
next
  case (Cons item q)
  let ?m = "str ''chat.send''" and ?p = "ChatParams sk (q_text item) (idempotencyKey item)"
  obtain u0 e1 where r: "request ?m ?p e = (u0, e1)"
    by (cases "request ?m ?p e")
  have u0: "u0 = next_uuid e"
    using r by (simp add: request_def randomUUID_def setTimeout_def Let_def split: prod.splits if_splits)
  from request_keeps [OF Cons.prems, of ?m ?p] r
  have k1: "map_of (pendingRequests e1) u = map_of (pendingRequests e) u"
    "promises e1 u = promises e u" "next_uuid e1 = Suc (next_uuid e)"
    by simp_all
  let ?e2 = "(case promises e1 u0 of
               Some pr \<Rightarrow> e1\<lparr>promises := (promises e1)(u0 \<mapsto> pr\<lparr>then_dequeue := Some (idempotencyKey item)\<rparr>)\<rparr>
             | None \<Rightarrow> e1)"
  have k2: "map_of (pendingRequests ?e2) u = map_of (pendingRequests e) u"
    "promises ?e2 u = promises e u" "u < next_uuid ?e2"
    using k1 u0 Cons.prems by (auto split: option.splits)
  from Cons.IH [OF k2(3)] k2(1,2) r show ?case
    by (simp add: Let_def)
qed

lemma flush_loop_r1_registers:
  assumes "ws e = Some k" "readyState k = WS_OPEN"
  shows "list_all (\<lambda>item. \<exists>u en. map_of (pendingRequests (flush_loop_r1 sk q e)) u = Some en
        \<and> kind en = Request
        \<and> promises (flush_loop_r1 sk q e) u =
            Some \<lparr>outcome = Pending, then_dequeue = Some (idempotencyKey item)\<rparr>) q"
  using assms
proof (induction q arbitrary: e k)
  case Nil
  then show ?case by simp
next
  case (Cons item q)
  let ?m = "str ''chat.send''" and ?p = "ChatParams sk (q_text item) (idempotencyKey item)"
  let ?u = "next_uuid e"
  note ro = request_open [OF Cons.prems, of ?m ?p]
  let ?e1 = "snd (request ?m ?p e)"
  let ?e2 = "?e1\<lparr>promises := (promises ?e1)(?u \<mapsto>
      \<lparr>outcome = Pending, then_dequeue = Some (idempotencyKey item)\<rparr>)\<rparr>"
  have step: "flush_loop_r1 sk (item # q) e = flush_loop_r1 sk q ?e2"
    by (simp add: ro Let_def)
  have e2: "map_of (pendingRequests ?e2) ?u = Some \<lparr>kind = Request, timeout = next_timer e\<rparr>"
    "promises ?e2 ?u = Some \<lparr>outcome = Pending, then_dequeue = Some (idempotencyKey item)\<rparr>"
    "?u < next_uuid ?e2"
    by (simp_all add: ro)
  from flush_loop_r1_keeps [OF e2(3), of sk q] e2(1,2)
  have head: "\<exists>u en. map_of (pendingRequests (flush_loop_r1 sk q ?e2)) u = Some en
        \<and> kind en = Request
        \<and> promises (flush_loop_r1 sk q ?e2) u =
            Some \<lparr>outcome = Pending, then_dequeue = Some (idempotencyKey item)\<rparr>"
    by (intro exI [of _ ?u] exI [of _ "\<lparr>kind = Request, timeout = next_timer e\<rparr>"]) simp
  have "ws ?e2 = Some (k\<lparr>sent := sent k @ [\<lparr>req_id = ?u, req_method = ?m, params = ?p\<rparr>]\<rparr>)"
    "readyState (k\<lparr>sent := sent k @ [\<lparr>req_id = ?u, req_method = ?m, params = ?p\<rparr>]\<rparr>) = WS_OPEN"
    using Cons.prems by (simp_all add: ro)
  from Cons.IH [OF this] head show ?case
    unfolding step by simp
qed

section \<open>Properties of the codec, the payload and the store\<close>

text \<open>
  C8. \<open>parseFrame\<close> never throws: for every input it returns a value, and a string
  that \<open>JSON.parse\<close> rejects decodes to the sentinel frame of type \<open>unknown\<close> that
  carries the raw input.
\<close>

theorem parseFrame_total:
  "(\<exists>v. parseFrame JSON_parse data = Inr v)
   \<and> (\<forall>s e. data = Text s \<and> JSON_parse s = Inl e
        \<longrightarrow> parseFrame JSON_parse data = Inr (Unknown data))"
  by (cases data) (auto simp: parseFrame_def try_catch_def split: sum.splits)

theorem parseFrame_total_witness:
  "(\<lambda>s. if s = str ''{}'' then Inr () else Inl SyntaxError) (str ''{oops'') = Inl SyntaxError
   \<and> parseFrame (\<lambda>s. if s = str ''{}'' then Inr () else Inl SyntaxError)
        (Text (str ''{oops'') :: unit ws_data) = Inr (Unknown (Text (str ''{oops'')))"
proof -
  have h: "(if str ''{oops'' = str ''{}'' then Inr () else Inl SyntaxError) = Inl SyntaxError"
    by (simp add: str_def)
  show ?thesis
    using h parseFrame_total [of "\<lambda>s. if s = str ''{}'' then Inr () else Inl SyntaxError"
        "Text (str ''{oops'') :: unit ws_data"]
    by simp
qed

lemma join_two: "join s (x # y # r) = x @ s @ join s (y # r)"
  by simp

text \<open>
  C9. The payload is the fields in the fixed order version, device id, client id, client
  mode, role, the scopes joined by commas, the time stamp and the token, separated by
  \<open>|\<close>. There are two forms: without a nonce (absent or, as JavaScript tests it, empty)
  the version is \<open>v1\<close> and the token is the last field; with a nonce the version is \<open>v2\<close>
  and the nonce follows as the last field. Which form is produced depends on the nonce
  alone, and equal arguments give equal payloads.
\<close>

theorem buildDeviceAuthPayload_forms:
  "(\<not> truthy nonce \<longrightarrow>
      buildDeviceAuthPayload dev cid mode role scopes ts token nonce =
        str ''v1'' @ [124] @ dev @ [124] @ cid @ [124] @ mode @ [124] @ role @
        [124] @ join [44] scopes @ [124] @ String ts @ [124] @ or_empty token)
   \<and> (\<forall>n. nonce = Some n \<and> n \<noteq> [] \<longrightarrow>
      buildDeviceAuthPayload dev cid mode role scopes ts token nonce =
        str ''v2'' @ [124] @ dev @ [124] @ cid @ [124] @ mode @ [124] @ role @
        [124] @ join [44] scopes @ [124] @ String ts @ [124] @ or_empty token @
        [124] @ n)
   \<and> (take 2 (buildDeviceAuthPayload dev cid mode role scopes ts
          token nonce) = str ''v2'') = truthy nonce
   \<and> (dev = dev' \<and> cid = cid' \<and> mode = mode' \<and> role = role'
        \<and> scopes = scopes' \<and> ts = ts' \<and> token = token' \<and> nonce = nonce'
      \<longrightarrow> buildDeviceAuthPayload dev cid mode role scopes ts token nonce =
          buildDeviceAuthPayload dev' cid' mode' role' scopes' ts'
            token' nonce')"
  by (auto simp: buildDeviceAuthPayload_def truthy_def or_empty_def str_def)

theorem buildDeviceAuthPayload_forms_witness:
  "\<not> truthy None
   \<and> buildDeviceAuthPayload (str ''d1'') (str ''webchat'') (str ''webchat'') (str ''operator'')
        [str ''operator.read'', str ''operator.write''] 1700000000000 (Some (str ''tok'')) None =
      str ''v1|d1|webchat|webchat|operator|operator.read,operator.write|1700000000000|tok''
   \<and> buildDeviceAuthPayload (str ''d1'') (str ''webchat'') (str ''webchat'') (str ''operator'')
        [str ''operator.read'', str ''operator.write''] 1700000000000 (Some (str ''tok''))
        (Some (str ''n0'')) =
      str ''v2|d1|webchat|webchat|operator|operator.read,operator.write|1700000000000|tok|n0''"
proof -
  have d: "String 1700000000000 = str ''1700000000000''"
    by (simp add: String_def str_def)
  have n: "str ''n0'' \<noteq> []"
    by (simp add: str_def)
  show ?thesis
    using d n
      buildDeviceAuthPayload_forms [of None "str ''d1''" "str ''webchat''" "str ''webchat''"
        "str ''operator''" "[str ''operator.read'', str ''operator.write'']" 1700000000000
        "Some (str ''tok'')"]
      buildDeviceAuthPayload_forms [of "Some (str ''n0'')" "str ''d1''" "str ''webchat''"
        "str ''webchat''" "str ''operator''" "[str ''operator.read'', str ''operator.write'']"
        1700000000000 "Some (str ''tok'')"]
    by (simp add: truthy_def or_empty_def str_def)
qed









subsection \<open>The life of a pending request\<close>

lemma inv1_run: "inv1 e \<Longrightarrow> inv1 (run_events_r1 env evs e)"
proof (induction evs arbitrary: e)
  case Nil
  then show ?case by simp
next
  case (Cons x evs)
  obtain oc ev where x: "x = (oc, ev)" by (cases x)
  from Cons.IH [OF inv1_step [OF Cons.prems, of env oc ev]] show ?case
    by (simp add: x)
qed

text \<open>
  C3. In any state the first revision of the engine reaches, with the socket open:
  \<open>request\<close> sends the frame and registers, under the request's id, an entry whose
  timeout of 15000 ms is armed, and the promise is pending. A response with that id
  removes the entry, clears the timeout and resolves the promise with the response. The
  timeout firing removes the entry and rejects the promise. \<open>disconnect\<close> rejects the
  promise, empties the pending table and leaves no timer armed at all.
\<close>

theorem pending_request_lifecycle:
  assumes "e = run_events_r1 env evs (initial_r1 st)"
    and "ws e = Some k" and "readyState k = WS_OPEN"
  shows "fst (request m p e) = next_uuid e
    \<and> map_of (pendingRequests (snd (request m p e))) (next_uuid e) =
        Some \<lparr>kind = Request, timeout = next_timer e\<rparr>
    \<and> timers (snd (request m p e)) (next_timer e) =
        Some \<lparr>delay = 15000, callback = RequestTimeout (next_uuid e) m\<rparr>
    \<and> promises (snd (request m p e)) (next_uuid e) =
        Some \<lparr>outcome = Pending, then_dequeue = None\<rparr>
    \<and> ws (snd (request m p e)) =
        Some (k\<lparr>sent := sent k @ [\<lparr>req_id = next_uuid e, req_method = m, params = p\<rparr>]\<rparr>)
    \<and> (ftype (decode (env_JSON_parse env) raw) = Some (str ''res'')
        \<and> fid (decode (env_JSON_parse env) raw) = Some (next_uuid e)
        \<longrightarrow> map_of (pendingRequests (step_r1 env oc (SocketMessage raw) (snd (request m p e))))
              (next_uuid e) = None
          \<and> timers (step_r1 env oc (SocketMessage raw) (snd (request m p e))) (next_timer e) = None
          \<and> promises (step_r1 env oc (SocketMessage raw) (snd (request m p e))) (next_uuid e) =
              Some \<lparr>outcome = Resolved (decode (env_JSON_parse env) raw), then_dequeue = None\<rparr>)
    \<and> map_of (pendingRequests (step_r1 env oc (TimerFires (next_timer e)) (snd (request m p e))))
          (next_uuid e) = None
    \<and> timers (step_r1 env oc (TimerFires (next_timer e)) (snd (request m p e))) (next_timer e)
        = None
    \<and> promises (step_r1 env oc (TimerFires (next_timer e)) (snd (request m p e))) (next_uuid e) =
        Some \<lparr>outcome = Rejected (str ''Request '' @ m @ str '' timed out''),
              then_dequeue = None\<rparr>
    \<and> promises (step_r1 env oc Disconnect (snd (request m p e))) (next_uuid e) =
        Some \<lparr>outcome = Rejected (str ''Connection closed''), then_dequeue = None\<rparr>
    \<and> pendingRequests (step_r1 env oc Disconnect (snd (request m p e))) = []
    \<and> timers (step_r1 env oc Disconnect (snd (request m p e))) = Map.empty
    \<and> heartbeatTimer (step_r1 env oc Disconnect (snd (request m p e))) = None
    \<and> reconnectTimer (step_r1 env oc Disconnect (snd (request m p e))) = None
    \<and> ws (step_r1 env oc Disconnect (snd (request m p e))) = None
    \<and> conn (step_r1 env oc Disconnect (snd (request m p e))) = DISCONNECTED"
proof -
  let ?u = "next_uuid e" and ?h = "next_timer e"
  let ?e1 = "snd (request m p e)"
  note ro = request_open [OF assms(2,3), of m p]
  have reg: "fst (request m p e) = ?u"
    "map_of (pendingRequests ?e1) ?u = Some \<lparr>kind = Request, timeout = ?h\<rparr>"
    "timers ?e1 ?h = Some \<lparr>delay = 15000, callback = RequestTimeout ?u m\<rparr>"
    "promises ?e1 ?u = Some \<lparr>outcome = Pending, then_dequeue = None\<rparr>"
    "ws ?e1 = Some (k\<lparr>sent := sent k @ [\<lparr>req_id = ?u, req_method = m, params = p\<rparr>]\<rparr>)"
    by (simp_all add: ro)
  have response: "map_of (pendingRequests (step_r1 env oc (SocketMessage raw) ?e1)) ?u = None
      \<and> timers (step_r1 env oc (SocketMessage raw) ?e1) ?h = None
      \<and> promises (step_r1 env oc (SocketMessage raw) ?e1) ?u =
          Some \<lparr>outcome = Resolved (decode (env_JSON_parse env) raw), then_dequeue = None\<rparr>"
    if "ftype (decode (env_JSON_parse env) raw) = Some (str ''res'')"
      and "fid (decode (env_JSON_parse env) raw) = Some ?u"
    using that reg assms(3)
    by (simp add: step_r1_def handleMessage_r1_def resolve_promise_def Let_def)
  have timed_out: "map_of (pendingRequests (step_r1 env oc (TimerFires ?h) ?e1)) ?u = None
      \<and> timers (step_r1 env oc (TimerFires ?h) ?e1) ?h = None
      \<and> promises (step_r1 env oc (TimerFires ?h) ?e1) ?u =
          Some \<lparr>outcome = Rejected (str ''Request '' @ m @ str '' timed out''),
                then_dequeue = None\<rparr>"
    using reg
    by (simp add: step_r1_def fire_r1_def request_timeout_def reject_promise_def)
  from reg(2) have mem: "(?u, \<lparr>kind = Request, timeout = ?h\<rparr>) \<in> set (pendingRequests ?e1)"
    by (rule map_of_SomeD)
  have torn: "pendingRequests (step_r1 env oc Disconnect ?e1) = []"
    "heartbeatTimer (step_r1 env oc Disconnect ?e1) = None"
    "reconnectTimer (step_r1 env oc Disconnect ?e1) = None"
    "ws (step_r1 env oc Disconnect ?e1) = None"
    "conn (step_r1 env oc Disconnect ?e1) = DISCONNECTED"
    by (simp_all add: step_r1_def disconnect_r1_def cleanup_r1_fields)
  have rejected: "promises (step_r1 env oc Disconnect ?e1) ?u =
      Some \<lparr>outcome = Rejected (str ''Connection closed''), then_dequeue = None\<rparr>"
    using cleanup_r1_rejects [OF mem _ reg(4)]
    by (simp add: step_r1_def disconnect_r1_def)
  have "inv1 e"
    unfolding assms(1) by (rule inv1_run) (rule inv1_initial)
  then have "inv1 ?e1"
    by (rule inv1_request)
  then have none_left: "timers (step_r1 env oc Disconnect ?e1) = Map.empty"
    by (simp add: step_r1_def disconnect_r1_def inv1_def justified_cleanup)
  from reg response timed_out torn rejected none_left
  show ?thesis by blast
qed

lemmas engine1_eval = step_r1_def connect_r1_def cleanup_r1_def ws_onopen_r1_def buildConnect_def
  buildRequest_def setTimeout_def clearTimeout_def stopHeartbeat_def setState_def randomUUID_def
  send_def map_set_def map_delete_def initial_r1_def Let_def

lemma connected_r1_socket:
  "\<exists>k. ws connected_r1 = Some k \<and> readyState k = WS_OPEN"
  by (simp add: connected_r1_def engine1_eval example_env_def)

lemma connected_r1_next: "next_uuid connected_r1 = 1 \<and> next_timer connected_r1 = 1"
  by (simp add: connected_r1_def engine1_eval example_env_def)

theorem pending_request_lifecycle_witness:
  "(\<exists>k. ws connected_r1 = Some k \<and> readyState k = WS_OPEN)
   \<and> fst (request (str ''chat.send'') NoParams connected_r1) = 1
   \<and> timers (snd (request (str ''chat.send'') NoParams connected_r1)) 1 =
       Some \<lparr>delay = 15000, callback = RequestTimeout 1 (str ''chat.send'')\<rparr>
   \<and> promises (step_r1 (example_env response_frame) example_occasion (SocketMessage (Text []))
        (snd (request (str ''chat.send'') NoParams connected_r1))) 1 =
       Some \<lparr>outcome = Resolved response_frame, then_dequeue = None\<rparr>
   \<and> promises (step_r1 (example_env response_frame) example_occasion Disconnect
        (snd (request (str ''chat.send'') NoParams connected_r1))) 1 =
       Some \<lparr>outcome = Rejected (str ''Connection closed''), then_dequeue = None\<rparr>
   \<and> timers (step_r1 (example_env response_frame) example_occasion Disconnect
        (snd (request (str ''chat.send'') NoParams connected_r1))) = Map.empty"
proof -
  from connected_r1_socket obtain k where k: "ws connected_r1 = Some k" "readyState k = WS_OPEN"
    by blast
  have f: "decode (env_JSON_parse (example_env response_frame)) (Text []) = response_frame"
    by (simp add: example_env_def decode_def parseFrame_def try_catch_def frame_fields_def)
  have r: "ftype response_frame = Some (str ''res'')" "fid response_frame = Some 1"
    by (simp_all add: response_frame_def no_fields_def)
  from pending_request_lifecycle [OF connected_r1_def k, of "str ''chat.send''" NoParams
      "Text []" example_occasion] connected_r1_next connected_r1_socket f r
  show ?thesis by simp
qed

subsection \<open>When a queued item is removed\<close>

text \<open>
  C5, as the third revision has it: an item enqueued while disconnected is sent by the
  flush that follows the handshake and is gone from the queue, in memory and in storage,
  though nothing has come back from the gateway since it was sent.
\<close>

theorem sent_item_removed_unacknowledged:
  "pendingQueue (mem (store (initial (enqueue example_item example_store)))) = [example_item]
   \<and> (case ws flushed of
        Some k \<Rightarrow> map (\<lambda>r. (req_method r, params r)) (sent k) =
          [(str ''connect'', ConnectParams (Some (str ''tok'')) 3 3 None),
           (str ''chat.send'', ChatParams (str ''agent:main:main'')
              (str ''Task 1 completed: Review PR'') 41)]
      | None \<Rightarrow> False)
   \<and> example_item \<notin> set (pendingQueue (mem (store flushed)))
   \<and> forge_state (disk (store flushed)) =
       Some (Json \<lparr>p_settings = Some (settings (defaultState (str ''dev''))),
                   p_tasks = Some (tasks (defaultState (str ''dev''))), p_connection = None,
                   p_pendingQueue = Some [], p_deviceId = Some (str ''dev'')\<rparr>)"
  by (simp add: flushed_def engine_eval2 example_env_def accept_frame_def example_store_def
      example_settings_def example_occasion_def example_item_def defaultState_def enqueue_def
      dequeue_def getSessionKey_def flush_loop.simps str_def)


lemma flushQueue_open:
  assumes "ws e = Some k" "readyState k = WS_OPEN"
  shows "pendingQueue (mem (store (flushQueue s e))) = []
    \<and> (\<exists>k'. ws (flushQueue s e) = Some k'
          \<and> map (\<lambda>r. (req_method r, params r)) (sent k') =
              map (\<lambda>r. (req_method r, params r)) (sent k)
              @ map (chat_of (getSessionKey (agentId s))) (pendingQueue (mem (store e))))"
proof (cases "pendingQueue (mem (store e)) = []")
  case True
  with assms show ?thesis by (simp add: flushQueue_def)
next
  case False
  have "filter (\<lambda>i. idempotencyKey i \<notin> idempotencyKey ` set (pendingQueue (mem (store e))))
      (pendingQueue (mem (store e))) = []"
    by (simp add: filter_empty_conv)
  with False flush_loop_open [OF assms, of "getSessionKey (agentId s)" "pendingQueue (mem (store e))"]
  show ?thesis
    by (auto simp: flushQueue_def Let_def)
qed

lemma flushQueue_closed:
  assumes "\<not> (\<exists>k. ws e = Some k \<and> readyState k = WS_OPEN)"
  shows "pendingQueue (mem (store (flushQueue s e))) = pendingQueue (mem (store e))
    \<and> ws (flushQueue s e) = ws e"
  using flush_loop_closed [OF assms] by (simp add: flushQueue_def Let_def)

lemma response_dequeues:
  assumes "ws e = Some k" "readyState k = WS_OPEN"
    and "map_of (pendingRequests e) u = Some en" "kind en = Request"
    and "promises e u = Some \<lparr>outcome = Pending, then_dequeue = Some key\<rparr>"
    and "ftype (decode (env_JSON_parse env) raw) = Some (str ''res'')"
    and "fid (decode (env_JSON_parse env) raw) = Some u"
  shows "pendingQueue (mem (store (step_r1 env oc (SocketMessage raw) e))) =
    filter (\<lambda>i. idempotencyKey i \<noteq> key) (pendingQueue (mem (store e)))"
  using assms
  by (simp add: step_r1_def handleMessage_r1_def resolve_promise_def dequeue_def Let_def)

text \<open>
  C5, amended. In the third revision \<open>flushQueue\<close> on an open socket sends one
  \<open>chat.send\<close> request for every queued item, in order and under the item's idempotency
  key, and removes each item as soon as it is sent, so the queue is empty afterwards;
  it waits for no acknowledgment. With the socket not open it sends nothing and the
  queue stays as it is. In the first revision \<open>flushQueue\<close> removes nothing itself: on
  an open socket every item gets a pending request whose promise, once resolved, removes
  the item, and the response to that request is what resolves it.
\<close>

theorem flush_removal_policy:
  "(\<forall>k. ws e = Some k \<and> readyState k = WS_OPEN \<longrightarrow>
      pendingQueue (mem (store (flushQueue s e))) = []
      \<and> (\<exists>k'. ws (flushQueue s e) = Some k'
            \<and> map (\<lambda>r. (req_method r, params r)) (sent k') =
                map (\<lambda>r. (req_method r, params r)) (sent k)
                @ map (chat_of (getSessionKey (agentId s))) (pendingQueue (mem (store e)))))
   \<and> (\<not> (\<exists>k. ws e = Some k \<and> readyState k = WS_OPEN) \<longrightarrow>
      pendingQueue (mem (store (flushQueue s e))) = pendingQueue (mem (store e))
      \<and> ws (flushQueue s e) = ws e)
   \<and> pendingQueue (mem (store (flushQueue_r1 s e1))) = pendingQueue (mem (store e1))
   \<and> (\<forall>k. ws e1 = Some k \<and> readyState k = WS_OPEN \<longrightarrow>
      list_all (\<lambda>item. \<exists>u en. map_of (pendingRequests (flushQueue_r1 s e1)) u = Some en
            \<and> kind en = Request
            \<and> promises (flushQueue_r1 s e1) u =
                Some \<lparr>outcome = Pending, then_dequeue = Some (idempotencyKey item)\<rparr>)
        (pendingQueue (mem (store e1))))
   \<and> (\<forall>k u en key. ws e1 = Some k \<and> readyState k = WS_OPEN
        \<and> map_of (pendingRequests e1) u = Some en \<and> kind en = Request
        \<and> promises e1 u = Some \<lparr>outcome = Pending, then_dequeue = Some key\<rparr>
        \<and> ftype (decode (env_JSON_parse env) raw) = Some (str ''res'')
        \<and> fid (decode (env_JSON_parse env) raw) = Some u \<longrightarrow>
      pendingQueue (mem (store (step_r1 env oc (SocketMessage raw) e1))) =
        filter (\<lambda>i. idempotencyKey i \<noteq> key) (pendingQueue (mem (store e1))))"
proof -
  have r1_keeps: "pendingQueue (mem (store (flushQueue_r1 s e1))) = pendingQueue (mem (store e1))"
    by (simp add: flushQueue_r1_def Let_def)
  have r1_registers: "list_all (\<lambda>item. \<exists>u en. map_of (pendingRequests (flushQueue_r1 s e1)) u = Some en
            \<and> kind en = Request
            \<and> promises (flushQueue_r1 s e1) u =
                Some \<lparr>outcome = Pending, then_dequeue = Some (idempotencyKey item)\<rparr>)
        (pendingQueue (mem (store e1)))"
    if "ws e1 = Some k" "readyState k = WS_OPEN" for k
    using flush_loop_r1_registers [OF that, of "getSessionKey_r1 (agentId s)"
        "pendingQueue (mem (store e1))"]
    by (cases "pendingQueue (mem (store e1)) = []") (simp_all add: flushQueue_r1_def Let_def)
  show ?thesis
    using flushQueue_open [of e _ s] flushQueue_closed [of e s] r1_keeps r1_registers
      response_dequeues [of e1 _ _ _ _ env raw oc]
    by blast
qed


lemma queued_socket: "\<exists>k. ws queued = Some k \<and> readyState k = WS_OPEN"
  using retrying_socket by (auto simp: queued_def)

lemma queued_queue: "pendingQueue (mem (store queued)) = [example_item]"
  by (simp add: queued_def retrying_def failed_once_def engine_eval2 example_env_def
      accept_frame_def example_store_def example_settings_def example_occasion_def
      defaultState_def enqueue_def str_def)

lemma queued_r1_socket: "\<exists>k. ws queued_r1 = Some k \<and> readyState k = WS_OPEN"
  using connected_r1_socket by (auto simp: queued_r1_def)

lemma queued_r1_queue: "pendingQueue (mem (store queued_r1)) = [example_item]"
  by (simp add: queued_r1_def connected_r1_def engine1_eval example_env_def example_store_def
      defaultState_def enqueue_def store_update_connection_def)

lemma queued_r1_flushed:
  "(\<exists>k. ws (flushQueue_r1 example_settings queued_r1) = Some k \<and> readyState k = WS_OPEN)
   \<and> map_of (pendingRequests (flushQueue_r1 example_settings queued_r1)) 1 =
       Some \<lparr>kind = Request, timeout = 1\<rparr>
   \<and> promises (flushQueue_r1 example_settings queued_r1) 1 =
       Some \<lparr>outcome = Pending, then_dequeue = Some 41\<rparr>"
  by (simp add: queued_r1_def connected_r1_def engine1_eval example_env_def example_store_def
      defaultState_def enqueue_def store_update_connection_def flushQueue_r1_def request_def
      example_item_def)

theorem flush_removal_policy_witness:
  "(\<exists>k. ws queued = Some k \<and> readyState k = WS_OPEN)
   \<and> pendingQueue (mem (store queued)) = [example_item]
   \<and> pendingQueue (mem (store (flushQueue example_settings queued))) = []
   \<and> \<not> (\<exists>k. ws (initial (enqueue example_item example_store)) = Some k \<and> readyState k = WS_OPEN)
   \<and> pendingQueue (mem (store (flushQueue example_settings
          (initial (enqueue example_item example_store))))) =
       pendingQueue (mem (store (initial (enqueue example_item example_store))))
   \<and> pendingQueue (mem (store (flushQueue_r1 example_settings queued_r1))) = [example_item]
   \<and> pendingQueue (mem (store (step_r1 (example_env response_frame) example_occasion
          (SocketMessage (Text [])) (flushQueue_r1 example_settings queued_r1)))) = []"
proof -
  have no_socket:
    "\<not> (\<exists>k. ws (initial (enqueue example_item example_store)) = Some k \<and> readyState k = WS_OPEN)"
    by (simp add: initial_def)
  have f: "ftype (decode (env_JSON_parse (example_env response_frame)) (Text [])) = Some (str ''res'')"
    "fid (decode (env_JSON_parse (example_env response_frame)) (Text [])) = Some 1"
    by (simp_all add: example_env_def decode_def parseFrame_def try_catch_def frame_fields_def
        response_frame_def no_fields_def)
  have key: "idempotencyKey example_item = 41"
    by (simp add: example_item_def)
  note open3 = flush_removal_policy [of queued example_settings queued_r1]
  note closed3 = flush_removal_policy [of "initial (enqueue example_item example_store)"
      example_settings queued_r1]
  note resp1 = flush_removal_policy [of queued example_settings
      "flushQueue_r1 example_settings queued_r1" "example_env response_frame" "Text []"
      example_occasion]
  from queued_socket open3
  have a: "pendingQueue (mem (store (flushQueue example_settings queued))) = []"
    by blast
  from no_socket closed3
  have b: "pendingQueue (mem (store (flushQueue example_settings
          (initial (enqueue example_item example_store))))) =
       pendingQueue (mem (store (initial (enqueue example_item example_store))))"
    by blast
  from open3 queued_r1_queue
  have c: "pendingQueue (mem (store (flushQueue_r1 example_settings queued_r1))) = [example_item]"
    by simp
  from queued_r1_flushed obtain k1 where
    k1: "ws (flushQueue_r1 example_settings queued_r1) = Some k1" "readyState k1 = WS_OPEN"
    and en: "map_of (pendingRequests (flushQueue_r1 example_settings queued_r1)) 1 =
       Some \<lparr>kind = Request, timeout = 1\<rparr>"
    and pr: "promises (flushQueue_r1 example_settings queued_r1) 1 =
       Some \<lparr>outcome = Pending, then_dequeue = Some 41\<rparr>"
    by blast
  from resp1 have "\<forall>k u en key. ws (flushQueue_r1 example_settings queued_r1) = Some k
        \<and> readyState k = WS_OPEN
        \<and> map_of (pendingRequests (flushQueue_r1 example_settings queued_r1)) u = Some en
        \<and> kind en = Request
        \<and> promises (flushQueue_r1 example_settings queued_r1) u =
            Some \<lparr>outcome = Pending, then_dequeue = Some key\<rparr>
        \<and> ftype (decode (env_JSON_parse (example_env response_frame)) (Text [])) = Some (str ''res'')
        \<and> fid (decode (env_JSON_parse (example_env response_frame)) (Text [])) = Some u \<longrightarrow>
      pendingQueue (mem (store (step_r1 (example_env response_frame) example_occasion
          (SocketMessage (Text [])) (flushQueue_r1 example_settings queued_r1)))) =
        filter (\<lambda>i. idempotencyKey i \<noteq> key)
          (pendingQueue (mem (store (flushQueue_r1 example_settings queued_r1))))"
    by blast
  from this [rule_format, of k1 1 "\<lparr>kind = Request, timeout = 1\<rparr>" 41] k1 en pr f
  have "pendingQueue (mem (store (step_r1 (example_env response_frame) example_occasion
          (SocketMessage (Text [])) (flushQueue_r1 example_settings queued_r1)))) =
      filter (\<lambda>i. idempotencyKey i \<noteq> 41)
        (pendingQueue (mem (store (flushQueue_r1 example_settings queued_r1))))"
    by simp
  with c key have d: "pendingQueue (mem (store (step_r1 (example_env response_frame)
      example_occasion (SocketMessage (Text [])) (flushQueue_r1 example_settings queued_r1)))) = []"
    by simp
  from queued_socket queued_queue a no_socket b c d show ?thesis
    by blast
qed

end
